(* ===== verification/Prelude.thy ===== *)
theory Prelude
  imports Main "HOL-Library.Word"
begin

unbundle bit_operations_syntax

text \<open>
  The vocabulary the components share: byte strings as the C and C++ library functions see
  them, the failures of the program as values, and the outside world (locks, clock, socket
  layer) as an explicit source of outcomes.

  \<^item> Byte strings. \<open>std::string\<close> is \<^typ>\<open>string\<close>, a list of 8-bit \<^typ>\<open>char\<close>s. A
    \<open>const char*\<close> made by \<open>c_str()\<close> ends at its first NUL byte: \<open>cstr\<close>.
  \<^item> Failures. An operation that can throw, abort the server or run into undefined behaviour
    returns \<open>error + 'a\<close>; \<open>rbind\<close> sequences two of them.
  \<^item> The world. \<open>TSMutexLockTry\<close>, \<open>gettimeofday\<close>/\<open>time\<close> and \<open>zmq_bind\<close> are answered from
    the record \<open>world\<close>: the n-th question asked gets the n-th answer. Every component's
    state extends this record, so a theorem about all worlds is a theorem about all lock
    schedules and all clocks.
\<close>

section \<open>Failures\<close>

datatype error =
    OutOfRange             \<comment> \<open>\<open>std::out_of_range\<close>: \<open>map::at\<close>, \<open>substr\<close>, \<open>stoi\<close>\<close>
  | InvalidArgument        \<comment> \<open>\<open>std::invalid_argument\<close>: \<open>stoi\<close>, \<open>Base64::Decode\<close>\<close>
  | LengthError            \<comment> \<open>\<open>std::length_error\<close>: \<open>Base64::Encode\<close>\<close>
  | InvalidConf            \<comment> \<open>\<open>InvalidConfException\<close> of exception.h\<close>
  | EncryptionError        \<comment> \<open>\<open>EncryptionException\<close> of exception.h\<close>
  | YamlRepresentation     \<comment> \<open>\<open>YAML::RepresentationException\<close>: a failed conversion of a node\<close>
  | YamlException          \<comment> \<open>\<open>YAML::Exception\<close> that is not a representation exception\<close>
  | HeaderRetrieval        \<comment> \<open>\<open>TransactionMuncher::HEADER_RETRIEVAL_ERROR\<close>\<close>
  | AbortTrafficServer     \<comment> \<open>\<open>abort_traffic_server()\<close>: \<open>TSReleaseAssert(false)\<close>\<close>
  | Terminate              \<comment> \<open>\<open>throw;\<close> with no exception in flight: \<open>std::terminate\<close>\<close>
  | IntegerOverflow        \<comment> \<open>undefined behaviour: a signed result out of range\<close>
  | UndefinedShift         \<comment> \<open>undefined behaviour: a shift by the width of the type\<close>
  | BufferOverflow         \<comment> \<open>undefined behaviour: a write past the end of an array\<close>
  | OutOfBoundsRead        \<comment> \<open>undefined behaviour: a read past the end of a buffer\<close>
  | NullDereference        \<comment> \<open>undefined behaviour: a call through a null pointer\<close>

type_synonym 'a result = "error + 'a"

definition rbind :: "'a result \<Rightarrow> ('a \<Rightarrow> 'b result) \<Rightarrow> 'b result" where
  "rbind r f = (case r of Inl e \<Rightarrow> Inl e | Inr v \<Rightarrow> f v)"

lemma rbind_simps [simp]:
  "rbind (Inl e) f = Inl e"
  "rbind (Inr v) f = f v"
  by (simp_all add: rbind_def)

lemma rbind_eq_Inr_iff: "rbind r f = Inr y \<longleftrightarrow> (\<exists>v. r = Inr v \<and> f v = Inr y)"
  by (cases r) simp_all

lemma rbind_eq_Inl_iff: "rbind r f = Inl e \<longleftrightarrow> r = Inl e \<or> (\<exists>v. r = Inr v \<and> f v = Inl e)"
  by (cases r) simp_all

lemma rbind_split:
  "P (rbind r f) \<longleftrightarrow> (\<forall>e. r = Inl e \<longrightarrow> P (Inl e)) \<and> (\<forall>v. r = Inr v \<longrightarrow> P (f v))"
  by (cases r) simp_all

lemma rbind_split_asm:
  "P (rbind r f) \<longleftrightarrow>
     \<not> ((\<exists>e. r = Inl e \<and> \<not> P (Inl e)) \<or> (\<exists>v. r = Inr v \<and> \<not> P (f v)))"
  by (cases r) simp_all

lemmas rbind_splits = rbind_split rbind_split_asm


section \<open>Byte strings\<close>

subsection \<open>Character classes of ctype.h in the C locale\<close>

definition isspace :: "char \<Rightarrow> bool" where
  "isspace c \<longleftrightarrow> (let n = (of_char c :: nat) in n = 32 \<or> (9 \<le> n \<and> n \<le> 13))"

definition isdigit :: "char \<Rightarrow> bool" where
  "isdigit c \<longleftrightarrow> (let n = (of_char c :: nat) in 48 \<le> n \<and> n \<le> 57)"

definition tolower :: "char \<Rightarrow> char" where
  "tolower c = (let n = (of_char c :: nat) in if 65 \<le> n \<and> n \<le> 90 then char_of (n + 32) else c)"

abbreviation NUL :: char where
  "NUL \<equiv> CHR 0x00"

abbreviation QUOTE :: char where
  "QUOTE \<equiv> CHR 0x22"

abbreviation BACKSLASH :: char where
  "BACKSLASH \<equiv> CHR 0x5C"

abbreviation CRLF :: string where
  "CRLF \<equiv> [CHR 0x0D, CHR 0x0A]"

definition cstr :: "string \<Rightarrow> string" where
  "cstr s = takeWhile (\<lambda>c. c \<noteq> NUL) s"

lemma cstr_idem [simp]: "cstr (cstr s) = cstr s"
  by (simp add: cstr_def takeWhile_idem)

lemma cstr_id: "NUL \<notin> set s \<Longrightarrow> cstr s = s"
  by (auto simp: cstr_def takeWhile_eq_all_conv)

lemma cstr_no_NUL [simp]: "NUL \<notin> set (cstr s)"
  by (auto simp: cstr_def dest: set_takeWhileD)

subsection \<open>Searching\<close>

definition starts_with :: "string \<Rightarrow> string \<Rightarrow> bool" where
  "starts_with p s \<longleftrightarrow> take (length p) s = p"

lemma starts_with_append [simp]: "starts_with p (p @ s)"
  by (simp add: starts_with_def)

lemma starts_with_iff: "starts_with p s \<longleftrightarrow> (\<exists>r. s = p @ r)"
  unfolding starts_with_def by (metis append_eq_conv_conj append_take_drop_id)

text \<open>\<open>std::string::find\<close> and \<open>rfind\<close> of a substring: the position of the first or the last
  occurrence, \<open>None\<close> for \<open>npos\<close>.\<close>

fun sfind :: "string \<Rightarrow> string \<Rightarrow> nat option" where
  "sfind p [] = (if p = [] then Some 0 else None)"
| "sfind p (c # s) = (if starts_with p (c # s) then Some 0 else map_option Suc (sfind p s))"

fun srfind :: "string \<Rightarrow> string \<Rightarrow> nat option" where
  "srfind p [] = (if p = [] then Some 0 else None)"
| "srfind p (c # s) =
     (case srfind p s of
        Some i \<Rightarrow> Some (Suc i)
      | None \<Rightarrow> if starts_with p (c # s) then Some 0 else None)"

definition occurs :: "string \<Rightarrow> string \<Rightarrow> bool" where
  "occurs p s \<longleftrightarrow> (\<exists>a b. s = a @ p @ b)"

lemma occurs_Nil: "occurs p [] \<longleftrightarrow> p = []"
  by (auto simp: occurs_def)

lemma occurs_Cons: "occurs p (c # s) \<longleftrightarrow> starts_with p (c # s) \<or> occurs p s"
proof
  assume "occurs p (c # s)"
  then obtain a b where ab: "c # s = a @ p @ b" by (auto simp: occurs_def)
  show "starts_with p (c # s) \<or> occurs p s"
  proof (cases a)
    case Nil
    with ab show ?thesis by (metis append_Nil starts_with_append)
  next
    case (Cons x a')
    with ab have "s = a' @ p @ b" by simp
    then show ?thesis unfolding occurs_def by blast
  qed
next
  assume "starts_with p (c # s) \<or> occurs p s"
  then show "occurs p (c # s)"
    unfolding occurs_def starts_with_iff by (metis append_Cons append_Nil)
qed

lemma sfind_None_iff: "sfind p s = None \<longleftrightarrow> \<not> occurs p s"
  by (induction s) (auto simp: occurs_Nil occurs_Cons)

lemma srfind_None_iff: "srfind p s = None \<longleftrightarrow> \<not> occurs p s"
  by (induction s) (auto simp: occurs_Nil occurs_Cons split: option.splits)

lemma sfind_Some_split:
  "sfind p s = Some i \<Longrightarrow> s = take i s @ p @ drop (i + length p) s"
proof (induction s arbitrary: i)
  case Nil
  then show ?case by (auto split: if_splits)
next
  case (Cons c s)
  show ?case
  proof (cases "starts_with p (c # s)")
    case True
    with Cons.prems have "i = 0" by simp
    with True show ?thesis
      by (metis add_0 append_Nil append_take_drop_id starts_with_def take0)
  next
    case False
    with Cons.prems obtain j where "sfind p s = Some j" "i = Suc j" by auto
    with Cons.IH show ?thesis by fastforce
  qed
qed

lemma sfind_bound: "sfind p s = Some i \<Longrightarrow> i + length p \<le> length s"
proof -
  assume "sfind p s = Some i"
  then have "s = take i s @ p @ drop (i + length p) s" by (rule sfind_Some_split)
  moreover have "i \<le> length s"
    using \<open>sfind p s = Some i\<close>
    by (induction s arbitrary: i) (fastforce split: if_splits)+
  ultimately show ?thesis
    by (metis append_take_drop_id drop_drop length_append length_take min.absorb2
        nat_add_left_cancel_le le_add1 add.assoc)
qed

section \<open>The memory image of an integer\<close>

text \<open>The bytes of an integer in memory, least significant first.\<close>

fun int_bytes :: "nat \<Rightarrow> int \<Rightarrow> string" where
  "int_bytes 0 n = []"
| "int_bytes (Suc k) n = char_of n # int_bytes k (n div 256)"

fun bytes_int :: "string \<Rightarrow> int" where
  "bytes_int [] = 0"
| "bytes_int (c # cs) = of_char c + 256 * bytes_int cs"

lemma length_int_bytes [simp]: "length (int_bytes k n) = k"
  by (induction k arbitrary: n) simp_all

lemma bytes_int_bytes: "bytes_int (int_bytes k n) = n mod 256 ^ k"
proof (induction k arbitrary: n)
  case (Suc k)
  have "n mod 256 ^ Suc k = 256 * (n div 256 mod 256 ^ k) + n mod 256"
    by (simp add: zmod_zmult2_eq)
  with Suc show ?case by simp
qed simp

section \<open>The outside world\<close>

record world =
  tick :: nat
  locks :: "nat \<Rightarrow> bool"
  clock :: "nat \<Rightarrow> int \<times> int"
  binds :: "nat \<Rightarrow> bool"

text \<open>\<open>TSMutexLockTry(m) == TS_SUCCESS\<close>. The lock is given back at the end of the scope
  (\<open>defer\<close>), so a later attempt is a new question.\<close>

definition try_lock :: "'w world_scheme \<Rightarrow> bool \<times> 'w world_scheme" where
  "try_lock w = (locks w (tick w), w\<lparr>tick := Suc (tick w)\<rparr>)"

text \<open>\<open>gettimeofday\<close>: seconds and microseconds.\<close>

definition gettimeofday :: "'w world_scheme \<Rightarrow> (int \<times> int) \<times> 'w world_scheme" where
  "gettimeofday w = (clock w (tick w), w\<lparr>tick := Suc (tick w)\<rparr>)"

text \<open>\<open>time(NULL)\<close>: seconds.\<close>

definition time_now :: "'w world_scheme \<Rightarrow> int \<times> 'w world_scheme" where
  "time_now w = (fst (clock w (tick w)), w\<lparr>tick := Suc (tick w)\<rparr>)"

text \<open>\<open>zmq::socket_t::bind\<close>: whether the call returns or throws \<open>zmq::error_t\<close>.\<close>

definition zmq_bind :: "'w world_scheme \<Rightarrow> bool \<times> 'w world_scheme" where
  "zmq_bind w = (binds w (tick w), w\<lparr>tick := Suc (tick w)\<rparr>)"

named_theorems world_simps \<open>unfolding the questions to the outside world\<close>

lemmas world_defs [world_simps] =
  try_lock_def gettimeofday_def time_now_def zmq_bind_def

section \<open>Runs of a step relation\<close>

text \<open>A run records the events of its steps in order.\<close>

inductive run :: "('s \<Rightarrow> 'e \<Rightarrow> 's \<Rightarrow> bool) \<Rightarrow> 's \<Rightarrow> 'e list \<Rightarrow> 's \<Rightarrow> bool" for step where
  run_nil: "run step s [] s"
| run_snoc: "run step s es s' \<Longrightarrow> step s' e s'' \<Longrightarrow> run step s (es @ [e]) s''"

lemma run_snoc_iff: "run step s (es @ [e]) s'' \<longleftrightarrow> (\<exists>s'. run step s es s' \<and> step s' e s'')"
  by (auto elim: run.cases intro: run_snoc)

lemma run_append_split:
  "run step s (es1 @ e # es2) s' \<Longrightarrow> \<exists>s1 s2. run step s es1 s1 \<and> step s1 e s2 \<and> run step s2 es2 s'"
proof (induction es2 arbitrary: s' rule: rev_induct)
  case Nil
  then show ?case by (auto simp: run_snoc_iff intro: run_nil)
next
  case (snoc x es2)
  from snoc.prems have "run step s ((es1 @ e # es2) @ [x]) s'" by simp
  then obtain s'' where "run step s (es1 @ e # es2) s''" and "step s'' x s'"
    unfolding run_snoc_iff by blast
  with snoc.IH show ?case by (metis run_snoc)
qed

text \<open>An invariant may speak of the events so far. It holds after every run if it holds at the start
  and each step keeps it.\<close>

locale trace_invariant =
  fixes step :: "'s \<Rightarrow> 'e \<Rightarrow> 's \<Rightarrow> bool"
    and inv :: "'e list \<Rightarrow> 's \<Rightarrow> bool"
  assumes inv_step: "inv es s \<Longrightarrow> step s e s' \<Longrightarrow> inv (es @ [e]) s'"
begin

lemma inv_run: "run step s es s' \<Longrightarrow> inv [] s \<Longrightarrow> inv es s'"
  by (induction rule: run.induct) (auto intro: inv_step)

lemma inv_before:
  "run step s (es1 @ e # es2) s' \<Longrightarrow> inv [] s \<Longrightarrow> \<exists>s1 s2. inv es1 s1 \<and> step s1 e s2"
  using run_append_split inv_run by metis

end

end
