(* ===== verification/Util.thy ===== *)
theory Util
  imports Prelude
begin

text \<open>
  The address arithmetic and string helpers of util.h and util.cpp: \<open>encapsulate_in_quotes\<close>,
  \<open>make_mask_for_range\<close>, \<open>is_match\<close>, \<open>to_lower\<close>. The parts of the C and C++ library they use
  are modelled as documented: \<open>inet_addr\<close> (numbers-and-dots notation with one to four parts,
  decimal, octal or hexadecimal, \<open>INADDR_NONE\<close> on anything else) and \<open>std::stoi\<close>. \<open>ntohl\<close> is
  applied to every result of \<open>inet_addr\<close> at once, so addresses are kept in host order.
\<close>

section \<open>Strings\<close>

definition to_lower :: "string \<Rightarrow> string" where
  "to_lower s = map tolower s"

text \<open>The loop of \<open>encapsulate_in_quotes\<close>: \<open>find\<close> from \<open>start_pos\<close>, replace the quote by two
  characters, go on behind them. The part before \<open>start_pos\<close> is never looked at again.\<close>

fun escape_quotes :: "string \<Rightarrow> string" where
  "escape_quotes [] = []"
| "escape_quotes (c # s) = (if c = QUOTE then BACKSLASH # QUOTE # escape_quotes s else c # escape_quotes s)"

definition encapsulate_in_quotes :: "string \<Rightarrow> string" where
  "encapsulate_in_quotes s = [QUOTE] @ escape_quotes s @ [QUOTE]"

section \<open>Numbers\<close>

definition digit_value :: "char \<Rightarrow> nat option" where
  "digit_value c =
     (let n = (of_char c :: nat) in
      if 48 \<le> n \<and> n \<le> 57 then Some (n - 48)
      else if 65 \<le> n \<and> n \<le> 70 then Some (n - 55)
      else if 97 \<le> n \<and> n \<le> 102 then Some (n - 87)
      else None)"

text \<open>The digits of the given base at the front of a string: their value, how many there are, and
  the rest.\<close>

fun read_digits :: "nat \<Rightarrow> int \<Rightarrow> nat \<Rightarrow> string \<Rightarrow> int \<times> nat \<times> string" where
  "read_digits base acc k [] = (acc, k, [])"
| "read_digits base acc k (c # s) =
     (case digit_value c of
        Some d \<Rightarrow> if d < base then read_digits base (acc * int base + int d) (Suc k) s
                 else (acc, k, c # s)
      | None \<Rightarrow> (acc, k, c # s))"

text \<open>\<open>std::stoi\<close>: leading white space, an optional sign, decimal digits; what follows is
  ignored.\<close>

definition stoi :: "string \<Rightarrow> int result" where
  "stoi s =
     (let t = dropWhile isspace (cstr s);
          negative = (starts_with ''-'' t);
          u = (if negative \<or> starts_with ''+'' t then drop 1 t else t);
          (n, k, _) = read_digits 10 0 0 u;
          v = (if negative then - n else n)
      in if k = 0 then Inl InvalidArgument
         else if v < - (2 ^ 31) \<or> 2 ^ 31 \<le> v then Inl OutOfRange
         else Inr v)"

text \<open>One part of an address, as \<open>strtoul(cp, &endp, 0)\<close> reads it: \<open>0x\<close> before a hexadecimal
  digit selects base 16, any other leading \<open>0\<close> base 8. It must begin with a digit.\<close>

definition read_part :: "string \<Rightarrow> (int \<times> string) option" where
  "read_part s =
     (case s of
        [] \<Rightarrow> None
      | c # t \<Rightarrow>
          if \<not> isdigit c then None
          else
            let (n, _, rest) =
              (if c = CHR ''0'' then
                 (case t of
                    x # y # _ \<Rightarrow>
                      if (x = CHR ''x'' \<or> x = CHR ''X'') \<and> digit_value y \<noteq> None
                      then read_digits 16 0 0 (drop 1 t)
                      else read_digits 8 0 0 s
                  | _ \<Rightarrow> read_digits 8 0 0 s)
               else read_digits 10 0 0 s)
            in if n < 2 ^ 32 then Some (n, rest) else None)"

text \<open>The parts of \<open>a.b.c.d\<close>, \<open>a.b.c\<close>, \<open>a.b\<close> or \<open>a\<close>: at most three parts of at most 255
  before the last one, which fills the remaining bytes; then the end or white space. \<open>acc\<close> holds
  the bytes read so far.\<close>

fun read_address :: "nat \<Rightarrow> int \<Rightarrow> string \<Rightarrow> int option" where
  "read_address 0 acc s = None"
| "read_address (Suc left) acc s =
     (case read_part s of
        None \<Rightarrow> None
      | Some (n, rest) \<Rightarrow>
          if starts_with ''.'' rest then
            (if n \<le> 255 then read_address left (acc * 256 + n) (drop 1 rest) else None)
          else if (rest = [] \<or> isspace (hd rest)) \<and> n < 256 ^ Suc left
               then Some (acc * 256 ^ Suc left + n)
               else None)"

definition INADDR_NONE :: "32 word" where
  "INADDR_NONE = 0xffffffff"

text \<open>\<open>ntohl(inet_addr(s))\<close>.\<close>

definition inet_addr :: "string \<Rightarrow> 32 word" where
  "inet_addr s = (case read_address 4 0 (cstr s) of None \<Rightarrow> INADDR_NONE | Some n \<Rightarrow> word_of_int n)"

section \<open>Address ranges\<close>

type_synonym subnet_range = "32 word \<times> 32 word"

text \<open>\<open>keep_bits\<close> is unsigned: a negative number is out of range. With \<open>keep_bits = 0\<close> the mask is
  shifted by its whole width, which C++ leaves undefined.\<close>

definition make_mask_for_range :: "string \<Rightarrow> subnet_range result" where
  "make_mask_for_range hay_ip =
     (case sfind ''/'' hay_ip of
        None \<Rightarrow> Inr (inet_addr hay_ip, 0xffffffff)
      | Some slash_pos \<Rightarrow>
          rbind (stoi (drop (slash_pos + 1) hay_ip)) (\<lambda>keep_bits.
          if keep_bits < 0 \<or> 32 < keep_bits then Inl InvalidConf
          else if keep_bits = 0 then Inl UndefinedShift
          else
            let k = 32 - nat keep_bits;
                netmask = push_bit k (drop_bit k 0xffffffff)
            in Inr (inet_addr (take slash_pos hay_ip), netmask)))"

definition is_match :: "string \<Rightarrow> subnet_range \<Rightarrow> bool" where
  "is_match needle_ip ip_range_pair \<longleftrightarrow>
     fst ip_range_pair AND snd ip_range_pair = inet_addr needle_ip AND snd ip_range_pair"

section \<open>Decimal printing\<close>

text \<open>\<open>std::to_string\<close> of an integer, and \<open>inet_ntoa\<close>.\<close>

fun decimal_nat :: "nat \<Rightarrow> string" where
  "decimal_nat n = (if n < 10 then [char_of (48 + n)] else decimal_nat (n div 10) @ [char_of (48 + n mod 10)])"

declare decimal_nat.simps [simp del]

definition to_string :: "int \<Rightarrow> string" where
  "to_string n = (if n < 0 then ''-'' @ decimal_nat (nat (- n)) else decimal_nat (nat n))"

definition inet_ntoa :: "32 word \<Rightarrow> string" where
  "inet_ntoa a =
     decimal_nat (unat (drop_bit 24 a AND 0xff)) @ ''.'' @
     decimal_nat (unat (drop_bit 16 a AND 0xff)) @ ''.'' @
     decimal_nat (unat (drop_bit 8 a AND 0xff)) @ ''.'' @
     decimal_nat (unat (a AND 0xff))"

subsection \<open>Reading a printed number back\<close>

lemma digit_value_decimal: "d < 10 \<Longrightarrow> digit_value (char_of (48 + d :: nat)) = Some d"
  by (simp add: digit_value_def Let_def)

lemma decimal_nat_not_Nil: "decimal_nat n \<noteq> []"
  by (subst decimal_nat.simps) simp

lemma isdigit_decimal: "d < 10 \<Longrightarrow> isdigit (char_of (48 + d :: nat))"
  by (simp add: isdigit_def Let_def)

lemma char_of_48: "(char_of (48 :: nat) :: char) = CHR ''0''"
  by code_simp

lemma decimal_nat_digits: "c \<in> set (decimal_nat n) \<Longrightarrow> isdigit c"
proof (induction n rule: decimal_nat.induct)
  case (1 n)
  then show ?case
    by (cases "n < 10") (auto simp: decimal_nat.simps [of n] isdigit_decimal)
qed

lemma read_digits_acc:
  "read_digits 10 acc k (decimal_nat n @ rest) =
     (if rest = [] \<or> digit_value (hd rest) = None \<or> the (digit_value (hd rest)) \<ge> 10
      then (acc * 10 ^ length (decimal_nat n) + int n, k + length (decimal_nat n), rest)
      else read_digits 10 (acc * 10 ^ length (decimal_nat n) + int n) (k + length (decimal_nat n)) rest)"
proof (induction n arbitrary: acc k rest rule: decimal_nat.induct)
  case (1 n)
  show ?case
  proof (cases "n < 10")
    case True
    then have "read_digits 10 acc k (decimal_nat n @ rest) =
        read_digits 10 (acc * 10 + int n) (Suc k) rest"
      by (simp add: decimal_nat.simps [of n] digit_value_decimal)
    with True show ?thesis
      by (cases rest) (auto simp: decimal_nat.simps [of n] split: option.splits)
  next
    case False
    let ?c = "char_of (48 + n mod 10) :: char"
    have eq: "decimal_nat n @ rest = decimal_nat (n div 10) @ (?c # rest)"
      using False by (simp add: decimal_nat.simps [of n])
    have step: "read_digits 10 acc k (decimal_nat n @ rest) =
        read_digits 10 (acc * 10 ^ length (decimal_nat (n div 10)) + int (n div 10))
          (k + length (decimal_nat (n div 10))) (?c # rest)"
    proof -
      have "digit_value ?c = Some (n mod 10)" by (rule digit_value_decimal) simp
      moreover have "\<not> 10 \<le> n mod 10" using mod_less_divisor [of 10 n] by linarith
      ultimately show ?thesis
        using 1 [OF False, of acc k "?c # rest"] unfolding eq by (simp only: list.sel option.sel) simp
    qed
    have num: "(acc * 10 ^ length (decimal_nat (n div 10)) + int (n div 10)) * 10 + int (n mod 10) =
        acc * 10 ^ length (decimal_nat n) + int n"
    proof -
      have "int n = int (n div 10) * 10 + int (n mod 10)" by presburger
      then show ?thesis using False by (simp add: decimal_nat.simps [of n] algebra_simps)
    qed
    have len: "length (decimal_nat n) = Suc (length (decimal_nat (n div 10)))"
      using False by (simp add: decimal_nat.simps [of n])
    have dig: "digit_value ?c = Some (n mod 10)" by (rule digit_value_decimal) simp
    have "read_digits 10 acc k (decimal_nat n @ rest) =
        read_digits 10 ((acc * 10 ^ length (decimal_nat (n div 10)) + int (n div 10)) * 10 + int (n mod 10))
          (Suc (k + length (decimal_nat (n div 10)))) rest"
      unfolding step by (simp add: dig)
    then have "read_digits 10 acc k (decimal_nat n @ rest) =
        read_digits 10 (acc * 10 ^ length (decimal_nat n) + int n) (k + length (decimal_nat n)) rest"
      unfolding num len by simp
    then show ?thesis
      by (cases rest) (auto split: option.splits)
  qed
qed

definition no_digit :: "string \<Rightarrow> bool" where
  "no_digit rest \<longleftrightarrow> rest = [] \<or> \<not> isdigit (hd rest)"

lemma not_isdigit_value:
  "\<not> isdigit c \<Longrightarrow> digit_value c = None \<or> the (digit_value c) \<ge> 10"
  by (auto simp: isdigit_def digit_value_def Let_def)

lemma read_digits_decimal:
  "no_digit rest \<Longrightarrow> read_digits 10 0 0 (decimal_nat n @ rest) = (int n, length (decimal_nat n), rest)"
  using not_isdigit_value [of "hd rest"] by (auto simp: read_digits_acc no_digit_def)

lemma decimal_nat_hd_zero: "hd (decimal_nat n) = CHR ''0'' \<Longrightarrow> n = 0"
proof (induction n rule: decimal_nat.induct)
  case (1 n)
  show ?case
  proof (cases "n < 10")
    case True
    with 1(2) have "(char_of (48 + n) :: char) = char_of (48 :: nat)"
      by (simp add: decimal_nat.simps [of n] char_of_48)
    then have "of_char (char_of (48 + n) :: char) = (of_char (char_of (48 :: nat) :: char) :: nat)" by simp
    with True show ?thesis by simp
  next
    case False
    with 1(2) have "hd (decimal_nat (n div 10)) = CHR ''0''"
      by (simp add: decimal_nat.simps [of n] decimal_nat_not_Nil)
    with 1(1) False show ?thesis by simp
  qed
qed

lemma read_part_decimal:
  assumes "n < 256" and "no_digit rest" and "rest = [] \<or> hd rest \<noteq> CHR ''x'' \<and> hd rest \<noteq> CHR ''X''"
  shows "read_part (decimal_nat n @ rest) = Some (int n, rest)"
proof (cases "n = 0")
  case True
  then have "decimal_nat n = [CHR ''0'']" by (simp add: decimal_nat.simps char_of_48)
  moreover have "digit_value (CHR ''0'') = Some 0" by (simp add: digit_value_def)
  moreover have "read_digits 8 0 k rest = (0, k, rest)" for k
    using assms(2) not_isdigit_value [of "hd rest"]
    by (cases rest) (auto simp: no_digit_def split: option.splits)
  ultimately show ?thesis
    using True assms(3) by (auto simp: read_part_def isdigit_def split: list.splits)
next
  case False
  obtain c t where ct: "decimal_nat n = c # t"
    by (meson decimal_nat_not_Nil neq_Nil_conv)
  then have "isdigit c" using decimal_nat_digits [of c n] by simp
  moreover have "c \<noteq> CHR ''0''" using False ct decimal_nat_hd_zero [of n] by auto
  moreover have "read_digits 10 0 0 (c # t @ rest) = (int n, length (decimal_nat n), rest)"
    using read_digits_decimal [OF assms(2), of n] ct by simp
  ultimately show ?thesis using assms(1) ct by (simp add: read_part_def)
qed

lemma read_part_dot:
  "n < 256 \<Longrightarrow> read_part (decimal_nat n @ CHR ''.'' # rest) = Some (int n, CHR ''.'' # rest)"
  by (rule read_part_decimal) (simp_all add: no_digit_def isdigit_def)

lemma read_part_end: "n < 256 \<Longrightarrow> read_part (decimal_nat n) = Some (int n, [])"
  using read_part_decimal [of n "[]"] by (simp add: no_digit_def)

lemma read_address_dotted:
  assumes "a < 256" "b < 256" "c < 256" "d < 256"
  shows "read_address 4 0 (decimal_nat a @ ''.'' @ decimal_nat b @ ''.'' @ decimal_nat c @ ''.'' @ decimal_nat d) =
     Some (((int a * 256 + int b) * 256 + int c) * 256 + int d)"
proof -
  have "(4 :: nat) = Suc (Suc (Suc (Suc 0)))" by simp
  show ?thesis
    unfolding \<open>4 = Suc (Suc (Suc (Suc 0)))\<close> using assms by (simp add: read_part_dot read_part_end starts_with_def)
qed

lemma byte_of_word_less: "unat (x AND 0xff :: 32 word) < 256"
proof -
  have "x AND 0xff = take_bit 8 x" by (simp add: take_bit_eq_mask mask_eq_exp_minus_1)
  then have "unat (x AND 0xff) = take_bit 8 (unat x)" by (simp add: unsigned_take_bit_eq)
  then show ?thesis by (simp add: take_bit_eq_mod)
qed

lemma bytes_of_int:
  fixes n :: int
  assumes "0 \<le> n" and "n < 256 * (256 * (256 * 256))"
  shows "((n div (256 * (256 * 256)) mod 256 * 256 + n div (256 * 256) mod 256) * 256 + n div 256 mod 256) * 256
     + n mod 256 = n"
proof -
  define q1 q2 q3 where "q1 = n div 256" and "q2 = q1 div 256" and "q3 = q2 div 256"
  have e2: "n div (256 * 256) = q2" and e3: "n div (256 * (256 * 256)) = q3"
    by (simp_all only: q1_def q2_def q3_def zdiv_zmult2_eq)
  have n: "n = q1 * 256 + n mod 256" "q1 = q2 * 256 + q1 mod 256" "q2 = q3 * 256 + q2 mod 256"
    by (simp_all only: q1_def q2_def q3_def div_mult_mod_eq)
  have "0 \<le> q3" unfolding e3 [symmetric] using assms(1) by (simp add: pos_imp_zdiv_nonneg_iff)
  moreover have "q3 < 256"
    using n assms(2) pos_mod_sign [of 256 n] pos_mod_sign [of 256 q1] pos_mod_sign [of 256 q2] by linarith
  ultimately have "q3 mod 256 = q3" by (rule mod_pos_pos_trivial)
  then show ?thesis
    unfolding e2 e3 q1_def [symmetric] using n by (simp only:)
qed

text \<open>The four bytes of a word put together again.\<close>

lemma word_of_bytes:
  fixes a :: "32 word"
  shows "word_of_int (((int (unat (drop_bit 24 a AND 0xff)) * 256 +
            int (unat (drop_bit 16 a AND 0xff))) * 256 +
            int (unat (drop_bit 8 a AND 0xff))) * 256 + int (unat (a AND 0xff))) = a"
proof -
  have b: "int (unat (drop_bit k a AND 0xff)) = take_bit 8 (drop_bit k (uint a))" for k
  proof -
    have "drop_bit k a AND 0xff = take_bit 8 (drop_bit k a)"
      by (simp add: take_bit_eq_mask mask_eq_exp_minus_1)
    moreover have "int (unat w) = uint w" for w :: "32 word" by simp
    moreover have "uint (drop_bit k a) = drop_bit k (uint a)"
      using take_bit_int_eq_self [of "uint a" 32] uint_lt2p [of a] by (simp add: unsigned_drop_bit_eq)
    ultimately show ?thesis
      using unsigned_take_bit_eq [where 'a = int, of 8 "drop_bit k a"] by metis
  qed
  have b0: "int (unat (a AND 0xff)) = take_bit 8 (uint a)"
    using b [of 0] by simp
  define n where "n = uint a"
  have p: "(2::int) ^ 8 = 256" "(2::int) ^ 16 = 256 * 256" "(2::int) ^ 24 = 256 * (256 * 256)"
    by simp_all
  have "0 \<le> n" "n < 256 * (256 * (256 * 256))" using uint_lt2p [of a] by (simp_all add: n_def)
  then have "((take_bit 8 (drop_bit 24 n) * 256 + take_bit 8 (drop_bit 16 n)) * 256 +
      take_bit 8 (drop_bit 8 n)) * 256 + take_bit 8 n = n"
    unfolding take_bit_eq_mod drop_bit_eq_div p by (rule bytes_of_int)
  then show ?thesis unfolding b b0 n_def [symmetric] by (simp add: n_def)
qed

section \<open>Properties\<close>

text \<open>An IPv4 address printed in dotted decimal is read back by \<open>inet_addr\<close> as the same
  address, for every address.\<close>

lemma inet_addr_inet_ntoa: "inet_addr (inet_ntoa a) = a"
proof -
  have nul: "NUL \<notin> set (decimal_nat n)" for n
    using decimal_nat_digits [of NUL n] by (auto simp: isdigit_def)
  then have "cstr (inet_ntoa a) = inet_ntoa a"
    by (intro cstr_id) (simp add: inet_ntoa_def)
  moreover have "read_address 4 0 (inet_ntoa a) =
     Some (((int (unat (drop_bit 24 a AND 0xff)) * 256 + int (unat (drop_bit 16 a AND 0xff))) * 256 +
            int (unat (drop_bit 8 a AND 0xff))) * 256 + int (unat (a AND 0xff)))"
    unfolding inet_ntoa_def by (intro read_address_dotted byte_of_word_less)
  ultimately show ?thesis
    unfolding inet_addr_def by (simp only: option.case word_of_bytes)
qed

lemma stoi_decimal: "int n < 2 ^ 31 \<Longrightarrow> no_digit rest \<Longrightarrow> NUL \<notin> set rest \<Longrightarrow> stoi (decimal_nat n @ rest) = Inr (int n)"
proof -
  assume n: "int n < 2 ^ 31" and rest: "no_digit rest" and nn: "NUL \<notin> set rest"
  obtain c t where ct: "decimal_nat n = c # t"
    by (meson decimal_nat_not_Nil neq_Nil_conv)
  then have dig: "isdigit c" using decimal_nat_digits [of c n] by simp
  have "NUL \<notin> set (decimal_nat n)"
    using decimal_nat_digits [of NUL n] by (auto simp: isdigit_def)
  with nn have cs: "cstr (decimal_nat n @ rest) = decimal_nat n @ rest" by (simp add: cstr_id)
  have sp: "dropWhile isspace (decimal_nat n @ rest) = decimal_nat n @ rest"
    using dig ct by (auto simp: isdigit_def isspace_def Let_def)
  have sg: "\<not> starts_with ''-'' (decimal_nat n @ rest)" "\<not> starts_with ''+'' (decimal_nat n @ rest)"
    using dig ct by (auto simp: isdigit_def starts_with_def Let_def)
  show ?thesis
    using n by (simp add: stoi_def cs sp sg Let_def read_digits_decimal [OF rest] decimal_nat_not_Nil)
qed

lemma netmask_bit:
  assumes "k \<le> 32" and "i < 32"
  shows "bit (push_bit k (drop_bit k 0xffffffff :: 32 word)) i \<longleftrightarrow> k \<le> i"
proof -
  have m: "(0xffffffff :: 32 word) = - 1" by simp
  show ?thesis
    using assms unfolding m
    by (simp only: bit_push_bit_iff bit_drop_bit_eq comp_apply bit_minus_1_iff possible_bit_word) auto
qed

lemma masked_eq_iff:
  fixes a b :: "32 word"
  assumes "k \<le> 32"
  shows "a AND push_bit k (drop_bit k 0xffffffff) = b AND push_bit k (drop_bit k 0xffffffff)
     \<longleftrightarrow> drop_bit k a = drop_bit k b"
proof -
  have "a AND push_bit k (drop_bit k 0xffffffff) = b AND push_bit k (drop_bit k 0xffffffff)
     \<longleftrightarrow> (\<forall>i<32. k \<le> i \<longrightarrow> bit a i = bit b i)"
    using assms by (auto simp: bit_eq_iff [of "_ :: 32 word"] bit_and_iff netmask_bit dest: bit_imp_le_length)
  also have "\<dots> \<longleftrightarrow> drop_bit k a = drop_bit k b"
  proof
    assume "\<forall>i<32. k \<le> i \<longrightarrow> bit a i = bit b i"
    then show "drop_bit k a = drop_bit k b"
      by (intro bit_word_eqI) (use bit_imp_le_length [of a] bit_imp_le_length [of b] in \<open>fastforce simp: bit_drop_bit_eq\<close>)
  next
    assume "drop_bit k a = drop_bit k b"
    then have "bit (drop_bit k a) j = bit (drop_bit k b) j" for j by simp
    then have "bit a (k + j) = bit b (k + j)" for j by (simp add: bit_drop_bit_eq)
    then show "\<forall>i<32. k \<le> i \<longrightarrow> bit a i = bit b i" using le_Suc_ex by blast
  qed
  finally show ?thesis .
qed

text \<open>C38: What an address range of the configuration means. An address without a slash matches
  exactly the strings that denote the same address. In CIDR notation \<open>base/k\<close> with
  \<open>1 \<le> k \<le> 32\<close> (whatever base, decimal \<open>k\<close>) an address matches iff its \<open>k\<close> leading bits are
  those of the base; \<open>k\<close> above 32 is a configuration error; and \<open>/0\<close>, which should match every
  address, makes the code shift a 32-bit number by 32, which is undefined.\<close>

theorem cidr_range_semantics:
  assumes "CHR ''/'' \<notin> set base" and "int k < 2 ^ 31"
  shows "(case make_mask_for_range base of
            Inl _ \<Rightarrow> False
          | Inr rng \<Rightarrow> \<forall>ip. is_match ip rng \<longleftrightarrow> inet_addr ip = inet_addr base) \<and>
         (case make_mask_for_range (base @ ''/'' @ decimal_nat k) of
            Inl e \<Rightarrow> k = 0 \<and> e = UndefinedShift \<or> 32 < k \<and> e = InvalidConf
          | Inr rng \<Rightarrow> 1 \<le> k \<and> k \<le> 32 \<and>
              (\<forall>ip. is_match ip rng \<longleftrightarrow>
                 drop_bit (32 - k) (inet_addr ip) = drop_bit (32 - k) (inet_addr base)))"
    (is "?plain \<and> ?cidr")
proof
  have find_none: "sfind ''/'' base = None"
    using assms(1) by (auto simp: sfind_None_iff occurs_def)
  have find: "sfind ''/'' (base @ ''/'' @ s) = Some (length base)" for s
    using assms(1) by (induction base) (auto simp: starts_with_def)
  have m: "(0xffffffff :: 32 word) = -1" by simp
  show ?plain
    by (auto simp: make_mask_for_range_def find_none is_match_def m)
  have "stoi (decimal_nat k) = Inr (int k)"
    using stoi_decimal [of k "[]"] assms(2) by (simp add: no_digit_def)
  then have mk: "make_mask_for_range (base @ ''/'' @ decimal_nat k) =
     (if 32 < k then Inl InvalidConf else if k = 0 then Inl UndefinedShift
      else Inr (inet_addr base, push_bit (32 - k) (drop_bit (32 - k) 0xffffffff)))"
    using find [of "decimal_nat k"] by (simp add: make_mask_for_range_def Let_def)
  show ?cidr
  proof (cases "k = 0 \<or> 32 < k")
    case True
    then show ?thesis unfolding mk by auto
  next
    case False
    then show ?thesis
      unfolding mk using masked_eq_iff [of "32 - k" "inet_addr base"]
      by (simp only: is_match_def fst_conv snd_conv if_False sum.case) (simp, metis)
  qed
qed

theorem cidr_range_semantics_witness:
  "CHR ''/'' \<notin> set ''10.1.0.0'' \<and>
   (\<exists>rng. make_mask_for_range (''10.1.0.0'' @ ''/'' @ decimal_nat 16) = Inr rng \<and>
      is_match ''10.1.2.3'' rng \<and> \<not> is_match ''10.2.2.3'' rng)"
proof -
  have "drop_bit 16 (inet_addr ''10.1.2.3'') = drop_bit 16 (inet_addr ''10.1.0.0'')"
    "drop_bit 16 (inet_addr ''10.2.2.3'') \<noteq> drop_bit 16 (inet_addr ''10.1.0.0'')"
    by code_simp+
  with cidr_range_semantics [of "''10.1.0.0''" 16] show ?thesis
    by (auto split: sum.splits)
qed

text \<open>The text between the quotes, read the way a reader of the log does: a backslash before a
  quote stands for the quote.\<close>

fun unescape_quotes :: "string \<Rightarrow> string" where
  "unescape_quotes [] = []"
| "unescape_quotes [c] = [c]"
| "unescape_quotes (c # d # s) =
     (if c = BACKSLASH \<and> d = QUOTE then QUOTE # unescape_quotes s else c # unescape_quotes (d # s))"

lemma escape_quotes_hd: "escape_quotes s \<noteq> [] \<Longrightarrow> hd (escape_quotes s) \<noteq> QUOTE"
  by (cases s) auto

lemma unescape_escape: "unescape_quotes (escape_quotes s) = s"
proof (induction s)
  case (Cons c s)
  then show ?case
    using escape_quotes_hd [of s] by (cases "escape_quotes s") auto
qed simp

text \<open>A field of the ban log loses nothing: undoing the escapes between the two quotes that
  \<open>encapsulate_in_quotes\<close> adds gives back the string that was logged, for every string, so two
  different strings are never logged the same. Backslashes are not escaped, so a string that ends
  in one makes the closing quote look like an escaped one.\<close>

theorem quoted_field_is_recoverable:
  "(\<exists>body. encapsulate_in_quotes s = [QUOTE] @ body @ [QUOTE] \<and> unescape_quotes body = s) \<and>
   (encapsulate_in_quotes s = encapsulate_in_quotes t \<longleftrightarrow> s = t) \<and>
   encapsulate_in_quotes (s @ [BACKSLASH]) = [QUOTE] @ escape_quotes s @ [BACKSLASH, QUOTE]"
proof -
  have "escape_quotes (u @ v) = escape_quotes u @ escape_quotes v" for u v
    by (induction u) auto
  moreover have "escape_quotes s = escape_quotes t \<longleftrightarrow> s = t"
    by (metis unescape_escape)
  ultimately show ?thesis
    by (auto simp: encapsulate_in_quotes_def unescape_escape)
qed

end
