(* ===== verification/Yaml.thy ===== *)
theory Yaml
  imports Util
begin

text \<open>
  The configuration tree the filters read, and \<open>BanjaxFilter::merge_nodes\<close> of banjax_filter.h.
  A node is what yaml-cpp hands out: undefined, null, a scalar, a sequence, or a map whose keys are
  scalars, in document order. \<open>to_map\<close>, \<open>ysub\<close> and \<open>yset\<close> are the documented behaviour of
  \<open>Node::operator[]\<close>: an undefined, null or sequence node turns into a map when it is subscripted
  by a name, a scalar throws \<open>BadSubscript\<close>. The conversions \<open>as<T>()\<close> are code of yaml-cpp and
  stay parameters, collected in the record \<open>yaml_lib\<close>.
\<close>

datatype yaml =
    YUndefined
  | YNull
  | YScalar string
  | YSequence "yaml list"
  | YMap "(string \<times> yaml) list"

record yaml_lib =
  as_string :: "yaml \<Rightarrow> string result"
  as_int    :: "yaml \<Rightarrow> int result"
  as_uint   :: "yaml \<Rightarrow> int result"
  as_long   :: "yaml \<Rightarrow> int result"
  as_bool   :: "yaml \<Rightarrow> bool result"

definition IsMap :: "yaml \<Rightarrow> bool" where
  "IsMap n = (case n of YMap _ \<Rightarrow> True | _ \<Rightarrow> False)"

definition IsSequence :: "yaml \<Rightarrow> bool" where
  "IsSequence n = (case n of YSequence _ \<Rightarrow> True | _ \<Rightarrow> False)"

text \<open>The truth value of a node: \<open>IsDefined()\<close>.\<close>

definition IsDefined :: "yaml \<Rightarrow> bool" where
  "IsDefined n = (case n of YUndefined \<Rightarrow> False | _ \<Rightarrow> True)"

definition to_map :: "yaml \<Rightarrow> (string \<times> yaml) list result" where
  "to_map n =
     (case n of
        YUndefined \<Rightarrow> Inr []
      | YNull \<Rightarrow> Inr []
      | YScalar _ \<Rightarrow> Inl YamlRepresentation
      | YSequence xs \<Rightarrow> Inr (zip (map decimal_nat [0..<length xs]) xs)
      | YMap kvs \<Rightarrow> Inr kvs)"

definition ysub :: "yaml \<Rightarrow> string \<Rightarrow> yaml result" where
  "ysub n k =
     rbind (to_map n) (\<lambda>kvs. Inr (case map_of kvs k of Some v \<Rightarrow> v | None \<Rightarrow> YUndefined))"

fun put_entry :: "string \<Rightarrow> yaml \<Rightarrow> (string \<times> yaml) list \<Rightarrow> (string \<times> yaml) list" where
  "put_entry k v [] = [(k, v)]"
| "put_entry k v ((k', v') # kvs) = (if k = k' then (k, v) # kvs else (k', v') # put_entry k v kvs)"

definition yset :: "yaml \<Rightarrow> string \<Rightarrow> yaml \<Rightarrow> yaml result" where
  "yset n k v = rbind (to_map n) (\<lambda>kvs. Inr (YMap (put_entry k v kvs)))"

text \<open>Iteration over elements: those of a sequence, nothing for a scalar, null or undefined node. An
  entry of a map is a pair of nodes and no node of its own: used as one it is an invalid node, on
  which every conversion throws.\<close>

definition yelems :: "yaml \<Rightarrow> yaml list" where
  "yelems n = (case n of YSequence xs \<Rightarrow> xs | YMap kvs \<Rightarrow> map (\<lambda>_. YUndefined) kvs | _ \<Rightarrow> [])"

text \<open>Iteration over the entries of a map.\<close>

definition yentries :: "yaml \<Rightarrow> (string \<times> yaml) list" where
  "yentries n = (case n of YMap kvs \<Rightarrow> kvs | _ \<Rightarrow> [])"

text \<open>\<open>as<std::vector<T>>()\<close>: every element converted, in order.\<close>

fun as_list :: "(yaml \<Rightarrow> 'a result) \<Rightarrow> yaml list \<Rightarrow> 'a list result" where
  "as_list f [] = Inr []"
| "as_list f (n # ns) = rbind (f n) (\<lambda>x. rbind (as_list f ns) (\<lambda>xs. Inr (x # xs)))"

definition as_vector :: "(yaml \<Rightarrow> 'a result) \<Rightarrow> yaml \<Rightarrow> 'a list result" where
  "as_vector f n = (case n of YSequence xs \<Rightarrow> as_list f xs | _ \<Rightarrow> Inl YamlRepresentation)"

fun merge_nodes :: "yaml \<Rightarrow> yaml \<Rightarrow> yaml result"
and merge_entries :: "yaml \<Rightarrow> (string \<times> yaml) list \<Rightarrow> yaml result" where
  "merge_nodes a (YMap kvs) = merge_entries a kvs"
| "merge_nodes (YSequence xs) (YSequence ys) = Inr (YSequence (xs @ ys))"
| "merge_nodes a b = Inr b"
| "merge_entries acc [] = Inr acc"
| "merge_entries acc ((k, v) # kvs) =
     rbind (ysub acc k) (\<lambda>old.
     rbind (merge_nodes old v) (\<lambda>new.
     rbind (yset acc k new) (\<lambda>acc'.
     merge_entries acc' kvs)))"

text \<open>The constructor \<open>BanjaxFilter::BanjaxFilter\<close>: the configuration of a filter is the merge of
  all its nodes, starting from a null node.\<close>

fun merge_config :: "yaml \<Rightarrow> yaml list \<Rightarrow> yaml result" where
  "merge_config cfg [] = Inr cfg"
| "merge_config cfg (n # ns) = rbind (merge_nodes cfg n) (\<lambda>cfg'. merge_config cfg' ns)"

section \<open>Properties\<close>

lemma map_of_put_entry [simp]: "map_of (put_entry k v kvs) = (map_of kvs)(k \<mapsto> v)"
  by (induction kvs) auto

lemma ysub_yset:
  "yset n k v = Inr n' \<Longrightarrow> ysub n' k' = (if k' = k then Inr v else ysub n k')"
  by (auto simp: yset_def ysub_def to_map_def rbind_eq_Inr_iff split: yaml.splits)

lemma yset_YMap: "yset n k v = Inr n' \<Longrightarrow> \<exists>kvs. n' = YMap kvs"
  by (auto simp: yset_def rbind_eq_Inr_iff)

lemma merge_entries_lookup:
  "distinct (map fst kvs) \<Longrightarrow> merge_entries a kvs = Inr m \<Longrightarrow>
   ysub m k = (case map_of kvs k of
                 None \<Rightarrow> ysub a k
               | Some v \<Rightarrow> rbind (ysub a k) (\<lambda>old. merge_nodes old v))"
proof (induction kvs arbitrary: a)
  case (Cons kv kvs)
  obtain k1 v1 where kv: "kv = (k1, v1)" by force
  from Cons.prems(2) obtain old new a' where
    old: "ysub a k1 = Inr old" and new: "merge_nodes old v1 = Inr new" and
    a': "yset a k1 new = Inr a'" and rest: "merge_entries a' kvs = Inr m"
    by (auto simp: kv rbind_eq_Inr_iff)
  from Cons.prems(1) have "distinct (map fst kvs)" and "k1 \<notin> fst ` set kvs" by (auto simp: kv)
  moreover from this(2) have "map_of kvs k1 = None" by (simp add: map_of_eq_None_iff)
  ultimately show ?case
    using Cons.IH [OF _ rest] ysub_yset [OF a'] old new by (auto simp: kv split: option.splits)
qed simp

lemma yset_some: "ysub n k = Inr x \<Longrightarrow> \<exists>n'. yset n k v = Inr n'"
  by (auto simp: ysub_def yset_def rbind_eq_Inr_iff)

text \<open>The configuration of a filter collected from several nodes. Merging a map into a node
  that can be read as a map keeps every entry of the first node the second does not mention, and
  merges the entries they share: two lists are concatenated in the order of the fragments, a later
  scalar replaces an earlier one. In particular no white-listed range, challenge or rule of an
  earlier fragment is lost by a later one that adds to the same list.\<close>

theorem merged_configuration_lookup:
  assumes "distinct (map fst kvs)" and "merge_nodes a (YMap kvs) = Inr m"
  shows "ysub m k =
     (case map_of kvs k of
        None \<Rightarrow> ysub a k
      | Some (YMap kvs') \<Rightarrow> rbind (ysub a k) (\<lambda>old. merge_nodes old (YMap kvs'))
      | Some (YSequence ys) \<Rightarrow>
          (case ysub a k of Inr (YSequence xs) \<Rightarrow> Inr (YSequence (xs @ ys)) | _ \<Rightarrow> Inr (YSequence ys))
      | Some v \<Rightarrow> Inr v)"
proof (cases "map_of kvs k")
  case (Some v)
  with assms(2) obtain old where old: "ysub a k = Inr old"
    by (cases kvs; cases a) (auto simp: ysub_def to_map_def)
  show ?thesis
    using merge_entries_lookup [OF assms(1), of a m k] assms(2) Some old
    by (cases v; cases old) simp_all
qed (use merge_entries_lookup [OF assms(1), of a m k] assms(2) in simp)

theorem merged_configuration_lookup_witness:
  "merge_nodes (YMap [(''ips'', YSequence [YScalar ''a'']), (''x'', YNull)])
     (YMap [(''ips'', YSequence [YScalar ''b''])]) =
       Inr (YMap [(''ips'', YSequence [YScalar ''a'', YScalar ''b'']), (''x'', YNull)]) \<and>
   ysub (YMap [(''ips'', YSequence [YScalar ''a'', YScalar ''b'']), (''x'', YNull)]) ''ips'' =
     Inr (YSequence [YScalar ''a'', YScalar ''b''])"
proof
  show m: "merge_nodes (YMap [(''ips'', YSequence [YScalar ''a'']), (''x'', YNull)])
     (YMap [(''ips'', YSequence [YScalar ''b''])]) =
       Inr (YMap [(''ips'', YSequence [YScalar ''a'', YScalar ''b'']), (''x'', YNull)])"
    by (simp add: ysub_def yset_def to_map_def)
  show "ysub (YMap [(''ips'', YSequence [YScalar ''a'', YScalar ''b'']), (''x'', YNull)]) ''ips'' =
     Inr (YSequence [YScalar ''a'', YScalar ''b''])"
    using merged_configuration_lookup [OF _ m, of "''ips''"] by (simp add: ysub_def to_map_def)
qed

text \<open>A conversion library for the witnesses: a scalar is its text.\<close>

definition sample_yaml :: yaml_lib where
  "sample_yaml =
     \<lparr>as_string = (\<lambda>n. case n of YScalar s \<Rightarrow> Inr s | _ \<Rightarrow> Inl YamlRepresentation),
      as_int = (\<lambda>n. case n of YScalar s \<Rightarrow> stoi s | _ \<Rightarrow> Inl YamlRepresentation),
      as_uint = (\<lambda>n. case n of YScalar s \<Rightarrow> stoi s | _ \<Rightarrow> Inl YamlRepresentation),
      as_long = (\<lambda>n. case n of YScalar s \<Rightarrow> stoi s | _ \<Rightarrow> Inl YamlRepresentation),
      as_bool = (\<lambda>n. case n of YScalar s \<Rightarrow> Inr (s = ''true'') | _ \<Rightarrow> Inl YamlRepresentation)\<rparr>"

end
