(* ===== verification/WhiteList.thy ===== *)
theory WhiteList
  imports Yaml "HOL-Library.Product_Lexorder"
begin

text \<open>
  global_white_list.h: address ranges that are exempt for every host, in the order they were
  added, and ranges exempt for one host. \<open>std::set<SubnetRange>\<close> is a strictly sorted list in the
  order of pairs, \<open>std::map\<close> a function from hosts.
\<close>

record global_white_list =
  white_list :: "subnet_range list"
  per_host_white_list :: "string \<rightharpoonup> subnet_range list"

definition empty_white_list :: global_white_list where
  "empty_white_list = \<lparr>white_list = [], per_host_white_list = Map.empty\<rparr>"

text \<open>\<open>insert(ip_range)\<close> and \<open>insert(host, ip_range)\<close>.\<close>

definition insert_range :: "subnet_range \<Rightarrow> global_white_list \<Rightarrow> global_white_list" where
  "insert_range r wl = wl\<lparr>white_list := white_list wl @ [r]\<rparr>"

definition insert_host_range :: "string \<Rightarrow> subnet_range \<Rightarrow> global_white_list \<Rightarrow> global_white_list" where
  "insert_host_range host r wl =
     wl\<lparr>per_host_white_list := (per_host_white_list wl)(host \<mapsto>
        (let rs = (case per_host_white_list wl host of None \<Rightarrow> [] | Some rs \<Rightarrow> rs)
         in if r \<in> set rs then rs else insort r rs))\<rparr>"

text \<open>\<open>is_white_listed(ip)\<close> and \<open>is_white_listed(host, ip)\<close>: the first matching range.\<close>

definition ip_white_listed :: "global_white_list \<Rightarrow> string \<Rightarrow> subnet_range option" where
  "ip_white_listed wl ip = find (is_match ip) (white_list wl)"

definition is_white_listed :: "global_white_list \<Rightarrow> string \<Rightarrow> string \<Rightarrow> subnet_range option" where
  "is_white_listed wl host ip =
     (case ip_white_listed wl ip of
        Some r \<Rightarrow> Some r
      | None \<Rightarrow>
          (case per_host_white_list wl host of
             None \<Rightarrow> None
           | Some rs \<Rightarrow> find (is_match ip) rs))"

section \<open>Properties\<close>

text \<open>What a white list is for: the set of exempt addresses of a host.\<close>

locale exemptions =
  fixes exempt :: "'w \<Rightarrow> string \<Rightarrow> string \<Rightarrow> bool"
    and add_all :: "'r \<Rightarrow> 'w \<Rightarrow> 'w"
    and add_host :: "string \<Rightarrow> 'r \<Rightarrow> 'w \<Rightarrow> 'w"
    and covers :: "'r \<Rightarrow> string \<Rightarrow> bool"
  assumes exempt_add_all: "exempt (add_all r w) host ip \<longleftrightarrow> exempt w host ip \<or> covers r ip"
    and exempt_add_host: "exempt (add_host h r w) host ip \<longleftrightarrow> exempt w host ip \<or> (host = h \<and> covers r ip)"
begin

lemma never_revoked:
  "exempt w host ip \<Longrightarrow> exempt (fold (\<lambda>e. case e of (None, r) \<Rightarrow> add_all r | (Some h, r) \<Rightarrow> add_host h r) es w) host ip"
  by (induction es arbitrary: w)
    (auto simp: exempt_add_all exempt_add_host split: option.splits)

lemma exempt_fold:
  "exempt (fold (\<lambda>e. case e of (None, r) \<Rightarrow> add_all r | (Some h, r) \<Rightarrow> add_host h r) es w) host ip \<longleftrightarrow>
   exempt w host ip \<or> (\<exists>(h, r) \<in> set es. (h = None \<or> h = Some host) \<and> covers r ip)"
  by (induction es arbitrary: w)
    (auto simp: exempt_add_all exempt_add_host split: option.splits)

end

lemma find_Some_ex: "(\<exists>y. find P xs = Some y) \<longleftrightarrow> (\<exists>x\<in>set xs. P x)"
  by (induction xs) auto

lemma is_white_listed_iff:
  "is_white_listed wl host ip \<noteq> None \<longleftrightarrow>
     (\<exists>r\<in>set (white_list wl). is_match ip r) \<or>
     (\<exists>rs. per_host_white_list wl host = Some rs \<and> (\<exists>r\<in>set rs. is_match ip r))"
proof (cases "ip_white_listed wl ip")
  case None
  then have "\<not> (\<exists>r\<in>set (white_list wl). is_match ip r)"
    by (metis find_Some_ex ip_white_listed_def option.distinct(1))
  with None show ?thesis
    by (cases "per_host_white_list wl host")
      (simp_all only: is_white_listed_def option.case not_None_eq find_Some_ex, auto)
next
  case (Some r)
  then have "\<exists>r\<in>set (white_list wl). is_match ip r"
    by (metis find_Some_ex ip_white_listed_def)
  with Some show ?thesis by (simp add: is_white_listed_def)
qed

interpretation wlist: exemptions "\<lambda>wl host ip. is_white_listed wl host ip \<noteq> None"
  insert_range insert_host_range "\<lambda>r ip. is_match ip r"
proof unfold_locales
  fix r w host ip
  show "(is_white_listed (insert_range r w) host ip \<noteq> None) \<longleftrightarrow>
      is_white_listed w host ip \<noteq> None \<or> is_match ip r"
    unfolding is_white_listed_iff by (auto simp: insert_range_def)
next
  fix h r w host ip
  show "(is_white_listed (insert_host_range h r w) host ip \<noteq> None) \<longleftrightarrow>
      is_white_listed w host ip \<noteq> None \<or> (host = h \<and> is_match ip r)"
    unfolding is_white_listed_iff
    by (cases "per_host_white_list w h"; cases "host = h")
      (auto simp: insert_host_range_def set_insort_key Let_def)
qed

end
