(* ===== verification/BanjaxFilter.thy ===== *)
theory BanjaxFilter
  imports WhiteList
begin

text \<open>
  The vocabulary of the filters: the parts of a transaction (transaction_muncher.h), the names and
  numbers of the filters (filter_list.h) and the answers a filter gives (banjax_filter.h).
  \<open>TransactionParts\<close> is a map from part numbers to strings: \<open>part_at\<close> is \<open>map::at\<close>, which throws
  for a missing part, \<open>part_index\<close> is \<open>map::operator[]\<close>, which inserts the empty string. A
  response generator is a closure that calls \<open>generate_response\<close> of the filter it was made by; it is
  kept as that filter's identifier. The extra fields of \<open>ChallengerExtendedResponse\<close> are part of the
  extended response, with the type of challenges a parameter.
\<close>

section \<open>Parts of a transaction\<close>

type_synonym transaction_parts = "64 word \<rightharpoonup> string"

definition VALIDITY_STAT :: "64 word" where "VALIDITY_STAT = 0x000"
definition IP :: "64 word" where "IP = 0x001"
definition URL :: "64 word" where "URL = 0x002"
definition HOST :: "64 word" where "HOST = 0x004"
definition UA :: "64 word" where "UA = 0x008"
definition COOKIE :: "64 word" where "COOKIE = 0x010"
definition URL_WITH_HOST :: "64 word" where "URL_WITH_HOST = 0x020"
definition METHOD :: "64 word" where "METHOD = 0x040"
definition MISS :: "64 word" where "MISS = 0x080"
definition STATUS :: "64 word" where "STATUS = 0x100"
definition PROTOCOL :: "64 word" where "PROTOCOL = 0x200"
definition CONTENT_LENGTH :: "64 word" where "CONTENT_LENGTH = 0x400"

lemmas part_numbers =
  VALIDITY_STAT_def IP_def URL_def HOST_def UA_def COOKIE_def URL_WITH_HOST_def METHOD_def
  MISS_def STATUS_def PROTOCOL_def CONTENT_LENGTH_def

definition part_at :: "transaction_parts \<Rightarrow> 64 word \<Rightarrow> string result" where
  "part_at parts p = (case parts p of Some s \<Rightarrow> Inr s | None \<Rightarrow> Inl OutOfRange)"

definition part_index :: "transaction_parts \<Rightarrow> 64 word \<Rightarrow> string \<times> transaction_parts" where
  "part_index parts p = (case parts p of Some s \<Rightarrow> (s, parts) | None \<Rightarrow> ([], parts(p \<mapsto> [])))"

section \<open>Filters\<close>

datatype FilterIDType =
    REGEX_BANNER_FILTER_ID
  | CHALLENGER_FILTER_ID
  | BOT_SNIFFER_FILTER_ID
  | WHITE_LISTER_FILTER_ID
  | DENIALATOR_FILTER_ID

definition REGEX_BANNER_FILTER_NAME :: string where "REGEX_BANNER_FILTER_NAME = ''regex_banner''"
definition CHALLENGER_FILTER_NAME :: string where "CHALLENGER_FILTER_NAME = ''challenger''"
definition BOT_SNIFFER_FILTER_NAME :: string where "BOT_SNIFFER_FILTER_NAME = ''bot_sniffer''"
definition WHITE_LISTER_FILTER_NAME :: string where "WHITE_LISTER_FILTER_NAME = ''white_lister''"
definition DENIALATOR_FILTER_NAME :: string where "DENIALATOR_FILTER_NAME = ''denialator''"

lemmas filter_names =
  REGEX_BANNER_FILTER_NAME_def CHALLENGER_FILTER_NAME_def BOT_SNIFFER_FILTER_NAME_def
  WHITE_LISTER_FILTER_NAME_def DENIALATOR_FILTER_NAME_def

definition all_filters_names :: "string list" where
  "all_filters_names =
     [REGEX_BANNER_FILTER_NAME, CHALLENGER_FILTER_NAME, BOT_SNIFFER_FILTER_NAME,
      WHITE_LISTER_FILTER_NAME, DENIALATOR_FILTER_NAME]"

text \<open>\<open>BanjaxFilter::ExecutionQueue\<close>.\<close>

datatype ExecutionQueue =
    HTTP_START | HTTP_REQUEST | HTTP_READ_CACHE | HTTP_SEND_TO_ORIGIN | HTTP_RESPONSE | HTTP_CLOSE

definition all_queues :: "ExecutionQueue list" where
  "all_queues = [HTTP_START, HTTP_REQUEST, HTTP_READ_CACHE, HTTP_SEND_TO_ORIGIN, HTTP_RESPONSE, HTTP_CLOSE]"

text \<open>\<open>FilterConfig\<close>: the nodes that configure a filter, and its priority.\<close>

record filter_config =
  config_node_list :: "yaml list"
  priority :: int

section \<open>Answers\<close>

datatype ResponseType =
    GO_AHEAD_NO_COMMENT | I_RESPOND | SERVE_IMMIDIATELY_DONT_CACHE | SERVE_FRESH

record 'c filter_extended_response =
  response_generator :: "FilterIDType option"
  content_type :: "string option"
  banned_ip :: bool
  set_cookie_header :: string
  response_code :: int
  responding_challenge :: "'c option"
  alternative_url :: string

definition new_extended_response :: "FilterIDType option \<Rightarrow> 'c option \<Rightarrow> 'c filter_extended_response" where
  "new_extended_response gen ch =
     \<lparr>response_generator = gen, content_type = None, banned_ip = False, set_cookie_header = [],
      response_code = 403, responding_challenge = ch, alternative_url = []\<rparr>"

definition get_and_release_content_type ::
    "'c filter_extended_response \<Rightarrow> string option \<times> 'c filter_extended_response" where
  "get_and_release_content_type r = (content_type r, r\<lparr>content_type := None\<rparr>)"

text \<open>\<open>set_content_type\<close> frees the old value and duplicates the new one.\<close>

definition set_content_type :: "string option \<Rightarrow> 'c filter_extended_response \<Rightarrow> 'c filter_extended_response" where
  "set_content_type x r = r\<lparr>content_type := map_option cstr x\<rparr>"

record 'c filter_response =
  response_type :: ResponseType
  response_data :: "'c filter_extended_response option"

text \<open>The two constructors of \<open>FilterResponse\<close>.\<close>

definition plain_response :: "ResponseType \<Rightarrow> 'c filter_response" where
  "plain_response t = \<lparr>response_type = t, response_data = None\<rparr>"

definition generator_response :: "FilterIDType \<Rightarrow> 'c filter_response" where
  "generator_response f =
     \<lparr>response_type = I_RESPOND, response_data = Some (new_extended_response (Some f) None)\<rparr>"

lemma plain_response_sel [simp]:
  "response_type (plain_response t) = t" "response_data (plain_response t) = None"
  by (simp_all add: plain_response_def)

lemma generator_response_sel [simp]: "response_type (generator_response f) = I_RESPOND"
  by (simp add: generator_response_def)

end
