(* ===== verification/IpDb.thy ===== *)
theory IpDb
  imports Prelude "HOL-Library.AList"
begin

text \<open>
  The table of per-address states, \<open>IpDb<IpState>\<close> of ip_db.h. \<open>_db\<close> is an association list with
  at most one entry per address; an address without entry has the state \<open>IpState{}\<close>, the parameter
  \<open>dflt\<close>. Every operation first tries the mutex and reports failure when somebody else holds it.
\<close>

type_synonym 's ip_table = "(string \<times> 's) list"

definition set_ip_state :: "string \<Rightarrow> 's \<Rightarrow> 's ip_table \<Rightarrow> 'w world_scheme \<Rightarrow> bool \<times> 's ip_table \<times> 'w world_scheme" where
  "set_ip_state ip st db w =
     (let (locked, w1) = try_lock w in
      if \<not> locked then (False, db, w1)
      else (True, AList.update ip st db, w1))"

definition drop_ip :: "string \<Rightarrow> 's ip_table \<Rightarrow> 'w world_scheme \<Rightarrow> bool \<times> 's ip_table \<times> 'w world_scheme" where
  "drop_ip ip db w =
     (let (locked, w1) = try_lock w in
      if \<not> locked then (False, db, w1)
      else (map_of db ip \<noteq> None, AList.delete ip db, w1))"

definition get_ip_state :: "'s \<Rightarrow> string \<Rightarrow> 's ip_table \<Rightarrow> 'w world_scheme \<Rightarrow> 's option \<times> 'w world_scheme" where
  "get_ip_state dflt ip db w =
     (let (locked, w1) = try_lock w in
      if \<not> locked then (None, w1)
      else (case map_of db ip of Some st \<Rightarrow> (Some st, w1) | None \<Rightarrow> (Some dflt, w1)))"

definition ip_db_size :: "'s ip_table \<Rightarrow> nat" where
  "ip_db_size db = length db"

section \<open>The contract\<close>

text \<open>What a client may assume of a table of states: a view from addresses to states that a set or a
  drop changes at one address, and only if the lock was taken; a get that returns the view, and
  nothing if the lock was not taken. Each call asks for the lock exactly once.\<close>

definition after_lock :: "'w world_scheme \<Rightarrow> 'w world_scheme" where
  "after_lock w = snd (try_lock w)"

locale state_table =
  fixes inv :: "'t \<Rightarrow> bool"
    and view :: "'t \<Rightarrow> string \<Rightarrow> 's"
    and dflt :: 's
    and put :: "string \<Rightarrow> 's \<Rightarrow> 't \<Rightarrow> 'w world_scheme \<Rightarrow> bool \<times> 't \<times> 'w world_scheme"
    and get :: "string \<Rightarrow> 't \<Rightarrow> 'w world_scheme \<Rightarrow> 's option \<times> 'w world_scheme"
    and del :: "string \<Rightarrow> 't \<Rightarrow> 'w world_scheme \<Rightarrow> bool \<times> 't \<times> 'w world_scheme"
  assumes put_law: "inv t \<Longrightarrow> put ip s t w = (ok, t', w') \<Longrightarrow>
      ok = fst (try_lock w) \<and> w' = after_lock w \<and> inv t' \<and>
      view t' = (if ok then (view t)(ip := s) else view t)"
    and get_law: "inv t \<Longrightarrow>
      get ip t w = (if fst (try_lock w) then Some (view t ip) else None, after_lock w)"
    and del_law: "inv t \<Longrightarrow> del ip t w = (existed, t', w') \<Longrightarrow>
      w' = after_lock w \<and> inv t' \<and> (existed \<longrightarrow> fst (try_lock w)) \<and>
      view t' = (if fst (try_lock w) then (view t)(ip := dflt) else view t)"
begin

lemma put_get:
  assumes "inv t" and "put ip s t w = (True, t', w')"
  shows "get ip' t' w'' = (if fst (try_lock w'') then Some (if ip' = ip then s else view t ip') else None, after_lock w'')"
  using put_law [OF assms] get_law by (auto simp: fun_upd_apply)

lemma put_refused:
  assumes "inv t" and "put ip s t w = (False, t', w')"
  shows "view t' = view t"
  using put_law [OF assms] by auto

end

text \<open>The model of \<open>IpDb\<close> keeps the contract, for every type of states and every default.\<close>

definition db_inv :: "'s ip_table \<Rightarrow> bool" where
  "db_inv db \<longleftrightarrow> distinct (map fst db)"

definition db_view :: "'s \<Rightarrow> 's ip_table \<Rightarrow> string \<Rightarrow> 's" where
  "db_view dflt db ip = (case map_of db ip of Some s \<Rightarrow> s | None \<Rightarrow> dflt)"

lemma db_view_update [simp]: "db_view d (AList.update ip s db) = (db_view d db)(ip := s)"
  by (auto simp: db_view_def update_conv' fun_eq_iff)

lemma db_view_delete [simp]: "db_view d (AList.delete ip db) = (db_view d db)(ip := d)"
  by (auto simp: db_view_def delete_conv' fun_eq_iff)

lemma db_inv_update [simp]: "db_inv db \<Longrightarrow> db_inv (AList.update ip s db)"
  by (simp add: db_inv_def distinct_update)

lemma db_inv_delete [simp]: "db_inv db \<Longrightarrow> db_inv (AList.delete ip db)"
  by (simp add: db_inv_def distinct_delete)

interpretation ipdb: state_table db_inv "db_view d" d set_ip_state "get_ip_state d" drop_ip for d
proof unfold_locales
  fix t :: "'a ip_table" and ip s ok t' and w w' :: "'b world_scheme"
  assume "db_inv t" and "set_ip_state ip s t w = (ok, t', w')"
  then show "ok = fst (try_lock w) \<and> w' = after_lock w \<and> db_inv t' \<and>
      db_view d t' = (if ok then (db_view d t)(ip := s) else db_view d t)" for d
    by (auto simp: set_ip_state_def after_lock_def split: prod.splits if_splits)
next
  fix t :: "'a ip_table" and ip existed t' and w w' :: "'b world_scheme"
  assume "db_inv t" and "drop_ip ip t w = (existed, t', w')"
  then show "w' = after_lock w \<and> db_inv t' \<and> (existed \<longrightarrow> fst (try_lock w)) \<and>
      db_view d t' = (if fst (try_lock w) then (db_view d t)(ip := d) else db_view d t)" for d
    by (auto simp: drop_ip_def after_lock_def split: prod.splits if_splits)
next
  fix t :: "'a ip_table" and ip and w :: "'b world_scheme"
  assume "db_inv t"
  then show "get_ip_state d ip t w =
      (if fst (try_lock w) then Some (db_view d t ip) else None, after_lock w)" for d
    by (simp add: get_ip_state_def db_view_def after_lock_def split: prod.splits option.splits)
qed

lemma update_entries: "x \<in> set (AList.update k v al) \<Longrightarrow> x = (k, v) \<or> x \<in> set al"
  by (induction al) (auto split: if_splits)

section \<open>Refinement of a map\<close>

text \<open>A client's sequence of calls, each with its reply.\<close>

datatype 's db_call = CallSet string 's | CallGet string | CallDrop string

datatype 's db_reply = Done bool | State "'s option"

fun run_calls :: "'s \<Rightarrow> 's db_call list \<Rightarrow> 's ip_table \<Rightarrow> 'w world_scheme \<Rightarrow> 's db_reply list \<times> 's ip_table \<times> 'w world_scheme" where
  "run_calls d [] db w = ([], db, w)"
| "run_calls d (CallSet ip s # cs) db w =
     (let (ok, db1, w1) = set_ip_state ip s db w; (rs, r) = run_calls d cs db1 w1 in (Done ok # rs, r))"
| "run_calls d (CallGet ip # cs) db w =
     (let (st, w1) = get_ip_state d ip db w; (rs, r) = run_calls d cs db w1 in (State st # rs, r))"
| "run_calls d (CallDrop ip # cs) db w =
     (let (ok, db1, w1) = drop_ip ip db w; (rs, r) = run_calls d cs db1 w1 in (Done ok # rs, r))"

text \<open>The specification: a partial map, and for each call whether the lock is free.\<close>

fun spec_calls :: "'s \<Rightarrow> (nat \<Rightarrow> bool) \<Rightarrow> nat \<Rightarrow> 's db_call list \<Rightarrow> (string \<rightharpoonup> 's) \<Rightarrow> 's db_reply list \<times> (string \<rightharpoonup> 's)" where
  "spec_calls d free t [] m = ([], m)"
| "spec_calls d free t (CallSet ip s # cs) m =
     (let (rs, m') = spec_calls d free (Suc t) cs (if free t then m(ip \<mapsto> s) else m)
      in (Done (free t) # rs, m'))"
| "spec_calls d free t (CallGet ip # cs) m =
     (let (rs, m') = spec_calls d free (Suc t) cs m
      in (State (if free t then Some (case m ip of Some s \<Rightarrow> s | None \<Rightarrow> d) else None) # rs, m'))"
| "spec_calls d free t (CallDrop ip # cs) m =
     (let (rs, m') = spec_calls d free (Suc t) cs (if free t then m(ip := None) else m)
      in (Done (free t \<and> m ip \<noteq> None) # rs, m'))"

lemmas ip_db_defs = set_ip_state_def get_ip_state_def drop_ip_def

lemma run_calls_spec:
  "db_inv db \<Longrightarrow> run_calls d cs db w = (rs, db', w') \<Longrightarrow>
   db_inv db' \<and> spec_calls d (locks w) (tick w) cs (map_of db) = (rs, map_of db')"
proof (induction cs arbitrary: db w rs db' w')
  case (Cons c cs)
  show ?case
  proof (cases c)
    case (CallSet ip s)
    with Cons.prems show ?thesis
      by (cases "locks w (tick w)")
        (auto simp: ip_db_defs world_simps update_conv' fun_upd_def split: prod.splits dest!: Cons.IH [rotated])
  next
    case (CallGet ip)
    with Cons.prems show ?thesis
      by (cases "locks w (tick w)")
        (auto simp: ip_db_defs world_simps split: prod.splits option.splits dest!: Cons.IH [rotated])
  next
    case (CallDrop ip)
    with Cons.prems show ?thesis
      by (cases "locks w (tick w)")
        (auto simp: ip_db_defs world_simps delete_conv' fun_upd_def split: prod.splits dest!: Cons.IH [rotated])
  qed
qed simp

text \<open>C20: For every sequence of set, get and drop calls and every schedule of the lock, the table of
  ip_db.h behaves like a finite map: each reply is the one the map gives (a refused lock changes
  nothing and is reported), the final contents agree, and \<open>size()\<close> is the number of addresses
  with a state.\<close>

theorem ip_db_refines_map:
  "(case run_calls d cs [] w of (rs, db, w') \<Rightarrow>
      spec_calls d (locks w) (tick w) cs Map.empty = (rs, map_of db) \<and>
      ip_db_size db = card (dom (map_of db)))"
proof -
  obtain rs db w' where run: "run_calls d cs [] w = (rs, db, w')" by (metis prod_cases3)
  then have "db_inv db \<and> spec_calls d (locks w) (tick w) cs Map.empty = (rs, map_of db)"
    using run_calls_spec [of "[]"] by (simp add: db_inv_def)
  moreover have "db_inv db \<Longrightarrow> card (dom (map_of db)) = length db"
    unfolding db_inv_def dom_map_of_conv_image_fst by (metis distinct_card length_map list.set_map)
  ultimately show ?thesis using run by (simp add: ip_db_size_def)
qed

end
