(* ===== verification/Socket.thy ===== *)
theory Socket
  imports Prelude
begin

text \<open>
  socket.h: a ZeroMQ publisher socket and the endpoint it is bound to. \<open>zmq_endpoint\<close> is where the
  ZeroMQ socket itself is bound, which the class cannot ask for; \<open>local_endpoint_s\<close> is the class's
  own record of it, \<open>_local_endpoint\<close>. Whether \<open>zmq::socket_t::bind\<close> succeeds is answered by the
  world.
\<close>

record socket =
  zmq_endpoint :: "string option"
  local_endpoint_s :: string

definition new_socket :: socket where
  "new_socket = \<lparr>zmq_endpoint = None, local_endpoint_s = []\<rparr>"

definition is_bound :: "socket \<Rightarrow> bool" where
  "is_bound s \<longleftrightarrow> local_endpoint_s s \<noteq> []"

definition unbind :: "socket \<Rightarrow> socket" where
  "unbind s = (if \<not> is_bound s then s else s\<lparr>zmq_endpoint := None\<rparr>)"

definition bind_socket :: "string \<Rightarrow> socket \<Rightarrow> 'w world_scheme \<Rightarrow> bool \<times> socket \<times> 'w world_scheme" where
  "bind_socket endpoint s w =
     (if endpoint = local_endpoint_s s then (True, s, w)
      else if endpoint = [] then (True, unbind s, w)
      else
        let s1 = (if is_bound s then unbind s else s);
            (ok, w1) = zmq_bind w
        in if ok then (True, s1\<lparr>zmq_endpoint := Some endpoint, local_endpoint_s := endpoint\<rparr>, w1)
           else (False, s1\<lparr>local_endpoint_s := []\<rparr>, w1))"

section \<open>Properties\<close>

text \<open>The class's record agrees with ZeroMQ.\<close>

definition socket_ok :: "socket \<Rightarrow> bool" where
  "socket_ok s \<longleftrightarrow> zmq_endpoint s = (if local_endpoint_s s = [] then None else Some (local_endpoint_s s))"

lemma socket_ok_new [simp]: "socket_ok new_socket"
  by (simp add: socket_ok_def new_socket_def)

lemma bind_socket_ok:
  "socket_ok s \<Longrightarrow> e \<noteq> [] \<Longrightarrow> bind_socket e s w = (ok, s', w') \<Longrightarrow>
   socket_ok s' \<and> ok = is_bound s' \<and> (ok \<longrightarrow> zmq_endpoint s' = Some e)"
  by (auto simp: bind_socket_def socket_ok_def is_bound_def unbind_def world_simps Let_def split: if_splits)

lemma bind_socket_world:
  "bind_socket e s w = (ok, s', w') \<Longrightarrow> w' = w \<or> w' = w\<lparr>tick := Suc (tick w)\<rparr>"
  by (auto simp: bind_socket_def world_simps Let_def split: if_splits)

text \<open>Binding a socket to an endpoint keeps the class's record of the endpoint true: \<open>bind\<close>
  returns true exactly if the socket is bound afterwards, and then it is bound to that endpoint.
  The empty endpoint is the exception: it unbinds the socket but leaves the old endpoint on record,
  so \<open>is_bound()\<close> stays true and a later \<open>bind\<close> to the old endpoint returns true without binding
  anything.\<close>

theorem socket_record_is_true_except_after_empty_bind:
  assumes "socket_ok s"
  shows "(e \<noteq> [] \<longrightarrow> (case bind_socket e s w of (ok, s', w') \<Rightarrow>
            socket_ok s' \<and> ok = (zmq_endpoint s' \<noteq> None) \<and> (ok \<longrightarrow> zmq_endpoint s' = Some e))) \<and>
         (is_bound s \<longrightarrow> (case bind_socket [] s w of (ok, s', w') \<Rightarrow>
            ok \<and> is_bound s' \<and> zmq_endpoint s' = None \<and>
            bind_socket (local_endpoint_s s) s' w'' = (True, s', w'')))"
proof -
  have "e \<noteq> [] \<Longrightarrow> (case bind_socket e s w of (ok, s', w') \<Rightarrow>
            socket_ok s' \<and> ok = (zmq_endpoint s' \<noteq> None) \<and> (ok \<longrightarrow> zmq_endpoint s' = Some e))"
  proof -
    assume e: "e \<noteq> []"
    obtain ok s' w' where b: "bind_socket e s w = (ok, s', w')" by (metis prod_cases3)
    from bind_socket_ok [OF assms e b] have "socket_ok s'" "ok = is_bound s'" "ok \<longrightarrow> zmq_endpoint s' = Some e"
      by auto
    moreover from this(1) have "is_bound s' = (zmq_endpoint s' \<noteq> None)"
      by (simp add: socket_ok_def is_bound_def)
    ultimately show ?thesis by (simp add: b)
  qed
  moreover have "is_bound s \<Longrightarrow> bind_socket [] s w = (True, unbind s, w)"
    by (simp add: bind_socket_def is_bound_def)
  ultimately show ?thesis by (simp add: bind_socket_def unbind_def is_bound_def)
qed

definition sample_socket :: socket where
  "sample_socket = \<lparr>zmq_endpoint = Some ''tcp://*:22620'', local_endpoint_s = ''tcp://*:22620''\<rparr>"

theorem socket_record_is_true_except_after_empty_bind_witness:
  "socket_ok sample_socket \<and> is_bound sample_socket \<and>
   (case bind_socket [] sample_socket \<lparr>tick = 0, locks = (\<lambda>_. True), clock = (\<lambda>_. (0, 0)), binds = (\<lambda>_. True)\<rparr> of
      (ok, s', w') \<Rightarrow> ok \<and> is_bound s' \<and> zmq_endpoint s' = None)"
proof -
  have "socket_ok sample_socket" "is_bound sample_socket"
    by (simp_all add: socket_ok_def is_bound_def sample_socket_def)
  then show ?thesis
    using socket_record_is_true_except_after_empty_bind [of sample_socket "[]"
        "\<lparr>tick = 0, locks = (\<lambda>_. True), clock = (\<lambda>_. (0, 0)), binds = (\<lambda>_. True)\<rparr>"
        "\<lparr>tick = 0, locks = (\<lambda>_. True), clock = (\<lambda>_. (0, 0)), binds = (\<lambda>_. True)\<rparr>"]
    by (auto split: prod.splits)
qed

end
