(* ===== verification/GmTime.thy ===== *)
theory GmTime
  imports Util
begin

text \<open>
  The time functions of the C library the program prints times with: \<open>gmtime\<close> (seconds since the
  epoch to a date in the proleptic Gregorian calendar) and the two formats it gives to
  \<open>strftime\<close>.
\<close>

record tm =
  tm_year :: int
  tm_mon :: int
  tm_mday :: int
  tm_hour :: int
  tm_min :: int
  tm_sec :: int
  tm_wday :: int

text \<open>Years are counted from March here, so that the leap day is the last day of a year; an era
  is 400 years.\<close>

definition civil_from_days :: "int \<Rightarrow> int \<times> int \<times> int" where
  "civil_from_days days =
     (let z = days + 719468;
          era = z div 146097;
          doe = z mod 146097;
          yoe = (doe - doe div 1460 + doe div 36524 - doe div 146096) div 365;
          doy = doe - (365 * yoe + yoe div 4 - yoe div 100);
          mp = (5 * doy + 2) div 153;
          d = doy - (153 * mp + 2) div 5 + 1;
          m = (if mp < 10 then mp + 3 else mp - 9)
      in (yoe + era * 400 + (if m \<le> 2 then 1 else 0), m, d))"

definition gmtime :: "int \<Rightarrow> tm" where
  "gmtime t =
     (let days = t div 86400; s = t mod 86400; (y, m, d) = civil_from_days days
      in \<lparr>tm_year = y, tm_mon = m, tm_mday = d, tm_hour = s div 3600, tm_min = s mod 3600 div 60,
          tm_sec = s mod 60, tm_wday = (days + 4) mod 7\<rparr>)"

definition two_digits :: "int \<Rightarrow> string" where
  "two_digits n = (if n < 10 then CHR ''0'' # to_string n else to_string n)"

definition month_names :: "string list" where
  "month_names = [''Jan'', ''Feb'', ''Mar'', ''Apr'', ''May'', ''Jun'', ''Jul'', ''Aug'', ''Sep'', ''Oct'', ''Nov'', ''Dec'']"

definition day_names :: "string list" where
  "day_names = [''Sun'', ''Mon'', ''Tue'', ''Wed'', ''Thu'', ''Fri'', ''Sat'']"

text \<open>\<open>"%Y-%m-%dT%H:%M:%S"\<close> and \<open>"%a, %d %b %Y %T GMT"\<close>.\<close>

definition iso_time :: "tm \<Rightarrow> string" where
  "iso_time x =
     to_string (tm_year x) @ ''-'' @ two_digits (tm_mon x) @ ''-'' @ two_digits (tm_mday x) @ ''T'' @
     two_digits (tm_hour x) @ '':'' @ two_digits (tm_min x) @ '':'' @ two_digits (tm_sec x)"

definition http_time :: "tm \<Rightarrow> string" where
  "http_time x =
     day_names ! nat (tm_wday x) @ '', '' @ two_digits (tm_mday x) @ '' '' @ month_names ! nat (tm_mon x - 1) @ '' '' @
     to_string (tm_year x) @ '' '' @ two_digits (tm_hour x) @ '':'' @ two_digits (tm_min x) @ '':'' @
     two_digits (tm_sec x) @ '' GMT''"

lemma gmtime_sample: "iso_time (gmtime 951827696) = ''2000-02-29T12:34:56''"
  by code_simp

end
