(* ===== verification/Swabber.thy ===== *)
theory Swabber
  imports Yaml BanjaxFilter IpDb Socket GmTime
begin

text \<open>
  The ban interface (swabber.h, swabber.cpp). The state extends the world with the socket (None
  after \<open>release_socket\<close>), the endpoint, the grace period, the table of flagged addresses
  (\<open>Swabber::IpDb\<close>, default 0), the lines written to the ban log and the messages sent. A message
  is its list of parts.
\<close>

definition DEFAULT_SERVER :: string where "DEFAULT_SERVER = ''*''"
definition DEFAULT_PORT :: string where "DEFAULT_PORT = ''22620''"
definition DEFAULT_GRACE_PERIOD :: int where "DEFAULT_GRACE_PERIOD = 0"
definition SWABBER_BAN :: string where "SWABBER_BAN = ''swabber_bans''"

record swabber_state = world +
  local_endpoint :: string
  socket :: "socket option"
  swabber_server :: string
  swabber_port :: string
  grace_period :: int
  swabber_ip_db :: "int ip_table"
  ban_ip_list :: "string list"
  zmq_sent :: "string list list"

text \<open>The constructor: a socket handed over from a previous instance is reused.\<close>

definition new_swabber :: "socket option \<Rightarrow> 's swabber_state_scheme \<Rightarrow> 's swabber_state_scheme" where
  "new_swabber s st =
     st\<lparr>socket := Some (case s of Some x \<Rightarrow> x | None \<Rightarrow> new_socket), local_endpoint := [],
        swabber_server := DEFAULT_SERVER, swabber_port := DEFAULT_PORT,
        grace_period := DEFAULT_GRACE_PERIOD\<rparr>"

text \<open>\<open>cur_node[key]\<close> converted if it is there.\<close>

definition optional_field :: "(yaml \<Rightarrow> 'a result) \<Rightarrow> yaml \<Rightarrow> string \<Rightarrow> 'a \<Rightarrow> 'a result" where
  "optional_field conv n k old = rbind (ysub n k) (\<lambda>v. if IsDefined v then conv v else Inr old)"

fun read_swabber_nodes :: "yaml_lib \<Rightarrow> yaml list \<Rightarrow> int \<times> string \<times> string \<Rightarrow> (int \<times> string \<times> string) result" where
  "read_swabber_nodes Y [] c = Inr c"
| "read_swabber_nodes Y (n # ns) (grace, port, server) =
     rbind (optional_field (as_long Y) n ''grace_period'' grace) (\<lambda>grace'.
     rbind (optional_field (as_string Y) n ''port'' port) (\<lambda>port'.
     rbind (optional_field (as_string Y) n ''server'' server) (\<lambda>server'.
     read_swabber_nodes Y ns (grace', port', server'))))"

text \<open>\<open>load_config\<close>. Outside \<open>release_socket\<close> the socket is there; without it the call would go
  through a null pointer.\<close>

definition Swabber_load_config ::
    "yaml_lib \<Rightarrow> filter_config \<Rightarrow> 's swabber_state_scheme \<Rightarrow> 's swabber_state_scheme result" where
  "Swabber_load_config Y conf st =
     rbind (read_swabber_nodes Y (config_node_list conf) (DEFAULT_GRACE_PERIOD, DEFAULT_PORT, DEFAULT_SERVER))
     (\<lambda>(grace, port, server).
       let endpoint = ''tcp://'' @ server @ '':'' @ port;
           st1 = st\<lparr>grace_period := grace, swabber_port := port, swabber_server := server, local_endpoint := endpoint\<rparr>
       in case socket st1 of
            None \<Rightarrow> Inl NullDereference
          | Some s \<Rightarrow>
              let s1 = (if local_endpoint_s s \<noteq> endpoint then new_socket else s);
                  (ok, s2, st2) = bind_socket endpoint s1 st1
              in Inr (st2\<lparr>socket := Some s2\<rparr>))"

text \<open>A line of the ban log, with the time at which it is written.\<close>

definition log_line :: "string \<Rightarrow> int \<Rightarrow> string \<Rightarrow> string \<Rightarrow> string" where
  "log_line bot_ip now reason what =
     bot_ip @ '', '' @ ''['' @ iso_time (gmtime now) @ ''], '' @ reason @ '', '' @ what"

definition write_log :: "string \<Rightarrow> string \<Rightarrow> string \<Rightarrow> 's swabber_state_scheme \<Rightarrow> 's swabber_state_scheme" where
  "write_log bot_ip reason what st =
     (let (now, st1) = time_now st in
      st1\<lparr>ban_ip_list := ban_ip_list st1 @ [log_line bot_ip now reason what]\<rparr>)"

text \<open>The part of \<open>ban\<close> after the grace period: lock the socket, bind it if necessary, send, log,
  and forget the address.\<close>

definition send_ban :: "string \<Rightarrow> string \<Rightarrow> 's swabber_state_scheme \<Rightarrow> 's swabber_state_scheme" where
  "send_ban bot_ip reason st =
     (let (locked, st1) = try_lock st in
      if \<not> locked then st1
      else case socket st1 of
        None \<Rightarrow> st1
      | Some s \<Rightarrow>
          let (ok, s2, st2) =
                (if is_bound s then (True, s, st1) else bind_socket (local_endpoint st1) s st1);
              st3 = st2\<lparr>socket := Some s2\<rparr>
          in if \<not> ok then st3
             else
               let st4 = write_log bot_ip reason ''banned''
                           (st3\<lparr>zmq_sent := zmq_sent st3 @ [[SWABBER_BAN, bot_ip]]\<rparr>);
                   (_, db, st5) = drop_ip bot_ip (swabber_ip_db st4) st4
               in st5\<lparr>swabber_ip_db := db\<rparr>)"

text \<open>The time an address was flagged, recording and logging a first request: \<open>now\<close> is
  \<open>cur_time.tv_sec\<close>.\<close>

definition flag_time :: "string \<Rightarrow> string \<Rightarrow> int \<Rightarrow> int \<Rightarrow> 's swabber_state_scheme \<Rightarrow> int \<times> 's swabber_state_scheme" where
  "flag_time bot_ip reason now ip_state st =
     (if ip_state = 0 then
        let (_, db, st1) = set_ip_state bot_ip now (swabber_ip_db st) st
        in (now, write_log bot_ip reason ''flagged'' (st1\<lparr>swabber_ip_db := db\<rparr>))
      else (ip_state, st))"

definition ban :: "string \<Rightarrow> string \<Rightarrow> 's swabber_state_scheme \<Rightarrow> 's swabber_state_scheme" where
  "ban bot_ip reason st =
     (let ((now, _), st1) = gettimeofday st in
      if grace_period st1 > 0 then
        let (cur_ip_state, st2) = get_ip_state 0 bot_ip (swabber_ip_db st1) st1 in
        case cur_ip_state of
          None \<Rightarrow> st2
        | Some ip_state \<Rightarrow>
            let (flagged, st3) = flag_time bot_ip reason now ip_state st2 in
            if now - flagged < grace_period st3 then st3 else send_ban bot_ip reason st3
      else send_ban bot_ip reason st1)"

text \<open>\<open>release_socket\<close> waits for the lock.\<close>

definition release_socket :: "'s swabber_state_scheme \<Rightarrow> socket option \<times> 's swabber_state_scheme" where
  "release_socket st = (socket st, st\<lparr>socket := None\<rparr>)"

section \<open>Properties\<close>

lemma write_log_sel [simp]:
  "zmq_sent (write_log ip r k st) = zmq_sent st"
  "swabber_ip_db (write_log ip r k st) = swabber_ip_db st"
  "grace_period (write_log ip r k st) = grace_period st"
  "socket (write_log ip r k st) = socket st"
  "locks (write_log ip r k st) = locks st"
  "tick (write_log ip r k st) = Suc (tick st)"
  by (simp_all add: write_log_def world_simps)

lemma bind_socket_sel:
  assumes "bind_socket e s (st :: 's swabber_state_scheme) = (ok, s', st')"
  shows "zmq_sent st' = zmq_sent st" "swabber_ip_db st' = swabber_ip_db st"
    "grace_period st' = grace_period st" "locks st' = locks st" "clock st' = clock st"
    "local_endpoint st' = local_endpoint st"
  using bind_socket_world [OF assms] by auto

text \<open>Whether the socket ends up bound when \<open>send_ban\<close> gets the lock: the state it is in then, and
  the outcome.\<close>

definition ready :: "'s swabber_state_scheme \<Rightarrow> bool \<times> socket \<times> 's swabber_state_scheme" where
  "ready st =
     (case socket st of
        None \<Rightarrow> (False, new_socket, st)
      | Some s \<Rightarrow> if is_bound s then (True, s, st) else bind_socket (local_endpoint st) s st)"

lemma ready_sel:
  assumes "ready st = (ok, s', st')"
  shows "zmq_sent st' = zmq_sent st" "swabber_ip_db st' = swabber_ip_db st"
    "grace_period st' = grace_period st" "locks st' = locks st" "clock st' = clock st"
  using assms by (auto simp: ready_def bind_socket_sel split: option.splits if_splits)

definition can_send :: "'s swabber_state_scheme \<Rightarrow> bool" where
  "can_send st \<longleftrightarrow> fst (try_lock st) \<and> fst (ready (after_lock st))"

lemma send_ban_sent:
  "zmq_sent (send_ban ip r st) = zmq_sent st @ (if can_send st then [[SWABBER_BAN, ip]] else [])"
  by (auto simp: send_ban_def can_send_def ready_def after_lock_def world_simps drop_ip_def Let_def bind_socket_sel
      split: option.splits prod.splits if_splits)

lemma send_ban_grace: "grace_period (send_ban ip r st) = grace_period st"
  by (auto simp: send_ban_def after_lock_def world_simps drop_ip_def Let_def bind_socket_sel
      split: option.splits prod.splits if_splits)

lemma send_ban_db:
  assumes "db_inv (swabber_ip_db st)"
  shows "db_inv (swabber_ip_db (send_ban ip r st)) \<and>
    (db_view 0 (swabber_ip_db (send_ban ip r st)) = db_view 0 (swabber_ip_db st) \<or>
     can_send st \<and> db_view 0 (swabber_ip_db (send_ban ip r st)) = (db_view 0 (swabber_ip_db st))(ip := 0))"
  using assms
  by (auto simp: send_ban_def can_send_def ready_def after_lock_def world_simps drop_ip_def Let_def bind_socket_sel
      split: option.splits prod.splits if_splits)

subsection \<open>The grace period\<close>

text \<open>What happens to a swabber interface: a request to ban an address at a given time, with whether
  a ban was sent; the release of the socket; and the passage of time and lock attempts caused by
  other components.\<close>

datatype swabber_event = Ban_Request string int bool | Socket_Released | Elsewhere

inductive swabber_step :: "'s swabber_state_scheme \<Rightarrow> swabber_event \<Rightarrow> 's swabber_state_scheme \<Rightarrow> bool" where
  step_ban: "s' = ban ip reason s \<Longrightarrow>
     swabber_step s (Ban_Request ip (fst (clock s (tick s))) (zmq_sent s' \<noteq> zmq_sent s)) s'"
| step_release: "swabber_step s Socket_Released (snd (release_socket s))"
| step_elsewhere: "swabber_step s Elsewhere (s\<lparr>tick := n\<rparr>)"

inductive_cases swabber_stepE: "swabber_step s e s'"

text \<open>Every flag in the table is the time of an earlier request to ban that address.\<close>

definition flags_justified :: "int \<Rightarrow> swabber_event list \<Rightarrow> 's swabber_state_scheme \<Rightarrow> bool" where
  "flags_justified g es s \<longleftrightarrow>
     grace_period s = g \<and> db_inv (swabber_ip_db s) \<and>
     (\<forall>ip t. db_view 0 (swabber_ip_db s) ip = t \<longrightarrow> t \<noteq> 0 \<longrightarrow> (\<exists>sent. Ban_Request ip t sent \<in> set es))"

lemma ban_no_grace:
  "grace_period s \<le> 0 \<Longrightarrow> ban ip r s = send_ban ip r (s\<lparr>tick := Suc (tick s)\<rparr>)"
  by (simp add: ban_def case_prod_beta world_simps)

text \<open>With a grace period: what a ban request does, by the flag it finds.\<close>

lemma ban_grace_effect:
  fixes s :: "'s swabber_state_scheme" and ip r :: string
  assumes g: "0 < grace_period s" and inv: "db_inv (swabber_ip_db s)"
  defines "now \<equiv> fst (clock s (tick s))" and "flag \<equiv> db_view 0 (swabber_ip_db s) ip"
  shows "grace_period (ban ip r s) = grace_period s \<and> db_inv (swabber_ip_db (ban ip r s)) \<and>
    (\<forall>ip'. db_view 0 (swabber_ip_db (ban ip r s)) ip' \<in> {db_view 0 (swabber_ip_db s) ip', 0} \<or>
           ip' = ip \<and> db_view 0 (swabber_ip_db (ban ip r s)) ip' = now) \<and>
    (zmq_sent (ban ip r s) \<noteq> zmq_sent s \<longrightarrow> flag \<noteq> 0 \<and> now - flag \<ge> grace_period s)"
proof -
  let ?s1 = "s\<lparr>tick := Suc (tick s)\<rparr>" and ?s2 = "s\<lparr>tick := Suc (Suc (tick s))\<rparr>"
  have get: "get_ip_state 0 ip (swabber_ip_db ?s1) ?s1 =
      (if locks s (Suc (tick s)) then Some flag else None, ?s2)"
    using ipdb.get_law [of "swabber_ip_db ?s1" 0 ip ?s1] inv
    by (simp add: world_simps after_lock_def flag_def)
  consider (busy) "\<not> locks s (Suc (tick s))" | (first) "locks s (Suc (tick s))" "flag = 0"
    | (early) "locks s (Suc (tick s))" "flag \<noteq> 0" "now - flag < grace_period s"
    | (due) "locks s (Suc (tick s))" "flag \<noteq> 0" "now - flag \<ge> grace_period s"
    by linarith
  then show ?thesis
  proof cases
    case busy
    then have "ban ip r s = ?s2" using g get by (simp add: ban_def case_prod_beta world_simps)
    with inv show ?thesis by simp
  next
    case first
    obtain ok db s3 where set3: "set_ip_state ip now (swabber_ip_db ?s2) ?s2 = (ok, db, s3)"
      by (metis prod_cases3)
    have "ban ip r s = write_log ip r ''flagged'' (s3\<lparr>swabber_ip_db := db\<rparr>)"
      using g get first set3 inv
      by (auto simp: ban_def case_prod_beta world_simps flag_time_def now_def Let_def set_ip_state_def split: prod.splits if_splits)
    moreover have "grace_period s3 = grace_period s" "zmq_sent s3 = zmq_sent s"
      using set3 by (auto simp: set_ip_state_def world_simps split: if_splits)
    moreover have "db_inv db \<and> db_view 0 db = (if ok then (db_view 0 (swabber_ip_db s))(ip := now) else db_view 0 (swabber_ip_db s))"
      using ipdb.put_law [OF _ set3, of 0] inv by simp
    ultimately show ?thesis by auto
  next
    case early
    then have "ban ip r s = ?s2" using g get by (simp add: ban_def case_prod_beta world_simps flag_time_def now_def)
    with inv show ?thesis by simp
  next
    case due
    then have "ban ip r s = send_ban ip r ?s2" using g get by (simp add: ban_def case_prod_beta world_simps flag_time_def now_def)
    with due inv send_ban_db [of ?s2 ip r] send_ban_grace [of ip r ?s2] show ?thesis
      by (auto split: if_splits)
  qed
qed

interpretation grace: trace_invariant
  "swabber_step :: 's swabber_state_scheme \<Rightarrow> _" "\<lambda>es s. 0 < g \<and> flags_justified g es s" for g
proof unfold_locales
  fix es and s :: "'s swabber_state_scheme" and e s'
  assume inv: "0 < g \<and> flags_justified g es s" and step: "swabber_step s e s'"
  from step show "0 < g \<and> flags_justified g (es @ [e]) s'"
  proof (cases rule: swabber_step.cases)
    case (step_ban ip reason)
    have eff: "grace_period s' = g \<and> db_inv (swabber_ip_db s') \<and>
      (\<forall>ip'. db_view 0 (swabber_ip_db s') ip' \<in> {db_view 0 (swabber_ip_db s) ip', 0} \<or>
             ip' = ip \<and> db_view 0 (swabber_ip_db s') ip' = fst (clock s (tick s)))"
      using inv ban_grace_effect [of s ip reason] step_ban(2) by (simp add: flags_justified_def)
    have "\<exists>sent. Ban_Request ip' t sent \<in> set (es @ [e])"
      if "db_view 0 (swabber_ip_db s') ip' = t" "t \<noteq> 0" for ip' t
    proof (cases "db_view 0 (swabber_ip_db s) ip' = t")
      case True
      then show ?thesis using inv that(2) by (force simp: flags_justified_def)
    next
      case False
      with eff that have "ip' = ip \<and> t = fst (clock s (tick s))" by (metis insertE singletonD)
      then have "ip' = ip" "t = fst (clock s (tick s))" by auto
      then show ?thesis using step_ban(1) by auto
    qed
    with eff inv show ?thesis by (auto simp: flags_justified_def)
  qed (use inv in \<open>auto simp: flags_justified_def release_socket_def\<close>)
qed

text \<open>C10: The grace period is respected. In every run of the ban interface that starts with an empty
  table and a grace period \<open>g > 0\<close>, whatever the clock, the locks and the socket do, a ban for an
  address is sent only if the same address was already reported at least \<open>g\<close> seconds earlier.\<close>

theorem ban_only_after_grace_period:
  fixes s s' :: "'s swabber_state_scheme"
  assumes "run swabber_step s (before @ Ban_Request ip now True # after) s'"
    and "grace_period s = g" and "0 < g" and "swabber_ip_db s = []"
  shows "\<exists>t sent. Ban_Request ip t sent \<in> set before \<and> now - t \<ge> g"
proof -
  have "flags_justified g [] s" using assms(2,4) by (simp add: flags_justified_def db_inv_def db_view_def)
  with assms(1,3) obtain s1 s2 :: "'s swabber_state_scheme" where inv: "flags_justified g before s1"
    and step: "swabber_step s1 (Ban_Request ip now True) s2"
    using grace.inv_before [of s before "Ban_Request ip now True" after s' g] by auto
  from step obtain reason where "s2 = ban ip reason s1" "now = fst (clock s1 (tick s1))" "zmq_sent s2 \<noteq> zmq_sent s1"
    by (auto elim: swabber_stepE)
  with inv assms(3) show ?thesis
    using ban_grace_effect [of s1 ip reason] unfolding flags_justified_def by blast
qed

text \<open>A concrete run: an address is reported at time 100 and again at time 110, with a grace period
  of ten seconds.\<close>

definition sample_swabber :: swabber_state where
  "sample_swabber =
     \<lparr>tick = 0, locks = (\<lambda>_. True), clock = (\<lambda>n. if n < 5 then (100, 0) else (110, 0)), binds = (\<lambda>_. True),
      local_endpoint = ''tcp://*:22620'', socket = Some new_socket, swabber_server = ''*'', swabber_port = ''22620'',
      grace_period = 10, swabber_ip_db = [], ban_ip_list = [], zmq_sent = []\<rparr>"

lemma sample_swabber_first:
  "ban ''1.2.3.4'' ''r'' sample_swabber =
     sample_swabber\<lparr>tick := 4, swabber_ip_db := [(''1.2.3.4'', 100)],
       ban_ip_list := [log_line ''1.2.3.4'' 100 ''r'' ''flagged'']\<rparr>"
  by (simp add: sample_swabber_def ban_def case_prod_beta world_simps get_ip_state_def flag_time_def set_ip_state_def
      write_log_def numeral_eq_Suc)

lemma sample_swabber_second:
  "zmq_sent (ban ''1.2.3.4'' ''r''
     (sample_swabber\<lparr>tick := 5, swabber_ip_db := [(''1.2.3.4'', 100)], ban_ip_list := log\<rparr>)) = [[SWABBER_BAN, ''1.2.3.4'']]"
  by (simp add: sample_swabber_def ban_def case_prod_beta world_simps get_ip_state_def flag_time_def send_ban_sent
      can_send_def ready_def after_lock_def is_bound_def new_socket_def bind_socket_def)

theorem ban_only_after_grace_period_witness:
  "\<exists>s'. run swabber_step sample_swabber
      ([Ban_Request ''1.2.3.4'' 100 False, Elsewhere] @ Ban_Request ''1.2.3.4'' 110 True # []) s' \<and>
    (\<exists>t sent. Ban_Request ''1.2.3.4'' t sent \<in> set [Ban_Request ''1.2.3.4'' 100 False, Elsewhere] \<and> 110 - t \<ge> 10)"
proof -
  let ?s1 = "ban ''1.2.3.4'' ''r'' sample_swabber"
  let ?s2 = "?s1\<lparr>tick := 5\<rparr>"
  let ?s3 = "ban ''1.2.3.4'' ''r'' ?s2"
  have s2: "?s2 = sample_swabber\<lparr>tick := 5, swabber_ip_db := [(''1.2.3.4'', 100)],
      ban_ip_list := [log_line ''1.2.3.4'' 100 ''r'' ''flagged'']\<rparr>"
    by (simp add: sample_swabber_first)
  have "swabber_step sample_swabber (Ban_Request ''1.2.3.4'' 100 False) ?s1"
    using step_ban [of ?s1 "''1.2.3.4''" "''r''" sample_swabber]
    by (simp add: sample_swabber_first) (simp add: sample_swabber_def)
  moreover have "swabber_step ?s1 Elsewhere ?s2" by (rule step_elsewhere)
  moreover have "swabber_step ?s2 (Ban_Request ''1.2.3.4'' 110 True) ?s3"
    using step_ban [of ?s3 "''1.2.3.4''" "''r''" ?s2] sample_swabber_second unfolding s2
    by (simp add: sample_swabber_def)
  ultimately have "run swabber_step sample_swabber
      ((([] @ [Ban_Request ''1.2.3.4'' 100 False]) @ [Elsewhere]) @ [Ban_Request ''1.2.3.4'' 110 True]) ?s3"
    by (rule run_snoc [OF run_snoc [OF run_snoc [OF run_nil]]])
  then have run: "run swabber_step sample_swabber
      ([Ban_Request ''1.2.3.4'' 100 False, Elsewhere] @ Ban_Request ''1.2.3.4'' 110 True # []) ?s3"
    by (simp only: append_Cons append_Nil)
  show ?thesis
    using ban_only_after_grace_period [OF run, of 10] run by (auto simp: sample_swabber_def)
qed

text \<open>A due ban is sent. If the address is flagged at time \<open>t\<close>, the grace period is over, the
  table and the socket can be locked and the socket is bound or can be bound, a request to ban the
  address sends exactly one message, the pair of topic and address, and flags of other addresses
  stay. Without a grace period every request is sent, under the same conditions on the socket.\<close>

theorem due_ban_is_sent:
  assumes "db_inv (swabber_ip_db s)"
    and "0 < grace_period s \<longrightarrow> locks s (Suc (tick s)) \<and> db_view 0 (swabber_ip_db s) ip \<noteq> 0 \<and>
           fst (clock s (tick s)) - db_view 0 (swabber_ip_db s) ip \<ge> grace_period s"
    and "can_send (s\<lparr>tick := tick s + (if 0 < grace_period s then 2 else 1)\<rparr>)"
  shows "zmq_sent (ban ip r s) = zmq_sent s @ [[SWABBER_BAN, ip]] \<and>
    (ip' \<noteq> ip \<longrightarrow> db_view 0 (swabber_ip_db (ban ip r s)) ip' = db_view 0 (swabber_ip_db s) ip')"
proof -
  let ?s' = "s\<lparr>tick := tick s + (if 0 < grace_period s then 2 else 1)\<rparr>"
  have "ban ip r s = send_ban ip r ?s'"
  proof (cases "0 < grace_period s")
    case True
    have "get_ip_state 0 ip (swabber_ip_db s) (s\<lparr>tick := Suc (tick s)\<rparr>) =
        (Some (db_view 0 (swabber_ip_db s) ip), s\<lparr>tick := Suc (Suc (tick s))\<rparr>)"
      using ipdb.get_law [OF assms(1), of 0 ip "s\<lparr>tick := Suc (tick s)\<rparr>"] assms(2) True
      by (simp add: world_simps after_lock_def)
    with True assms(2) show ?thesis
      by (simp add: ban_def case_prod_beta world_simps flag_time_def)
  qed (simp add: ban_no_grace)
  then show ?thesis
    using send_ban_db [of ?s' ip r] send_ban_sent [of ip r ?s'] assms(1,3) by auto
qed

theorem due_ban_is_sent_witness:
  "zmq_sent (ban ''1.2.3.4'' ''r'' (sample_swabber\<lparr>tick := 5, swabber_ip_db := [(''1.2.3.4'', 100)]\<rparr>)) =
     [[SWABBER_BAN, ''1.2.3.4'']]"
  using due_ban_is_sent [of "sample_swabber\<lparr>tick := 5, swabber_ip_db := [(''1.2.3.4'', 100)]\<rparr>" "''1.2.3.4''" "''r''"]
  by (simp add: sample_swabber_def db_inv_def db_view_def can_send_def ready_def after_lock_def world_simps
      is_bound_def new_socket_def bind_socket_def)

subsection \<open>Frame\<close>

text \<open>A ban touches nothing but the state of the ban interface and the world's counter.\<close>

lemma bind_socket_more:
  "bind_socket e s (st :: 's swabber_state_scheme) = (ok, s', st') \<Longrightarrow> swabber_state.more st' = swabber_state.more st"
  using bind_socket_world by fastforce

lemma write_log_more [simp]: "swabber_state.more (write_log ip r k st) = swabber_state.more st"
  by (simp add: write_log_def world_simps)

lemma send_ban_more [simp]: "swabber_state.more (send_ban ip r st) = swabber_state.more st"
  by (auto simp: send_ban_def world_simps drop_ip_def Let_def dest: bind_socket_more
      split: option.splits prod.splits if_splits)

lemma ban_more [simp]: "swabber_state.more (ban ip r st) = swabber_state.more st"
  by (auto simp: ban_def case_prod_beta world_simps get_ip_state_def set_ip_state_def flag_time_def Let_def
      split: option.splits if_splits)

text \<open>The answers of the world stay what they are: only the counter of questions moves.\<close>

lemma bind_socket_env:
  assumes "bind_socket e s w = (ok, s', w')"
  shows "clock w' = clock w" "locks w' = locks w" "binds w' = binds w"
  using bind_socket_world [OF assms] by auto

lemma write_log_env [simp]:
  "clock (write_log ip r k st) = clock st" "locks (write_log ip r k st) = locks st" "binds (write_log ip r k st) = binds st"
  by (simp_all add: write_log_def world_simps)

lemma send_ban_env [simp]:
  "clock (send_ban ip r st) = clock st" "locks (send_ban ip r st) = locks st"
  by (auto simp: send_ban_def world_simps drop_ip_def Let_def dest: bind_socket_env
      split: option.splits prod.splits if_splits)

lemma ban_env [simp]: "clock (ban ip r st) = clock st" "locks (ban ip r st) = locks st"
  by (auto simp: ban_def case_prod_beta world_simps get_ip_state_def set_ip_state_def flag_time_def Let_def
      split: option.splits if_splits)

end
