(* ===== verification/Floating.thy ===== *)
theory Floating
  imports Complex_Main "HOL-Library.Log_Nat"
begin

text \<open>
  The floating-point arithmetic of the language as far as the rate limiter needs it: IEEE 754
  binary32 (\<open>float\<close>) and binary64 (\<open>double\<close>) with rounding to nearest, ties to even. A finite number
  is the rational number it stands for. The sign of zero is not kept: the program divides only by
  converted unsigned integers, whose zero is positive.
\<close>

datatype fp = Fin rat | Infinity bool | NaN

definition pow2 :: "int \<Rightarrow> rat" where
  "pow2 k = (if 0 \<le> k then 2 ^ nat k else 1 / 2 ^ nat (- k))"

text \<open>The exponent of a positive rational: \<open>pow2 k \<le> x < pow2 (k + 1)\<close>.\<close>

definition ilog2 :: "rat \<Rightarrow> int" where
  "ilog2 x = (let (n, d) = quotient_of x; k = bitlen n - bitlen d in if pow2 k \<le> x then k else k - 1)"

definition round_even :: "rat \<Rightarrow> int" where
  "round_even x =
     (let f = floor x; r = x - of_int f in
      if r < 1 / 2 then f else if 1 / 2 < r then f + 1 else if even f then f else f + 1)"

text \<open>Rounding to precision \<open>p\<close> and exponents from \<open>emin\<close> to \<open>emax\<close>.\<close>

definition round_fp :: "int \<Rightarrow> int \<Rightarrow> int \<Rightarrow> rat \<Rightarrow> fp" where
  "round_fp p emin emax x =
     (if x = 0 then Fin 0
      else let e = max (ilog2 \<bar>x\<bar>) emin - (p - 1);
               y = of_int (round_even (x / pow2 e)) * pow2 e
           in if pow2 (emax + 1) \<le> \<bar>y\<bar> then Infinity (x < 0) else Fin y)"

definition round32 :: "rat \<Rightarrow> fp" where "round32 = round_fp 24 (- 126) 127"
definition round64 :: "rat \<Rightarrow> fp" where "round64 = round_fp 53 (- 1022) 1023"

text \<open>Arithmetic in the format given by its rounding function.\<close>

fun fneg :: "fp \<Rightarrow> fp" where
  "fneg (Fin a) = Fin (- a)"
| "fneg (Infinity s) = Infinity (\<not> s)"
| "fneg NaN = NaN"

fun fadd :: "(rat \<Rightarrow> fp) \<Rightarrow> fp \<Rightarrow> fp \<Rightarrow> fp" where
  "fadd r (Fin a) (Fin b) = r (a + b)"
| "fadd r (Infinity s) (Fin b) = Infinity s"
| "fadd r (Fin a) (Infinity s) = Infinity s"
| "fadd r (Infinity s) (Infinity t) = (if s = t then Infinity s else NaN)"
| "fadd r _ _ = NaN"

definition fsub :: "(rat \<Rightarrow> fp) \<Rightarrow> fp \<Rightarrow> fp \<Rightarrow> fp" where
  "fsub r a b = fadd r a (fneg b)"

fun fmul :: "(rat \<Rightarrow> fp) \<Rightarrow> fp \<Rightarrow> fp \<Rightarrow> fp" where
  "fmul r (Fin a) (Fin b) = r (a * b)"
| "fmul r (Infinity s) (Fin b) = (if b = 0 then NaN else Infinity (s \<noteq> (b < 0)))"
| "fmul r (Fin a) (Infinity s) = (if a = 0 then NaN else Infinity (s \<noteq> (a < 0)))"
| "fmul r (Infinity s) (Infinity t) = Infinity (s \<noteq> t)"
| "fmul r _ _ = NaN"

fun fdiv :: "(rat \<Rightarrow> fp) \<Rightarrow> fp \<Rightarrow> fp \<Rightarrow> fp" where
  "fdiv r (Fin a) (Fin b) = (if b = 0 then (if a = 0 then NaN else Infinity (a < 0)) else r (a / b))"
| "fdiv r (Infinity s) (Fin b) = Infinity (s \<noteq> (b < 0))"
| "fdiv r (Fin a) (Infinity s) = Fin 0"
| "fdiv r _ _ = NaN"

text \<open>Conversion to another format, from an integer, and to an integer by truncation.\<close>

fun fconv :: "(rat \<Rightarrow> fp) \<Rightarrow> fp \<Rightarrow> fp" where
  "fconv r (Fin a) = r a"
| "fconv r x = x"

definition of_integer :: "(rat \<Rightarrow> fp) \<Rightarrow> int \<Rightarrow> fp" where
  "of_integer r n = r (of_int n)"

fun truncate_fp :: "fp \<Rightarrow> int" where
  "truncate_fp (Fin a) = (if 0 \<le> a then floor a else ceiling a)"
| "truncate_fp _ = - (2 ^ 63)"

fun fless :: "fp \<Rightarrow> fp \<Rightarrow> bool" where
  "fless (Fin a) (Fin b) = (a < b)"
| "fless (Infinity s) (Fin b) = s"
| "fless (Fin a) (Infinity s) = (\<not> s)"
| "fless (Infinity s) (Infinity t) = (s \<and> \<not> t)"
| "fless _ _ = False"

fun feq :: "fp \<Rightarrow> fp \<Rightarrow> bool" where
  "feq (Fin a) (Fin b) = (a = b)"
| "feq (Infinity s) (Infinity t) = (s = t)"
| "feq _ _ = False"

definition fge :: "fp \<Rightarrow> fp \<Rightarrow> bool" where
  "fge a b \<longleftrightarrow> fless b a \<or> feq a b"

section \<open>Rounding\<close>

lemma pow2_pos [simp]: "0 < pow2 k"
  by (simp add: pow2_def)

lemma round_even_nonneg: "0 \<le> x \<Longrightarrow> 0 \<le> round_even x"
  by (auto simp: round_even_def Let_def)

lemma round_even_nonpos: "x \<le> 0 \<Longrightarrow> round_even x \<le> 0"
  by (auto simp: round_even_def Let_def)

text \<open>Rounding keeps the sign.\<close>

lemma round_fp_nonneg: "0 \<le> x \<Longrightarrow> round_fp p emin emax x = Fin y \<Longrightarrow> 0 \<le> y"
  by (auto simp: round_fp_def Let_def round_even_nonneg zero_le_mult_iff less_imp_le split: if_splits)

lemma pow2_powi: "pow2 k = 2 powi k"
  by (simp add: pow2_def power_int_def field_simps)

lemma pow2_add: "pow2 (a + b) = pow2 a * pow2 b"
  by (simp add: pow2_powi power_int_add)

lemma pow2_mono: "a \<le> b \<Longrightarrow> pow2 a \<le> pow2 b"
  by (simp add: pow2_powi power_int_increasing)

lemma bitlen_pow2_bounds:
  assumes "0 < (n :: int)"
  shows "pow2 (bitlen n - 1) \<le> of_int n" "of_int n < pow2 (bitlen n)"
proof -
  have b: "bitlen n = int (floorlog 2 (nat n))" by (simp add: bitlen_def)
  have f: "2 ^ (floorlog 2 (nat n) - 1) \<le> nat n" "nat n < 2 ^ floorlog 2 (nat n)"
    using floorlog_bounds [of "nat n" 2] assms by auto
  have pos: "0 < floorlog 2 (nat n)"
    using f(2) assms by (metis gr0I less_one power_0 zero_less_nat_eq not_less_zero less_Suc0)
  have "(of_nat (2 ^ (floorlog 2 (nat n) - 1)) :: rat) \<le> of_nat (nat n)" "(of_nat (nat n) :: rat) < of_nat (2 ^ floorlog 2 (nat n))"
    using f by (simp_all only: of_nat_le_iff of_nat_less_iff)
  then show "pow2 (bitlen n - 1) \<le> of_int n" "of_int n < pow2 (bitlen n)"
    using pos assms by (simp_all add: pow2_def b nat_diff_distrib' of_nat_diff)
qed

text \<open>\<open>ilog2\<close> is the exponent.\<close>

lemma ilog2_eqI:
  assumes "pow2 k \<le> x" and "x < pow2 (k + 1)"
  shows "ilog2 x = k"
proof -
  obtain n d where nd: "quotient_of x = (n, d)" by force
  have d: "0 < d" using quotient_of_denom_pos [OF nd] .
  have x: "x = of_int n / of_int d" using quotient_of_div [OF nd] .
  have "0 < x" using assms(1) pow2_pos [of k] by linarith
  then have n: "0 < n" using d by (simp add: x zero_less_divide_iff)
  define b where "b = bitlen n - bitlen d"
  have up: "x < pow2 (b + 1)"
  proof -
    have "x * of_int d < pow2 (bitlen n)" using bitlen_pow2_bounds(2) [OF n] d by (simp add: x)
    also have "\<dots> = pow2 (b + 1) * pow2 (bitlen d - 1)" by (simp add: b_def flip: pow2_add)
    also have "\<dots> \<le> pow2 (b + 1) * of_int d" using bitlen_pow2_bounds(1) [OF d] by (simp add: mult_left_mono less_imp_le)
    finally show ?thesis using d by (simp add: mult_less_cancel_right)
  qed
  have low: "pow2 (b - 1) < x"
  proof -
    have "pow2 (b - 1) * of_int d < pow2 (b - 1) * pow2 (bitlen d)" using bitlen_pow2_bounds(2) [OF d] by simp
    also have "\<dots> = pow2 (bitlen n - 1)" by (simp add: b_def flip: pow2_add)
    also have "\<dots> \<le> x * of_int d" using bitlen_pow2_bounds(1) [OF n] d by (simp add: x)
    finally show ?thesis using d by (simp add: mult_less_cancel_right)
  qed
  have "ilog2 x = (if pow2 b \<le> x then b else b - 1)" by (simp add: ilog2_def nd b_def Let_def)
  moreover have "j = k" if "pow2 j \<le> x" "x < pow2 (j + 1)" for j
  proof (rule ccontr)
    assume "j \<noteq> k"
    then have "j + 1 \<le> k \<or> k + 1 \<le> j" by linarith
    then show False using pow2_mono [of "j + 1" k] pow2_mono [of "k + 1" j] assms that by linarith
  qed
  from this [of b] this [of "b - 1"] have "(if pow2 b \<le> x then b else b - 1) = k" using up low by auto
  ultimately show ?thesis by simp
qed

lemma round_evenI:
  assumes "\<bar>x - of_int m\<bar> < 1 / 2 \<or> \<bar>x - of_int m\<bar> = 1 / 2 \<and> even m"
  shows "round_even x = m"
proof (cases "of_int m \<le> x")
  case True
  with assms have "floor x = m" by (intro floor_unique) linarith+
  with assms True show ?thesis by (auto simp: round_even_def Let_def)
next
  case False
  with assms have "floor x = m - 1" by (intro floor_unique; simp; linarith)
  with assms False show ?thesis by (auto simp: round_even_def Let_def abs_if)
qed

text \<open>To round a positive number, guess its exponent and the integer next to its scaled value.\<close>

lemma round_fpI:
  assumes "pow2 k \<le> x" "x < pow2 (k + 1)" "emin \<le> k" "\<bar>x / pow2 (k - (p - 1)) - of_int m\<bar> < 1 / 2 \<or>
      \<bar>x / pow2 (k - (p - 1)) - of_int m\<bar> = 1 / 2 \<and> even m"
    and "y = of_int m * pow2 (k - (p - 1))" "\<bar>y\<bar> < pow2 (emax + 1)"
  shows "round_fp p emin emax x = Fin y"
proof -
  have "0 < x" using assms(1) pow2_pos [of k] by linarith
  then show ?thesis
    using assms ilog2_eqI [OF assms(1,2)] round_evenI [of "x / pow2 (k - (p - 1))" m] by (simp add: round_fp_def Let_def)
qed

lemma round_example: "round64 (1 / 5000) = Fin (7378697629483821 / 36893488147419103232)"
  unfolding round64_def by (rule round_fpI [where k = "- 13" and m = 7378697629483821]) (simp_all add: pow2_def)

end
