(* ===== verification/RegexManager.thy ===== *)
theory RegexManager
  imports Swabber Floating
begin

text \<open>
  The regular-expression banner (regex_manager.h, regex_manager.cpp): rules with a rate limit per
  client address. RE2 is a parameter: \<open>full_match pattern text\<close> is \<open>RE2::FullMatch\<close>. Times are 64-bit
  unsigned, intervals 32-bit unsigned, rates single precision, as in the code.
\<close>

text \<open>\<open>RegexState\<close>: the beginning of the observed interval and the hits per millisecond in it.\<close>

record regex_ip_state =
  begin_msec :: "64 word"
  rate :: fp

definition empty_regex_state :: regex_ip_state where
  "empty_regex_state = \<lparr>begin_msec = 0, rate = Fin 0\<rparr>"

record rated_regex =
  rr_id :: nat
  rule_name :: string
  re2_regex :: string
  interval :: "32 word"
  rr_rate :: fp
  hosts_to_skip :: "string list"

record regex_state = swabber_state +
  regex_manager_ip_db :: "regex_ip_state list ip_table"

definition RegexManager_requested_info :: "64 word" where
  "RegexManager_requested_info = IP OR METHOD OR URL OR HOST OR UA"

definition forbidden_message :: string where
  "forbidden_message = ''<html><header></header><body>Forbidden</body></html>''"

section \<open>Configuration\<close>

definition subscript :: "yaml \<Rightarrow> string \<Rightarrow> (yaml \<Rightarrow> 'a result) \<Rightarrow> 'a result" where
  "subscript n k conv = rbind (ysub n k) conv"

text \<open>\<open>observation_interval * 1000\<close> is computed in 32 bits; the rate is a quotient of doubles,
  converted to float.\<close>

definition make_rule :: "nat \<Rightarrow> string \<Rightarrow> string \<Rightarrow> 32 word \<Rightarrow> 32 word \<Rightarrow> string list \<Rightarrow> rated_regex" where
  "make_rule new_id name pattern observation_interval threshold skip =
     \<lparr>rr_id = new_id, rule_name = name, re2_regex = pattern,
      interval = observation_interval * 1000,
      rr_rate = fconv round32 (fdiv round64 (of_integer round64 (uint threshold))
                                            (of_integer round64 (uint (observation_interval * 1000)))),
      hosts_to_skip = skip\<rparr>"

fun load_rules :: "yaml_lib \<Rightarrow> yaml list \<Rightarrow> rated_regex list \<Rightarrow> rated_regex list result" where
  "load_rules Y [] rules = Inr rules"
| "load_rules Y (node # ns) rules =
     rbind (subscript node ''rule'' (as_string Y)) (\<lambda>cur_rule.
     rbind (subscript node ''interval'' (as_uint Y)) (\<lambda>observation_interval.
     rbind (subscript node ''hits_per_interval'' (as_uint Y)) (\<lambda>threshold.
     rbind (ysub node ''hosts_to_skip'') (\<lambda>skip_node.
     rbind (if IsDefined skip_node then as_vector (as_string Y) skip_node else Inr []) (\<lambda>skip.
     rbind (subscript node ''regex'' (as_string Y)) (\<lambda>pattern.
     load_rules Y ns
       (rules @ [make_rule (length rules) cur_rule pattern
                   (word_of_int observation_interval) (word_of_int threshold) skip])))))))"

definition RegexManager_load_config :: "yaml_lib \<Rightarrow> yaml \<Rightarrow> rated_regex list result" where
  "RegexManager_load_config Y cfg = load_rules Y (yelems cfg) []"

section \<open>Matching\<close>

text \<open>\<open>cur_time.tv_sec * 1000 + cur_time.tv_usec / 1000.0\<close>, truncated to long.\<close>

definition cur_time_msec :: "int \<times> int \<Rightarrow> int" where
  "cur_time_msec t =
     truncate_fp (fadd round64 (of_integer round64 (fst t * 1000))
                               (fdiv round64 (of_integer round64 (snd t)) (Fin 1000)))"

text \<open>One hit: move the interval if it is over and scale the rate, or add one hit. \<open>now\<close> is
  \<open>cur_time_msec\<close>. The difference is computed in unsigned arithmetic and read as signed.\<close>

definition one_hit :: "32 word \<Rightarrow> fp" where
  "one_hit i = fdiv round64 (Fin 1) (of_integer round64 (uint i))"

definition window_movement :: "int \<Rightarrow> 64 word \<Rightarrow> 32 word \<Rightarrow> int" where
  "window_movement now begin i = sint (word_of_int now - begin - ucast i :: 64 word)"

definition update_regex_state :: "32 word \<Rightarrow> int \<Rightarrow> regex_ip_state \<Rightarrow> regex_ip_state" where
  "update_regex_state i now state0 =
     (let state = (if begin_msec state0 = 0 then state0\<lparr>begin_msec := word_of_int now\<rparr> else state0);
          movement = window_movement now (begin_msec state) i
      in if movement > 0 then
           let scaled = fsub round32 (fmul round32 (rate state) (of_integer round32 movement)) (Fin 1);
               r = fconv round32 (fsub round64 (rate state) (fdiv round64 scaled (of_integer round64 (uint i))))
           in state\<lparr>begin_msec := begin_msec state + word_of_int movement,
                    rate := (if fless r (Fin 0) then fconv round32 (one_hit i) else r)\<rparr>
         else state\<lparr>rate := fconv round32 (fadd round64 (rate state) (one_hit i))\<rparr>)"

definition store_state :: "string \<Rightarrow> regex_ip_state list \<Rightarrow> 's regex_state_scheme \<Rightarrow> 's regex_state_scheme" where
  "store_state ip v st =
     (let (_, db, st1) = set_ip_state ip v (regex_manager_ip_db st) st in st1\<lparr>regex_manager_ip_db := db\<rparr>)"

text \<open>The loop of \<open>try_match\<close>. \<open>n\<close> is \<open>total_no_of_rules\<close>; \<open>ip_state\<close> is the local optional vector. An
  index past the end of the vector is undefined behaviour.\<close>

fun try_match_loop :: "(string \<Rightarrow> string \<Rightarrow> bool) \<Rightarrow> nat \<Rightarrow> string \<Rightarrow> string \<Rightarrow> string \<Rightarrow>
    rated_regex list \<Rightarrow> regex_ip_state list option \<Rightarrow> 's regex_state_scheme \<Rightarrow>
    (rated_regex option \<times> 's regex_state_scheme) result" where
  "try_match_loop full_match n ip ats_record host [] ip_state st =
     (case ip_state of
        Some v \<Rightarrow> if v \<noteq> [] then Inr (None, store_state ip v st) else Inr (None, st)
      | None \<Rightarrow> Inr (None, st))"
| "try_match_loop full_match n ip ats_record host (rule # rules) ip_state st =
     (if host \<in> set (hosts_to_skip rule) then Inr (None, st)
      else if full_match (re2_regex rule) ats_record then
        if feq (rr_rate rule) (Fin 0) then Inr (Some rule, st)
        else
          let (t, st1) = gettimeofday st;
              (ip_state1, st2) =
                (if ip_state = None \<or> ip_state = Some []
                 then get_ip_state [] ip (regex_manager_ip_db st1) st1 else (ip_state, st1))
          in case ip_state1 of
               None \<Rightarrow> try_match_loop full_match n ip ats_record host rules None st2
             | Some v0 \<Rightarrow>
                 let v = (if v0 = [] then replicate n empty_regex_state else v0) in
                 if rr_id rule \<ge> length v then Inl OutOfBoundsRead
                 else
                   let state = update_regex_state (interval rule) (cur_time_msec t) (v ! rr_id rule);
                       v' = v[rr_id rule := state]
                   in if fge (rate state) (rr_rate rule) then Inr (Some rule, store_state ip v' st2)
                      else try_match_loop full_match n ip ats_record host rules (Some v') st2
      else try_match_loop full_match n ip ats_record host rules ip_state st)"

definition try_match :: "(string \<Rightarrow> string \<Rightarrow> bool) \<Rightarrow> rated_regex list \<Rightarrow> string \<Rightarrow> string \<Rightarrow> string \<Rightarrow>
    's regex_state_scheme \<Rightarrow> (rated_regex option \<times> 's regex_state_scheme) result" where
  "try_match full_match rules ip ats_record host st =
     try_match_loop full_match (length rules) ip ats_record host rules None st"

text \<open>The handler reads the parts with \<open>operator[]\<close> through a \<open>const_cast\<close>: parts that are missing
  are added, empty, to the transaction's own map.\<close>

definition regex_parts :: "transaction_parts \<Rightarrow> transaction_parts" where
  "regex_parts parts =
     foldl (\<lambda>p k. snd (part_index p k)) parts [METHOD, URL, HOST, UA, IP]"

abbreviation get_part :: "transaction_parts \<Rightarrow> 64 word \<Rightarrow> string" where
  "get_part parts k \<equiv> (case parts k of Some s \<Rightarrow> s | None \<Rightarrow> [])"

definition make_ats_record :: "transaction_parts \<Rightarrow> string" where
  "make_ats_record p = get_part p METHOD @ '' '' @ get_part p URL @ '' '' @ get_part p HOST @ '' '' @ get_part p UA"

definition regex_banning_reason :: "rated_regex \<Rightarrow> transaction_parts \<Rightarrow> string" where
  "regex_banning_reason rule p =
     ''matched regex rule '' @ rule_name rule @ '', '' @ get_part p METHOD @ '', '' @
     encapsulate_in_quotes (get_part p URL) @ '', '' @ get_part p HOST @ '', '' @
     encapsulate_in_quotes (get_part p UA)"

definition RegexManager_on_http_request :: "(string \<Rightarrow> string \<Rightarrow> bool) \<Rightarrow> rated_regex list \<Rightarrow> transaction_parts \<Rightarrow>
    's regex_state_scheme \<Rightarrow> ('c filter_response \<times> transaction_parts \<times> 's regex_state_scheme) result" where
  "RegexManager_on_http_request full_match rules parts st =
     (let p = regex_parts parts in
      rbind (try_match full_match rules (get_part p IP) (make_ats_record p) (get_part p HOST) st) (\<lambda>(found, st1).
      case found of
        Some rule \<Rightarrow>
          Inr (generator_response REGEX_BANNER_FILTER_ID, p, ban (get_part p IP) (regex_banning_reason rule p) st1)
      | None \<Rightarrow> Inr (plain_response GO_AHEAD_NO_COMMENT, p, st1)))"

section \<open>Properties\<close>

lemma regex_db_of_more:
  "swabber_state.more st = swabber_state.more st' \<Longrightarrow> regex_manager_ip_db st = regex_manager_ip_db st'"
  by (cases st; cases st') simp

lemma ban_regex_db [simp]: "regex_manager_ip_db (ban ip r st) = regex_manager_ip_db st"
  by (rule regex_db_of_more) simp

subsection \<open>Memory safety\<close>

definition rules_ok :: "rated_regex list \<Rightarrow> bool" where
  "rules_ok rules \<longleftrightarrow> (\<forall>rule\<in>set rules. rr_id rule < length rules)"

definition regex_db_ok :: "nat \<Rightarrow> regex_ip_state list ip_table \<Rightarrow> bool" where
  "regex_db_ok n db \<longleftrightarrow> db_inv db \<and> (\<forall>v\<in>set (map snd db). length v = n)"

lemma load_rules_ids:
  "load_rules Y ns rules = Inr rules' \<Longrightarrow> map rr_id rules = [0..<length rules] \<Longrightarrow> map rr_id rules' = [0..<length rules']"
proof (induction ns arbitrary: rules)
  case (Cons n ns)
  from Cons.prems(1) obtain nm i t sk p where
    "load_rules Y ns (rules @ [make_rule (length rules) nm p (word_of_int i) (word_of_int t) sk]) = Inr rules'"
    by (auto simp: rbind_eq_Inr_iff)
  with Cons.IH Cons.prems(2) show ?case by (simp add: make_rule_def)
qed simp

lemma load_config_rules_ok: "RegexManager_load_config Y cfg = Inr rules \<Longrightarrow> rules_ok rules"
proof -
  assume "RegexManager_load_config Y cfg = Inr rules"
  then have "map rr_id rules = [0..<length rules]"
    using load_rules_ids [of Y "yelems cfg" "[]"] by (simp add: RegexManager_load_config_def)
  then have "rr_id ` set rules = {0..<length rules}" by (metis list.set_map set_upt)
  then show ?thesis by (auto simp: rules_ok_def)
qed

lemma store_state_ok:
  "regex_db_ok n (regex_manager_ip_db st) \<Longrightarrow> length v = n \<Longrightarrow> regex_db_ok n (regex_manager_ip_db (store_state ip v st))"
  by (auto simp: store_state_def set_ip_state_def world_simps regex_db_ok_def Let_def dest!: update_entries)

lemma map_of_vector: "regex_db_ok n db \<Longrightarrow> map_of db ip = Some v \<Longrightarrow> length v = n"
  by (force simp: regex_db_ok_def dest: map_of_SomeD)

lemma try_match_loop_ok:
  assumes "regex_db_ok n (regex_manager_ip_db st)" and "\<forall>rule\<in>set rules. rr_id rule < n"
    and "\<forall>v. ip_state = Some v \<longrightarrow> v = [] \<or> length v = n"
  shows "\<exists>found st'. try_match_loop fm n ip rec host rules ip_state st = Inr (found, st') \<and>
    regex_db_ok n (regex_manager_ip_db st') \<and> (\<forall>r. found = Some r \<longrightarrow> r \<in> set rules)"
  using assms
proof (induction rules arbitrary: ip_state st)
  case Nil
  then show ?case by (auto simp: store_state_ok split: option.splits)
next
  case (Cons rule rules)
  show ?case
  proof (cases "host \<in> set (hosts_to_skip rule) \<or> \<not> fm (re2_regex rule) rec \<or> feq (rr_rate rule) (Fin 0)")
    case True
    then show ?thesis
    proof (elim disjE)
      assume "\<not> fm (re2_regex rule) rec"
      with Cons.IH [of st ip_state] Cons.prems show ?thesis by auto
    qed (use Cons.prems Cons.IH [of st ip_state] in auto)
  next
    case False
    let ?st1 = "snd (gettimeofday st)" and ?t = "fst (gettimeofday st)"
    obtain ip_state1 st2 where get: "(if ip_state = None \<or> ip_state = Some []
        then get_ip_state [] ip (regex_manager_ip_db ?st1) ?st1 else (ip_state, ?st1)) = (ip_state1, st2)"
      by (metis surj_pair)
    have st2: "regex_manager_ip_db st2 = regex_manager_ip_db st"
      using get by (auto simp: world_simps get_ip_state_def split: if_splits option.splits)
    have v: "v = [] \<or> length v = n" if "ip_state1 = Some v" for v
      using get that Cons.prems map_of_vector [OF Cons.prems(1), of ip]
      by (auto simp: world_simps get_ip_state_def split: if_splits option.splits)
    show ?thesis
    proof (cases ip_state1)
      case None
      with Cons.IH [of st2 None] Cons.prems False get st2 show ?thesis
        by (auto simp: case_prod_beta Let_def)
    next
      case (Some v0)
      let ?v = "if v0 = [] then replicate n empty_regex_state else v0"
      let ?v' = "?v[rr_id rule := update_regex_state (interval rule) (cur_time_msec ?t) (?v ! rr_id rule)]"
      have len: "length ?v = n" "length ?v' = n" using v [OF Some] by auto
      have "rr_id rule < n" using Cons.prems by simp
      then show ?thesis
        using Cons.IH [of st2 "Some ?v'"] Cons.prems False get st2 Some len
          store_state_ok [of n st2 ?v' ip]
        by (auto simp: case_prod_beta Let_def simp del: length_list_update)
    qed
  qed
qed

lemma on_http_request_ok:
  assumes "rules_ok rules" and "regex_db_ok (length rules) (regex_manager_ip_db st)"
  shows "\<exists>(resp :: 'c filter_response) parts' st'.
    RegexManager_on_http_request full_match rules parts st = Inr (resp, parts', st') \<and>
    regex_db_ok (length rules) (regex_manager_ip_db st') \<and>
    (response_type resp = GO_AHEAD_NO_COMMENT \<or>
     response_type resp = I_RESPOND \<and>
       (\<exists>rule st1. rule \<in> set rules \<and> st' = ban (get_part parts' IP) (regex_banning_reason rule parts') st1))"
proof -
  let ?p = "regex_parts parts"
  obtain found st1 where
    "try_match full_match rules (get_part ?p IP) (make_ats_record ?p) (get_part ?p HOST) st = Inr (found, st1)"
    "regex_db_ok (length rules) (regex_manager_ip_db st1)" "\<forall>r. found = Some r \<longrightarrow> r \<in> set rules"
    using try_match_loop_ok [of "length rules" st rules None] assms
    unfolding rules_ok_def try_match_def by blast
  then show ?thesis
    by (cases found) (auto simp: RegexManager_on_http_request_def Let_def)
qed

text \<open>C12: The rate limiter is memory safe. For every rule set that \<open>load_config\<close> accepts and every
  table of states built by it, handling a request returns (no access outside the vector of an
  address's states), keeps the table well formed, and answers with a denial exactly when some rule
  of the set was found to be exceeded, in which case the client's address is reported to the ban
  interface.\<close>

theorem regex_filter_is_memory_safe:
  assumes "RegexManager_load_config Y cfg = Inr rules"
    and "regex_db_ok (length rules) (regex_manager_ip_db st)"
  shows "\<exists>(resp :: 'c filter_response) parts' st'.
    RegexManager_on_http_request full_match rules parts st = Inr (resp, parts', st') \<and>
    regex_db_ok (length rules) (regex_manager_ip_db st') \<and>
    (response_type resp = GO_AHEAD_NO_COMMENT \<or>
     response_type resp = I_RESPOND \<and>
       (\<exists>rule st1. rule \<in> set rules \<and> st' = ban (get_part parts' IP) (regex_banning_reason rule parts') st1))"
  using load_config_rules_ok [OF assms(1)] assms(2) by (rule on_http_request_ok)

definition sample_rules :: "yaml" where
  "sample_rules = YSequence [YMap [(''rule'', YScalar ''r''), (''regex'', YScalar ''.*''),
     (''interval'', YScalar ''5''), (''hits_per_interval'', YScalar ''3'')]]"

definition sample_rule :: rated_regex where
  "sample_rule = make_rule 0 ''r'' ''.*'' 5 3 []"

lemma sample_rules_loaded: "RegexManager_load_config sample_yaml sample_rules = Inr [sample_rule]"
proof -
  have "stoi ''5'' = Inr 5" "stoi ''3'' = Inr 3" by code_simp+
  then show ?thesis
    by (simp add: RegexManager_load_config_def sample_rules_def yelems_def subscript_def ysub_def to_map_def
        sample_yaml_def IsDefined_def sample_rule_def)
qed

definition sample_regex_state :: regex_state where
  "sample_regex_state = swabber_state.extend sample_swabber (regex_state.fields [])"

theorem regex_filter_is_memory_safe_witness:
  "\<exists>(resp :: unit filter_response) parts' st'.
    RegexManager_on_http_request (\<lambda>_ _. True) [sample_rule] Map.empty sample_regex_state = Inr (resp, parts', st') \<and>
    regex_db_ok 1 (regex_manager_ip_db st')"
  using regex_filter_is_memory_safe [OF sample_rules_loaded, of sample_regex_state "\<lambda>_ _. True" Map.empty]
  by (auto simp: sample_regex_state_def swabber_state.defs regex_state.defs regex_db_ok_def db_inv_def)

subsection \<open>The rate\<close>

lemma window_after_move:
  "window_movement now (b + word_of_int (window_movement now b i)) i = 0"
  by (simp add: window_movement_def)

lemma window_movement_fresh: "window_movement now (word_of_int now) i \<le> 0"
proof -
  have "window_movement now (word_of_int now) i = sint (word_of_int (- uint i) :: 64 word)"
    by (simp add: window_movement_def)
  also have "\<dots> = signed_take_bit 63 (- uint i)"
    unfolding sint_sbintrunc' by simp
  finally have "window_movement now (word_of_int now) i = signed_take_bit 63 (- uint i)" .
  moreover have "signed_take_bit 63 (- uint i) = - uint i"
  proof (rule signed_take_bit_int_eq_self)
    have "uint i < 2 ^ 32" using uint_lt2p [of i] by simp
    then show "- (2 ^ 63) \<le> - uint i" by simp
    have "- uint i \<le> 0" by simp
    also have "(0 :: int) < 2 ^ 63" by simp
    finally show "- uint i < 2 ^ 63" .
  qed
  ultimately show ?thesis by simp
qed

lemma fless_fconv_round32: "\<not> fless x (Fin 0) \<Longrightarrow> \<not> fless (fconv round32 x) (Fin 0)"
  by (cases x) (auto simp: round32_def round_fp_def Let_def round_even_nonneg zero_le_mult_iff less_imp_le not_less)

lemma one_hit_nonneg: "\<not> fless (one_hit i) (Fin 0)"
proof -
  have "\<not> fless (round64 x) (Fin 0)" if "0 \<le> x" for x
    using that by (auto simp: round64_def round_fp_def Let_def round_even_nonneg zero_le_mult_iff less_imp_le not_less)
  moreover have "of_integer round64 (uint i) = Fin y \<Longrightarrow> 0 \<le> y" for y
    unfolding of_integer_def round64_def
    by (rule round_fp_nonneg [rotated], assumption) (subst of_int_0_le_iff, rule uint_ge_0)
  ultimately show ?thesis
    unfolding one_hit_def by (cases "of_integer round64 (uint i)") auto
qed

lemma fadd_nonneg: "\<not> fless x (Fin 0) \<Longrightarrow> \<not> fless y (Fin 0) \<Longrightarrow> \<not> fless (fadd round64 x y) (Fin 0)"
  by (cases x; cases y)
    (auto simp: round64_def round_fp_def Let_def round_even_nonneg zero_le_mult_iff less_imp_le not_less)

text \<open>C33: After a hit is counted, the observed interval reaches up to the present (it ends no earlier
  than now, whatever the clock did, with the wrap-around of the unsigned arithmetic), an interval
  that was already open is moved forward by exactly the overrun, and the rate is not negative if it
  was not before.\<close>

theorem counted_hit_keeps_window_and_rate:
  "window_movement now (begin_msec (update_regex_state i now s)) i \<le> 0 \<and>
   (begin_msec s \<noteq> 0 \<longrightarrow> begin_msec (update_regex_state i now s) =
      begin_msec s + word_of_int (max 0 (window_movement now (begin_msec s) i))) \<and>
   (\<not> fless (rate s) (Fin 0) \<longrightarrow> \<not> fless (rate (update_regex_state i now s)) (Fin 0))"
  using window_movement_fresh [of now i]
  by (auto simp: update_regex_state_def Let_def window_after_move fless_fconv_round32 one_hit_nonneg fadd_nonneg)

theorem counted_hit_keeps_window_and_rate_witness:
  "(begin_msec (update_regex_state 5000 9000 \<lparr>begin_msec = 1000, rate = Fin 0\<rparr>) = 4000 \<and>
    window_movement 9000 4000 5000 \<le> 0)"
proof -
  have "window_movement 9000 1000 5000 = 3000" by code_simp
  with counted_hit_keeps_window_and_rate [of 9000 5000 "\<lparr>begin_msec = 1000, rate = Fin 0\<rparr>"]
  show ?thesis by auto
qed

subsection \<open>Which rules apply\<close>

lemma try_match_loop_skip:
  "\<forall>r\<in>set rs1. \<not> fm (re2_regex r) rec \<and> host \<notin> set (hosts_to_skip r) \<Longrightarrow>
   try_match_loop fm n ip rec host (rs1 @ rs2) None st = try_match_loop fm n ip rec host rs2 None st"
  by (induction rs1) auto

text \<open>A rule without a rate limit (\<open>hits_per_interval: 0\<close>) bans at the first match: if it
  matches, none of the rules before it matches and none of the rules up to it excludes the host, the
  client's address is reported to the ban interface and the request denied, and no rate is stored.
  If no rule matches, the request goes on and the state is unchanged.\<close>

theorem simple_rule_bans_at_once:
  fixes parts :: transaction_parts
  defines "p \<equiv> regex_parts parts"
  assumes "\<forall>r\<in>set rs1. \<not> full_match (re2_regex r) (make_ats_record p) \<and> get_part p HOST \<notin> set (hosts_to_skip r)"
  shows "RegexManager_on_http_request full_match rs1 parts st = Inr (plain_response GO_AHEAD_NO_COMMENT :: 'c filter_response, p, st) \<and>
    (full_match (re2_regex rule) (make_ats_record p) \<and> rr_rate rule = Fin 0 \<and> get_part p HOST \<notin> set (hosts_to_skip rule) \<longrightarrow>
       RegexManager_on_http_request full_match (rs1 @ rule # rs2) parts st =
         Inr (generator_response REGEX_BANNER_FILTER_ID :: 'c filter_response, p,
              ban (get_part p IP) (regex_banning_reason rule p) st))"
proof -
  have "try_match_loop full_match n (get_part p IP) (make_ats_record p) (get_part p HOST) (rs1 @ rs) None st =
      try_match_loop full_match n (get_part p IP) (make_ats_record p) (get_part p HOST) rs None st" for n rs
    by (rule try_match_loop_skip) (use assms(2) in blast)
  from this [of _ "[]"] this [of _ "rule # rs2"] show ?thesis
    by (auto simp: RegexManager_on_http_request_def try_match_def p_def Let_def)
qed

theorem simple_rule_bans_at_once_witness:
  "RegexManager_on_http_request (\<lambda>p _. p = ''bad'')
     [sample_rule, make_rule 1 ''b'' ''bad'' 5 0 []] [IP \<mapsto> ''1.2.3.4''] sample_regex_state =
   Inr (generator_response REGEX_BANNER_FILTER_ID :: unit filter_response, regex_parts [IP \<mapsto> ''1.2.3.4''],
     ban ''1.2.3.4'' (regex_banning_reason (make_rule 1 ''b'' ''bad'' 5 0 []) (regex_parts [IP \<mapsto> ''1.2.3.4''])) sample_regex_state)"
proof -
  have "rr_rate (make_rule 1 ''b'' ''bad'' 5 0 []) = Fin 0" by code_simp
  moreover have "get_part (regex_parts [IP \<mapsto> ''1.2.3.4'']) IP = ''1.2.3.4''" by code_simp
  moreover have "re2_regex sample_rule = ''.*''" "hosts_to_skip sample_rule = []"
    by (simp_all add: sample_rule_def make_rule_def)
  moreover have "re2_regex (make_rule 1 ''b'' ''bad'' 5 0 []) = ''bad''" "hosts_to_skip (make_rule 1 ''b'' ''bad'' 5 0 []) = []"
    by (simp_all add: make_rule_def)
  ultimately show ?thesis
    using simple_rule_bans_at_once [of "[sample_rule]" "\<lambda>p _. p = ''bad''" "[IP \<mapsto> ''1.2.3.4'']" sample_regex_state
        "make_rule 1 ''b'' ''bad'' 5 0 []" "[]", where 'c = unit]
    by simp
qed

lemma try_match_loop_cut:
  "host \<in> set (hosts_to_skip rule) \<Longrightarrow>
   try_match_loop fm n ip rec host (rs1 @ rule # rs2) v st = try_match_loop fm n ip rec host (rs1 @ [rule]) v st"
  by (induction rs1 arbitrary: v st) (auto simp: Let_def split: prod.splits option.splits)

lemma gettimeofday_regex_db [simp]: "regex_manager_ip_db (snd (gettimeofday st)) = regex_manager_ip_db st"
  by (simp add: world_simps)

lemma get_ip_state_regex_db [simp]: "regex_manager_ip_db (snd (get_ip_state d ip db st)) = regex_manager_ip_db st"
  by (simp add: get_ip_state_def world_simps split: option.splits)

lemma try_match_loop_cut_none:
  "host \<in> set (hosts_to_skip rule) \<Longrightarrow>
   try_match_loop fm n ip rec host (rs1 @ rule # rs2) v st = Inr (None, st') \<Longrightarrow>
   regex_manager_ip_db st' = regex_manager_ip_db st"
proof (induction rs1 arbitrary: v st)
  case (Cons r rs1)
  show ?case
    using Cons.prems
    by (auto simp: Let_def case_prod_beta split: if_splits option.splits dest!: Cons.IH [OF Cons.prems(1)])
qed auto

text \<open>C34: A host that is exempt from one rule escapes all the rules after it. As soon as the loop
  reaches a rule whose \<open>hosts_to_skip\<close> lists the host, it returns: no later rule is consulted,
  whatever it matches, and unless an earlier rule was exceeded, the hits counted for earlier rules
  are thrown away.\<close>

theorem exempt_host_escapes_later_rules:
  assumes "host \<in> set (hosts_to_skip rule)"
  shows "try_match full_match (rs1 @ rule # rs2) ip ats_record host st =
           try_match_loop full_match (length (rs1 @ rule # rs2)) ip ats_record host (rs1 @ [rule]) None st \<and>
         (try_match full_match (rs1 @ rule # rs2) ip ats_record host st = Inr (None, st') \<longrightarrow>
            regex_manager_ip_db st' = regex_manager_ip_db st)"
  using try_match_loop_cut [OF assms] try_match_loop_cut_none [OF assms]
  unfolding try_match_def by blast

theorem exempt_host_escapes_later_rules_witness:
  "try_match (\<lambda>_ _. True) [make_rule 0 ''a'' ''x'' 5 3 [''h''], make_rule 1 ''b'' ''.*'' 5 0 []] ''1.2.3.4'' ''r'' ''h''
     sample_regex_state = Inr (None, sample_regex_state)"
  using exempt_host_escapes_later_rules [of "''h''" "make_rule 0 ''a'' ''x'' 5 3 [''h'']" "\<lambda>_ _. True" "[]"
      "[make_rule 1 ''b'' ''.*'' 5 0 []]" "''1.2.3.4''" "''r''" sample_regex_state]
  by (simp add: make_rule_def)

subsection \<open>Rounding\<close>

text \<open>Hits in an open interval: each adds the rounded reciprocal of the interval to the rounded sum.\<close>

lemma hit_in_window:
  "begin_msec s \<noteq> 0 \<Longrightarrow> window_movement now (begin_msec s) i \<le> 0 \<Longrightarrow>
   update_regex_state i now s = s\<lparr>rate := fconv round32 (fadd round64 (rate s) (one_hit i))\<rparr>"
  by (simp add: update_regex_state_def Let_def)

lemma first_hit:
  "word_of_int now \<noteq> (0 :: 64 word) \<Longrightarrow>
   update_regex_state i now empty_regex_state =
     \<lparr>begin_msec = word_of_int now, rate = fconv round32 (fadd round64 (Fin 0) (one_hit i))\<rparr>"
  using window_movement_fresh [of now i] by (simp add: update_regex_state_def empty_regex_state_def Let_def)

definition rounded_hits :: "32 word \<Rightarrow> nat \<Rightarrow> fp" where
  "rounded_hits i n = ((\<lambda>r. fconv round32 (fadd round64 r (one_hit i))) ^^ n) (Fin 0)"

lemma hits_at_once:
  "word_of_int now \<noteq> (0 :: 64 word) \<Longrightarrow> 0 < n \<Longrightarrow>
   (update_regex_state i now ^^ n) empty_regex_state = \<lparr>begin_msec = word_of_int now, rate = rounded_hits i n\<rparr>"
proof (induction n)
  case (Suc n)
  then show ?case
    using first_hit [of now i] window_movement_fresh [of now i]
    by (cases n) (simp_all add: rounded_hits_def hit_in_window)
qed simp

lemma double_5000: "round64 5000 = Fin 5000"
  unfolding round64_def by (rule round_fpI [where k = 12 and m = 5497558138880000]) (simp_all add: pow2_def)

lemma double_3: "round64 3 = Fin 3"
  unfolding round64_def by (rule round_fpI [where k = 1 and m = 6755399441055744]) (simp_all add: pow2_def)

lemma double_3_5000: "round64 (3 / 5000) = Fin (5534023222112865 / 9223372036854775808)"
  unfolding round64_def by (rule round_fpI [where k = "- 11" and m = 5534023222112865]) (simp_all add: pow2_def)

lemma float_3_5000: "round32 (5534023222112865 / 9223372036854775808) = Fin (5153961 / 8589934592)"
  unfolding round32_def by (rule round_fpI [where k = "- 11" and m = 10307922]) (simp_all add: pow2_def)

lemma one_hit_5000: "one_hit 5000 = Fin (7378697629483821 / 36893488147419103232)"
  by (simp add: one_hit_def of_integer_def double_5000 round_example)

lemma hit1: "fconv round32 (fadd round64 (Fin 0) (one_hit 5000)) = Fin (13743895 / 68719476736)"
proof -
  have "round64 (7378697629483821 / 36893488147419103232) = Fin (7378697629483821 / 36893488147419103232)"
    unfolding round64_def by (rule round_fpI [where k = "- 13" and m = 7378697629483821]) (simp_all add: pow2_def)
  moreover have "round32 (7378697629483821 / 36893488147419103232) = Fin (13743895 / 68719476736)"
    unfolding round32_def by (rule round_fpI [where k = "- 13" and m = 13743895]) (simp_all add: pow2_def)
  ultimately show ?thesis by (simp add: one_hit_5000)
qed

lemma hit2: "fconv round32 (fadd round64 (Fin (13743895 / 68719476736)) (one_hit 5000)) = Fin (13743895 / 34359738368)"
proof -
  have "round64 (14757395072566061 / 36893488147419103232) = Fin (3689348768141515 / 9223372036854775808)"
    unfolding round64_def by (rule round_fpI [where k = "- 12" and m = 7378697536283030]) (simp_all add: pow2_def)
  moreover have "round32 (3689348768141515 / 9223372036854775808) = Fin (13743895 / 34359738368)"
    unfolding round32_def by (rule round_fpI [where k = "- 12" and m = 13743895]) (simp_all add: pow2_def)
  ultimately show ?thesis by (simp add: one_hit_5000)
qed

lemma hit3: "fconv round32 (fadd round64 (Fin (13743895 / 34359738368)) (one_hit 5000)) = Fin (10307921 / 17179869184)"
proof -
  have "round64 (22136092515648301 / 36893488147419103232) = Fin (5534023128912075 / 9223372036854775808)"
    unfolding round64_def by (rule round_fpI [where k = "- 11" and m = 5534023128912075]) (simp_all add: pow2_def)
  moreover have "round32 (5534023128912075 / 9223372036854775808) = Fin (10307921 / 17179869184)"
    unfolding round32_def by (rule round_fpI [where k = "- 11" and m = 10307921]) (simp_all add: pow2_def)
  ultimately show ?thesis by (simp add: one_hit_5000)
qed

lemma hit4: "fconv round32 (fadd round64 (Fin (10307921 / 17179869184)) (one_hit 5000)) = Fin (13743895 / 17179869184)"
proof -
  have "round64 (29514789421859629 / 36893488147419103232) = Fin (7378697355464907 / 9223372036854775808)"
    unfolding round64_def by (rule round_fpI [where k = "- 11" and m = 7378697355464907]) (simp_all add: pow2_def)
  moreover have "round32 (7378697355464907 / 9223372036854775808) = Fin (13743895 / 17179869184)"
    unfolding round32_def by (rule round_fpI [where k = "- 11" and m = 13743895]) (simp_all add: pow2_def)
  ultimately show ?thesis by (simp add: one_hit_5000)
qed

lemma rounded_hits_3: "rounded_hits 5000 3 = Fin (10307921 / 17179869184)"
  by (simp only: rounded_hits_def numeral_3_eq_3 funpow.simps comp_apply id_apply hit1 hit2 hit3)

lemma rounded_hits_4: "rounded_hits 5000 4 = Fin (13743895 / 17179869184)"
proof -
  have "(4 :: nat) = Suc 3" by simp
  then have "rounded_hits 5000 4 = fconv round32 (fadd round64 (rounded_hits 5000 3) (one_hit 5000))"
    by (simp only: rounded_hits_def funpow.simps comp_apply)
  then show ?thesis by (simp only: rounded_hits_3 hit4)
qed

text \<open>The configured number of hits is not always the number that bans. With
  \<open>interval: 5\<close> and \<open>hits_per_interval: 3\<close>, three hits of a new address in the same millisecond do
  not reach the rule's rate, because the sum of the rounded reciprocals falls short of the rounded
  quotient; only the fourth hit does.\<close>

theorem third_hit_does_not_reach_limit_of_three:
  assumes "word_of_int now \<noteq> (0 :: 64 word)"
  shows "(let rule = make_rule 0 name pattern 5 3 skip;
              state_after = (\<lambda>n. (update_regex_state (interval rule) now ^^ n) empty_regex_state)
          in \<not> fge (rate (state_after 3)) (rr_rate rule) \<and> fge (rate (state_after 4)) (rr_rate rule))"
proof -
  have "rr_rate (make_rule 0 name pattern 5 3 skip) = Fin (5153961 / 8589934592)"
    by (simp add: make_rule_def of_integer_def double_5000 double_3 double_3_5000 float_3_5000)
  then have "\<not> fge (rounded_hits 5000 3) (rr_rate (make_rule 0 name pattern 5 3 skip))"
    "fge (rounded_hits 5000 4) (rr_rate (make_rule 0 name pattern 5 3 skip))"
    by (simp_all add: rounded_hits_3 rounded_hits_4 fge_def)
  moreover have "interval (make_rule 0 name pattern 5 3 skip) = 5000"
    by (simp add: make_rule_def)
  ultimately show ?thesis
    by (simp add: Let_def hits_at_once [OF assms])
qed

theorem third_hit_does_not_reach_limit_of_three_witness:
  "\<not> fge (rate ((update_regex_state (interval sample_rule) 1000 ^^ 3) empty_regex_state)) (rr_rate sample_rule)"
  using third_hit_does_not_reach_limit_of_three [of 1000 "''r''" "''.*''" "[]"]
  by (simp add: Let_def sample_rule_def)

end
