(* ===== verification/Reports.thy ===== *)
theory Reports
  imports RegexManager
begin

text \<open>
  The reports Banjax publishes on its Kafka topic: \<open>KafkaProducer::send_message\<close> (kafka.cpp) and the
  \<open>report_*\<close> functions of banjax.cpp that the challenger calls through \<open>BanjaxInterface\<close>. A JSON
  object is the list of its members in the order the code sets them. librdkafka's \<open>produce\<close> either
  takes a message or refuses it; its answers are \<open>produce_ok\<close>, and \<open>kafka_sent\<close> lists the messages
  handed to it.
\<close>

datatype json =
    JNull | JBool bool | JNumber int | JFloat "32 word" | JString string | JArray "json list" | JObject "(string \<times> json) list"

record report_state = regex_state +
  challenger_ip_db :: "64 word ip_table"
  kafka_producer :: bool
  host_name :: string
  kafka_sent :: "json list"
  produce_ok :: "nat \<Rightarrow> bool"

definition send_message :: "json \<Rightarrow> 's report_state_scheme \<Rightarrow> int \<times> 's report_state_scheme" where
  "send_message m st =
     (if produce_ok st (length (kafka_sent st)) then 0 else - 1, st\<lparr>kafka_sent := kafka_sent st @ [m]\<rparr>)"

text \<open>The count of an address, as the reports give it: null if the table cannot be locked.\<close>

definition challenger_db_value :: "string \<Rightarrow> 's report_state_scheme \<Rightarrow> json \<times> 's report_state_scheme" where
  "challenger_db_value ip st =
     (let (n, st1) = get_ip_state 0 ip (challenger_ip_db st) st in
      (case n of Some k \<Rightarrow> JNumber (uint k) | None \<Rightarrow> JNull, st1))"

definition report_pass_or_failure :: "string \<Rightarrow> string \<Rightarrow> bool \<Rightarrow> 's report_state_scheme \<Rightarrow> int \<times> 's report_state_scheme" where
  "report_pass_or_failure site ip passed st =
     (if \<not> kafka_producer st then (- 1, st)
      else let (v, st1) = challenger_db_value ip st in
        send_message (JObject
          [(''id'', JString (host_name st)),
           (''name'', JString (if passed then ''ip_passed_challenge'' else ''ip_failed_challenge'')),
           (''value_ip'', JString ip), (''value_site'', JString site), (''value_challenger_db'', v)]) st1)"

definition report_pass_or_failure2 :: "string \<Rightarrow> string \<Rightarrow> bool \<Rightarrow> 's report_state_scheme \<Rightarrow> int \<times> 's report_state_scheme" where
  "report_pass_or_failure2 site ip passed st =
     (if \<not> kafka_producer st then (- 1, st)
      else let (v, st1) = challenger_db_value ip st in
        send_message (JObject
          [(''id'', JString (host_name st)),
           (''name'', JString (if passed then ''ip_passed_challenge2'' else ''ip_failed_challenge2'')),
           (''value_ip'', JString ip), (''value_site'', JString site), (''value_challenger_db'', v)]) st1)"

definition report_ip_banned :: "string \<Rightarrow> string \<Rightarrow> 's report_state_scheme \<Rightarrow> int \<times> 's report_state_scheme" where
  "report_ip_banned site ip st =
     (if \<not> kafka_producer st then (- 1, st)
      else let (v, st1) = challenger_db_value ip st in
        send_message (JObject
          [(''id'', JString (host_name st)), (''name'', JString ''ip_banned''),
           (''value_ip'', JString ip), (''value_site'', JString site), (''value_challenger_db'', v)]) st1)"

definition report_if_ip_in_database :: "string \<Rightarrow> 's report_state_scheme \<Rightarrow> int \<times> 's report_state_scheme" where
  "report_if_ip_in_database ip st =
     (if \<not> kafka_producer st then (- 1, st)
      else let (v, st1) = challenger_db_value ip st in
        send_message (JObject
          [(''name'', JString ''ip_in_database''), (''value_ip'', JString ip), (''value_challenger_db'', v)]) st1)"

section \<open>Frame\<close>

text \<open>A report changes only the list of sent messages and the world's counter.\<close>

definition reports_only :: "'s report_state_scheme \<Rightarrow> 's report_state_scheme \<Rightarrow> bool" where
  "reports_only st st' \<longleftrightarrow> (\<exists>t msgs. st' = st\<lparr>tick := t, kafka_sent := kafka_sent st @ msgs\<rparr>)"

lemma reports_only_refl [simp]: "reports_only st st"
  unfolding reports_only_def by (intro exI [of _ "tick st"] exI [of _ "[]"]) simp

lemma reports_only_trans: "reports_only a b \<Longrightarrow> reports_only b c \<Longrightarrow> reports_only a c"
  unfolding reports_only_def
proof (elim exE)
  fix t msgs t' msgs'
  assume "b = a\<lparr>tick := t, kafka_sent := kafka_sent a @ msgs\<rparr>" "c = b\<lparr>tick := t', kafka_sent := kafka_sent b @ msgs'\<rparr>"
  then show "\<exists>t msgs. c = a\<lparr>tick := t, kafka_sent := kafka_sent a @ msgs\<rparr>"
    by (intro exI [of _ t'] exI [of _ "msgs @ msgs'"]) simp
qed

lemma reports_only_tick [simp]: "reports_only st (st\<lparr>tick := n\<rparr>)"
  unfolding reports_only_def by (intro exI [of _ n] exI [of _ "[]"]) simp

lemmas report_defs = report_pass_or_failure_def report_pass_or_failure2_def report_ip_banned_def report_if_ip_in_database_def

lemma challenger_db_value_only: "reports_only st (snd (challenger_db_value ip st))"
  by (simp add: challenger_db_value_def get_ip_state_def world_simps case_prod_beta Let_def split: option.splits)

lemma send_message_only: "reports_only st (snd (send_message m st))"
  unfolding reports_only_def send_message_def by (intro exI [of _ "tick st"] exI [of _ "[m]"]) simp

lemma report_only [simp]:
  "reports_only st (snd (report_pass_or_failure site ip passed st))"
  "reports_only st (snd (report_pass_or_failure2 site ip passed st))"
  "reports_only st (snd (report_ip_banned site ip st))"
  "reports_only st (snd (report_if_ip_in_database ip st))"
  unfolding report_defs
  by (auto simp: case_prod_beta Let_def intro: reports_only_trans [OF challenger_db_value_only send_message_only])

end
