(* ===== verification/Base64.thy ===== *)
theory Base64
  imports Prelude
begin

text \<open>
  The base64 codec of base64.cpp: \<open>Encode\<close> writes 6-bit digits into a buffer that was filled
  with \<open>=\<close> signs, \<open>Decode\<close> skips white space and \<open>=\<close> and rejects every other character
  outside the alphabet. Both collect bits in a 32-bit accumulator whose high bits are left to
  overflow. The round trip is proved through the bit sequence both loops preserve.
\<close>

section \<open>The tables\<close>

definition b64_table :: string where
  "b64_table = ''ABCDEFGHIJKLMNOPQRSTUVWXYZabcdefghijklmnopqrstuvwxyz0123456789+/''"

definition reverse_table :: "nat list" where
  "reverse_table =
    [64, 64, 64, 64, 64, 64, 64, 64, 64, 64, 64, 64, 64, 64, 64, 64,
     64, 64, 64, 64, 64, 64, 64, 64, 64, 64, 64, 64, 64, 64, 64, 64,
     64, 64, 64, 64, 64, 64, 64, 64, 64, 64, 64, 62, 64, 64, 64, 63,
     52, 53, 54, 55, 56, 57, 58, 59, 60, 61, 64, 64, 64, 64, 64, 64,
     64,  0,  1,  2,  3,  4,  5,  6,  7,  8,  9, 10, 11, 12, 13, 14,
     15, 16, 17, 18, 19, 20, 21, 22, 23, 24, 25, 64, 64, 64, 64, 64,
     64, 26, 27, 28, 29, 30, 31, 32, 33, 34, 35, 36, 37, 38, 39, 40,
     41, 42, 43, 44, 45, 46, 47, 48, 49, 50, 51, 64, 64, 64, 64, 64]"

section \<open>Encode\<close>

text \<open>The inner loop: \<open>while (bits_collected >= 6)\<close>.\<close>

fun encode_drain :: "32 word \<Rightarrow> nat \<Rightarrow> nat \<Rightarrow> string \<Rightarrow> nat \<times> nat \<times> string" where
  "encode_drain accumulator bits_collected outpos retval =
     (if 6 \<le> bits_collected then
        encode_drain accumulator (bits_collected - 6) (Suc outpos)
          (retval[outpos :=
             b64_table ! unat ((drop_bit (bits_collected - 6) accumulator) AND 0x3f)])
      else (bits_collected, outpos, retval))"

declare encode_drain.simps [simp del]

text \<open>The outer loop over the bytes of \<open>bindata\<close>, then the trailing bits.\<close>

fun encode_loop :: "string \<Rightarrow> 32 word \<Rightarrow> nat \<Rightarrow> nat \<Rightarrow> string \<Rightarrow> nat \<times> string" where
  "encode_loop [] accumulator bits_collected outpos retval =
     (if 0 < bits_collected then
        (Suc outpos,
         retval[outpos := b64_table ! unat (push_bit (6 - bits_collected) accumulator AND 0x3f)])
      else (outpos, retval))"
| "encode_loop (i # bin) accumulator bits_collected outpos retval =
     (let accumulator' = push_bit 8 accumulator OR (of_char i AND 0xff);
          (bits_collected', outpos', retval') =
             encode_drain accumulator' (bits_collected + 8) outpos retval
      in encode_loop bin accumulator' bits_collected' outpos' retval')"

definition encode_length :: "nat \<Rightarrow> nat" where
  "encode_length binlen = (binlen + 2) div 3 * 4"

definition Encode :: "string \<Rightarrow> string result" where
  "Encode bindata =
     (if int (length bindata) > (2 ^ 64 - 1) div 4 * 3 then Inl LengthError
      else Inr (snd (encode_loop bindata 0 0 0
                       (replicate (encode_length (length bindata)) (CHR ''='')))))"

section \<open>Decode\<close>

text \<open>One significant character: \<open>None\<close> for a character that is not legal. A byte of 128 or
  more is a negative \<open>char\<close>, rejected by \<open>c < 0\<close>.\<close>

definition b64_skip :: "char \<Rightarrow> bool" where
  "b64_skip c \<longleftrightarrow> isspace c \<or> c = CHR ''=''"

definition b64_digit :: "char \<Rightarrow> nat option" where
  "b64_digit c =
     (if 127 < (of_char c :: nat) \<or> 63 < reverse_table ! of_char c then None
      else Some (reverse_table ! of_char c))"

fun decode_loop :: "string \<Rightarrow> 32 word \<Rightarrow> nat \<Rightarrow> string \<Rightarrow> string result" where
  "decode_loop [] accumulator bits_collected retval = Inr retval"
| "decode_loop (c # data) accumulator bits_collected retval =
     (if b64_skip c then decode_loop data accumulator bits_collected retval
      else case b64_digit c of
        None \<Rightarrow> Inl InvalidArgument
      | Some d \<Rightarrow>
          let accumulator' = push_bit 6 accumulator OR word_of_nat d;
              bits' = bits_collected + 6
          in if 8 \<le> bits' then
               decode_loop data accumulator' (bits' - 8)
                 (retval @ [char_of (unat (drop_bit (bits' - 8) accumulator' AND 0xff))])
             else decode_loop data accumulator' bits' retval)"

definition Decode :: "string \<Rightarrow> string result" where
  "Decode data = decode_loop data 0 0 []"

section \<open>The bit sequence of a word\<close>

text \<open>The low \<open>n\<close> bits of a word, most significant first.\<close>

definition wbits :: "nat \<Rightarrow> 32 word \<Rightarrow> bool list" where
  "wbits n w = rev (map (bit w) [0..<n])"

lemma length_wbits [simp]: "length (wbits n w) = n"
  by (simp add: wbits_def)

lemma wbits_0 [simp]: "wbits 0 w = []"
  by (simp add: wbits_def)

lemma wbits_cong: "(\<And>i. i < n \<Longrightarrow> bit v i = bit w i) \<Longrightarrow> wbits n v = wbits n w"
  by (simp add: wbits_def)

lemma wbits_zero [simp]: "wbits n 0 = replicate n False"
  by (induction n) (simp_all add: wbits_def replicate_append_same)

lemma wbits_add: "wbits (m + k) w = wbits m (drop_bit k w) @ wbits k w"
proof -
  have "[0..<m + k] = [0..<k] @ [k..<k + m]"
    by (metis add.commute upt_add_eq_append zero_le)
  moreover have "map (bit w) [k..<k + m] = map (bit (drop_bit k w)) [0..<m]"
    by (simp add: map_eq_conv bit_drop_bit_eq list_eq_iff_nth_eq)
  ultimately show ?thesis by (simp add: wbits_def)
qed

lemma wbits_mask: "wbits k (x AND mask k) = wbits k x"
  by (rule wbits_cong) (auto simp: bit_simps dest: bit_imp_le_length)

lemma wbits_push:
  assumes "m + k \<le> 32" and "\<And>j. k \<le> j \<Longrightarrow> \<not> bit b j"
  shows "wbits (m + k) (push_bit k acc OR b) = wbits m acc @ wbits k b"
proof -
  have "wbits m (drop_bit k (push_bit k acc OR b)) = wbits m acc"
    using assms by (intro wbits_cong) (simp add: bit_simps)
  moreover have "wbits k (push_bit k acc OR b) = wbits k b"
    using assms by (intro wbits_cong) (simp add: bit_simps)
  ultimately show ?thesis by (simp add: wbits_add)
qed

abbreviation mask_bits :: "nat \<Rightarrow> 32 word \<Rightarrow> bool" where
  "mask_bits k b \<equiv> b AND mask k = b"

lemma mask_bits_high: "mask_bits k b \<Longrightarrow> k \<le> j \<Longrightarrow> \<not> bit b j"
  by (metis bit_and_iff bit_mask_iff not_le)

lemma wbits_inj:
  assumes "mask_bits k v" and "mask_bits k w" and "wbits k v = wbits k w"
  shows "v = w"
proof (rule bit_word_eqI)
  fix i
  show "bit v i = bit w i"
  proof (cases "i < k")
    case True
    with assms(3) show ?thesis by (simp add: wbits_def)
  next
    case False
    with assms(1,2) show ?thesis by (simp add: mask_bits_high)
  qed
qed

lemma unat_of_char32 [simp]: "unat (of_char c :: 32 word) = of_char c"
proof -
  have "(of_char c :: nat) < 2 ^ 32"
    using nat_of_char_less_256 [of c] by (rule less_le_trans) simp
  then have "unat (word_of_nat (of_char c) :: 32 word) = of_char c"
    by (simp add: unsigned_of_nat take_bit_nat_eq_self)
  then show ?thesis by (simp only: of_nat_of_char)
qed

lemma mask_bits_of_char [simp]: "mask_bits 8 (of_char c)"
proof -
  have "uint (of_char c :: 32 word) = int (of_char c)"
    by (simp add: uint_nat)
  then show ?thesis
    using nat_of_char_less_256 [of c] by (simp add: mask_eq_iff)
qed

lemma mask_bits_less: "mask_bits k d \<Longrightarrow> unat d < 2 ^ k"
proof -
  assume "mask_bits k d"
  then have "uint d < 2 ^ k" by (simp add: mask_eq_iff)
  then have "nat (uint d) < nat (2 ^ k)" by (subst nat_less_eq_zless) simp_all
  then show ?thesis by (simp add: nat_power_eq)
qed

lemma mask_bits_AND [simp]: "mask_bits k (x AND mask k)"
  by (simp add: and.assoc)

section \<open>What the encoder writes\<close>

text \<open>The digits \<open>encode_drain\<close> takes from the accumulator, and the buffer after the digits
  \<open>ds\<close> have been written into \<open>n\<close> padding characters.\<close>

fun drain_digits :: "32 word \<Rightarrow> nat \<Rightarrow> 32 word list" where
  "drain_digits acc bc =
     (if 6 \<le> bc then (drop_bit (bc - 6) acc AND 0x3f) # drain_digits acc (bc - 6) else [])"

declare drain_digits.simps [simp del]

definition b64_buffer :: "nat \<Rightarrow> 32 word list \<Rightarrow> string" where
  "b64_buffer n ds = map (\<lambda>d. b64_table ! unat d) ds @ replicate (n - length ds) (CHR ''='')"

lemma b64_buffer_write:
  assumes "length ds < n"
  shows "(b64_buffer n ds)[length ds := b64_table ! unat d] = b64_buffer n (ds @ [d])"
proof -
  obtain k where "n - length ds = Suc k"
    using assms by (metis Suc_diff_Suc)
  moreover from this have "n - Suc (length ds) = k" by simp
  ultimately show ?thesis
    by (simp add: b64_buffer_def list_update_append)
qed

lemma encode_drain_buffer:
  "length ds + bc div 6 \<le> n \<Longrightarrow>
   encode_drain acc bc (length ds) (b64_buffer n ds) =
     (bc mod 6, length ds + bc div 6, b64_buffer n (ds @ drain_digits acc bc))"
proof (induction acc bc arbitrary: ds rule: drain_digits.induct)
  case (1 acc bc)
  show ?case
  proof (cases "6 \<le> bc")
    case True
    then have q: "bc div 6 = Suc ((bc - 6) div 6)" "bc mod 6 = (bc - 6) mod 6"
      by (simp_all add: le_div_geq le_mod_geq)
    let ?d = "drop_bit (bc - 6) acc AND 0x3f"
    have w: "(b64_buffer n ds)[length ds := b64_table ! unat ?d] = b64_buffer n (ds @ [?d])"
      using "1.prems" q by (intro b64_buffer_write) simp
    have "encode_drain acc (bc - 6) (length (ds @ [?d])) (b64_buffer n (ds @ [?d])) =
        ((bc - 6) mod 6, length (ds @ [?d]) + (bc - 6) div 6,
         b64_buffer n ((ds @ [?d]) @ drain_digits acc (bc - 6)))"
      using "1.prems" q by (intro "1.IH" True) simp
    then show ?thesis
      using True w q
      by (simp add: encode_drain.simps [of acc bc] drain_digits.simps [of acc bc])
  next
    case False
    then show ?thesis
      by (simp add: encode_drain.simps [of acc bc] drain_digits.simps [of acc bc])
  qed
qed

lemma length_drain_digits: "length (drain_digits acc bc) = bc div 6"
proof (induction acc bc rule: drain_digits.induct)
  case (1 acc bc)
  then show ?case
    by (cases "6 \<le> bc") (simp_all add: drain_digits.simps [of acc bc] le_div_geq)
qed

lemma drain_digits_bits:
  "concat (map (wbits 6) (drain_digits acc bc)) @ wbits (bc mod 6) acc = wbits bc acc"
proof (induction acc bc rule: drain_digits.induct)
  case (1 acc bc)
  show ?case
  proof (cases "6 \<le> bc")
    case True
    have "wbits 6 (drop_bit (bc - 6) acc AND 0x3f) = wbits 6 (drop_bit (bc - 6) acc)"
      using wbits_mask [of 6 "drop_bit (bc - 6) acc"] by (simp add: mask_eq_exp_minus_1)
    moreover have "wbits bc acc = wbits 6 (drop_bit (bc - 6) acc) @ wbits (bc - 6) acc"
      using wbits_add [of 6 "bc - 6" acc] True by simp
    moreover have "bc mod 6 = (bc - 6) mod 6"
      using True by (simp add: le_mod_geq)
    ultimately show ?thesis
      using "1.IH" True by (simp add: drain_digits.simps [of acc bc])
  next
    case False
    then show ?thesis by (simp add: drain_digits.simps [of acc bc])
  qed
qed

lemma drain_digits_mask: "d \<in> set (drain_digits acc bc) \<Longrightarrow> mask_bits 6 d"
proof (induction acc bc rule: drain_digits.induct)
  case (1 acc bc)
  then show ?case
    using mask_bits_AND [of "drop_bit (bc - 6) acc" 6]
    by (auto simp: drain_digits.simps [of acc bc] mask_eq_exp_minus_1 split: if_splits)
qed

text \<open>The whole encoder: the digits carry the bits of the input, padded with zeros to a
  multiple of six, and there is room for all of them in the buffer.\<close>

abbreviation byte_bits :: "char \<Rightarrow> bool list" where
  "byte_bits c \<equiv> wbits 8 (of_char c)"

lemma encode_loop_digits:
  assumes "bc < 6" and "6 * length ds + bc + 8 * length bin \<le> 6 * n"
    and "\<forall>d \<in> set ds. mask_bits 6 d"
  shows "\<exists>ds' pad. encode_loop bin acc bc (length ds) (b64_buffer n ds) =
             (length ds', b64_buffer n ds') \<and>
           concat (map (wbits 6) ds') =
             concat (map (wbits 6) ds) @ wbits bc acc @ concat (map byte_bits bin) @
             replicate pad False \<and>
           pad < 6 \<and> length ds' \<le> n \<and> (\<forall>d \<in> set ds'. mask_bits 6 d)"
  using assms
proof (induction bin arbitrary: acc bc ds)
  case Nil
  show ?case
  proof (cases "0 < bc")
    case True
    let ?d = "push_bit (6 - bc) acc AND 0x3f"
    have "wbits 6 ?d = wbits 6 (push_bit (6 - bc) acc OR 0)"
      using wbits_mask [of 6 "push_bit (6 - bc) acc"] by (simp add: mask_eq_exp_minus_1)
    also have "\<dots> = wbits bc acc @ replicate (6 - bc) False"
      using wbits_push [of bc "6 - bc" 0 acc] Nil.prems(1) by simp
    finally have d: "wbits 6 ?d = wbits bc acc @ replicate (6 - bc) False" .
    have l: "length ds < n" using Nil.prems(2) True by simp
    have m: "mask_bits 6 ?d"
      using mask_bits_AND [of "push_bit (6 - bc) acc" 6] by (simp add: mask_eq_exp_minus_1)
    show ?thesis
      using True d l m Nil.prems(3)
      by (intro exI [of _ "ds @ [?d]"] exI [of _ "6 - bc"]) (simp add: b64_buffer_write)
  next
    case False
    with Nil.prems show ?thesis
      by (intro exI [of _ ds] exI [of _ 0]) simp
  qed
next
  case (Cons c bin)
  let ?acc = "push_bit 8 acc OR (of_char c AND 0xff)"
  let ?bc = "bc + 8"
  let ?ds = "ds @ drain_digits ?acc ?bc"
  have bits: "wbits ?bc ?acc = wbits bc acc @ byte_bits c"
  proof -
    have "of_char c AND 0xff = (of_char c :: 32 word)"
      using mask_bits_of_char [of c] by (simp add: mask_eq_exp_minus_1)
    then show ?thesis
      using Cons.prems(1) mask_bits_high [OF mask_bits_of_char, of _ c]
      by (simp add: wbits_push)
  qed
  have len: "length ?ds = length ds + ?bc div 6"
    by (simp add: length_drain_digits)
  have step: "encode_loop (c # bin) acc bc (length ds) (b64_buffer n ds) =
      encode_loop bin ?acc (?bc mod 6) (length ?ds) (b64_buffer n ?ds)"
    using Cons.prems by (simp add: Let_def encode_drain_buffer length_drain_digits)
  have IH: "\<exists>ds' pad. encode_loop bin ?acc (?bc mod 6) (length ?ds) (b64_buffer n ?ds) =
             (length ds', b64_buffer n ds') \<and>
           concat (map (wbits 6) ds') =
             concat (map (wbits 6) ?ds) @ wbits (?bc mod 6) ?acc @
             concat (map byte_bits bin) @ replicate pad False \<and>
           pad < 6 \<and> length ds' \<le> n \<and> (\<forall>d \<in> set ds'. mask_bits 6 d)"
  proof (rule Cons.IH)
    have "6 * (?bc div 6) + ?bc mod 6 = ?bc" by simp
    then show "6 * length ?ds + ?bc mod 6 + 8 * length bin \<le> 6 * n"
      using Cons.prems(2) len by simp
    show "\<forall>d \<in> set ?ds. mask_bits 6 d"
      using Cons.prems(3) by (auto dest: drain_digits_mask)
  qed simp
  have "concat (map (wbits 6) ?ds) @ wbits (?bc mod 6) ?acc =
      concat (map (wbits 6) ds) @ wbits bc acc @ byte_bits c"
    using drain_digits_bits [of ?acc ?bc] bits by simp
  then show ?case
    using IH unfolding step by (auto simp: append_assoc [symmetric] simp del: append_assoc)
qed

section \<open>What the decoder reads\<close>

text \<open>Every digit of the alphabet is read back; checked by evaluating all 64 of them.\<close>

lemma b64_table_digits: "map b64_digit b64_table = map Some [0..<64]"
  by (simp add: b64_table_def b64_digit_def reverse_table_def upt_conv_Cons)

lemma b64_table_not_skipped: "list_all (\<lambda>c. \<not> b64_skip c) b64_table"
  by (simp add: b64_table_def b64_skip_def isspace_def)

lemma length_b64_table [simp]: "length b64_table = 64"
  by (simp add: b64_table_def)

lemma b64_table_digit:
  assumes "n < 64"
  shows "b64_digit (b64_table ! n) = Some n" and "\<not> b64_skip (b64_table ! n)"
proof -
  have "map b64_digit b64_table ! n = map Some [0..<64] ! n"
    by (simp only: b64_table_digits)
  with assms show "b64_digit (b64_table ! n) = Some n" by simp
  show "\<not> b64_skip (b64_table ! n)"
    using assms b64_table_not_skipped by (simp add: list_all_length)
qed

lemma decode_loop_digits:
  assumes "bc < 8" and "\<forall>d \<in> set ds. mask_bits 6 d"
  shows "\<exists>out bc' acc'. decode_loop (map (\<lambda>d. b64_table ! unat d) ds @ rest) acc bc rv =
             decode_loop rest acc' bc' (rv @ out) \<and>
           concat (map byte_bits out) @ wbits bc' acc' = wbits bc acc @ concat (map (wbits 6) ds) \<and>
           bc' < 8"
  using assms
proof (induction ds arbitrary: acc bc rv)
  case Nil
  then show ?case by (intro exI [of _ "[]"] exI [of _ bc] exI [of _ acc]) simp
next
  case (Cons d ds)
  let ?acc = "push_bit 6 acc OR d"
  from Cons.prems have d: "mask_bits 6 d" and ds: "\<forall>d \<in> set ds. mask_bits 6 d" by auto
  have dig: "b64_digit (b64_table ! unat d) = Some (unat d)" "\<not> b64_skip (b64_table ! unat d)"
    using b64_table_digit [of "unat d"] mask_bits_less [OF d] by simp_all
  have bits: "wbits (bc + 6) ?acc = wbits bc acc @ wbits 6 d"
    using Cons.prems(1) mask_bits_high [OF d] by (intro wbits_push) auto
  show ?case
  proof (cases "8 \<le> bc + 6")
    case True
    let ?byte = "char_of (unat (drop_bit (bc + 6 - 8) ?acc AND 0xff)) :: char"
    have "wbits 8 (of_char ?byte) = wbits 8 (drop_bit (bc + 6 - 8) ?acc)"
    proof -
      have "unat (drop_bit (bc + 6 - 8) ?acc AND 0xff) < 256"
        using mask_bits_less [OF mask_bits_AND [of "drop_bit (bc + 6 - 8) ?acc" 8]]
        by (simp add: mask_eq_exp_minus_1)
      then have "(of_char ?byte :: 32 word) = drop_bit (bc + 6 - 8) ?acc AND 0xff"
        by (simp add: word_unat_eq_iff)
      then show ?thesis
        using wbits_mask [of 8 "drop_bit (bc + 6 - 8) ?acc"] by (simp add: mask_eq_exp_minus_1)
    qed
    moreover have "wbits (bc + 6) ?acc =
        wbits 8 (drop_bit (bc + 6 - 8) ?acc) @ wbits (bc + 6 - 8) ?acc"
      using wbits_add [of 8 "bc + 6 - 8" ?acc] True by (simp add: add.commute)
    ultimately have b: "byte_bits ?byte @ wbits (bc + 6 - 8) ?acc = wbits bc acc @ wbits 6 d"
      using bits by simp
    have less: "bc + 6 - 8 < 8" using Cons.prems(1) by simp
    from Cons.IH [OF less ds, of ?acc "rv @ [?byte]"] obtain out bc' acc' where
      "decode_loop (map (\<lambda>d. b64_table ! unat d) ds @ rest) ?acc (bc + 6 - 8) (rv @ [?byte]) =
         decode_loop rest acc' bc' ((rv @ [?byte]) @ out)"
      "concat (map byte_bits out) @ wbits bc' acc' =
         wbits (bc + 6 - 8) ?acc @ concat (map (wbits 6) ds)" "bc' < 8"
      by blast
    moreover from this(2) b have
      "byte_bits ?byte @ concat (map byte_bits out) @ wbits bc' acc' =
         wbits bc acc @ wbits 6 d @ concat (map (wbits 6) ds)"
      by (metis append_assoc)
    ultimately show ?thesis
      using True dig
      by (intro exI [of _ "?byte # out"] exI [of _ bc'] exI [of _ acc']) (simp add: Let_def)
  next
    case False
    then have less: "bc + 6 < 8" by simp
    from Cons.IH [OF less ds, of ?acc rv] obtain out bc' acc' where
      "decode_loop (map (\<lambda>d. b64_table ! unat d) ds @ rest) ?acc (bc + 6) rv =
         decode_loop rest acc' bc' (rv @ out)"
      "concat (map byte_bits out) @ wbits bc' acc' =
         wbits (bc + 6) ?acc @ concat (map (wbits 6) ds)" "bc' < 8"
      by blast
    then show ?thesis
      using False dig bits
      by (intro exI [of _ out] exI [of _ bc'] exI [of _ acc']) (simp add: Let_def)
  qed
qed

lemma decode_loop_padding: "decode_loop (replicate k (CHR ''='')) acc bc rv = Inr rv"
  by (induction k) (simp_all add: b64_skip_def)

lemma concat_byte_bits_inj:
  "length xs = length ys \<Longrightarrow> concat (map byte_bits xs) @ u = concat (map byte_bits ys) @ v \<Longrightarrow>
   xs = ys \<and> u = v"
proof (induction xs ys rule: list_induct2)
  case (Cons x xs y ys)
  then have "byte_bits x = byte_bits y"
    and "concat (map byte_bits xs) @ u = concat (map byte_bits ys) @ v"
    by simp_all
  moreover have "(of_char x :: 32 word) = of_char y"
    by (rule wbits_inj [OF mask_bits_of_char mask_bits_of_char \<open>byte_bits x = byte_bits y\<close>])
  then have "x = y" by (metis of_char_eq_iff unat_of_char32)
  ultimately show ?case using Cons.IH by simp
qed simp

section \<open>The properties of the codec\<close>

lemma length_concat_const: "(\<And>x. length (f x) = k) \<Longrightarrow> length (concat (map f xs)) = k * length xs"
  by (induction xs) simp_all

text \<open>Everything the encoder promises about its buffer, from which the properties follow.\<close>

lemma encode_loop_buffer:
  fixes s :: string
  defines "n \<equiv> encode_length (length s)"
  obtains ds pad where "encode_loop s 0 0 0 (replicate n (CHR ''='')) = (length ds, b64_buffer n ds)"
    and "concat (map (wbits 6) ds) = concat (map byte_bits s) @ replicate pad False"
    and "pad < 6" and "length ds \<le> n" and "\<forall>d \<in> set ds. mask_bits 6 d"
proof -
  have "8 * length s \<le> 6 * n"
    unfolding n_def encode_length_def by simp
  then have "\<exists>ds' pad. encode_loop s 0 0 (length ([] :: 32 word list)) (b64_buffer n []) =
        (length ds', b64_buffer n ds') \<and>
      concat (map (wbits 6) ds') =
        concat (map (wbits 6) []) @ wbits 0 0 @ concat (map byte_bits s) @ replicate pad False \<and>
      pad < 6 \<and> length ds' \<le> n \<and> (\<forall>d \<in> set ds'. mask_bits 6 d)"
    by (intro encode_loop_digits) simp_all
  then show ?thesis using that by (auto simp: b64_buffer_def)
qed

lemma Encode_Inr:
  "int (length s) \<le> (2 ^ 64 - 1) div 4 * 3 \<Longrightarrow>
   Encode s = Inr (snd (encode_loop s 0 0 0
     (replicate (encode_length (length s)) (CHR ''=''))))"
  by (simp add: Encode_def)

lemma Decode_of_Encode:
  assumes "Encode s = Inr e"
  shows "Decode e = Inr s"
proof -
  let ?n = "encode_length (length s)"
  obtain ds pad where enc: "encode_loop s 0 0 0 (replicate ?n (CHR ''='')) = (length ds, b64_buffer ?n ds)"
    and bits: "concat (map (wbits 6) ds) = concat (map byte_bits s) @ replicate pad False"
    and pad: "pad < 6" and mask: "\<forall>d \<in> set ds. mask_bits 6 d"
    by (rule encode_loop_buffer)
  from assms enc have e: "e = b64_buffer ?n ds"
    by (auto simp: Encode_def split: if_splits)
  from decode_loop_digits [OF _ mask, of 0 "replicate (?n - length ds) (CHR ''='')" 0 "[]"]
  obtain out bc' acc' where
    dec: "Decode e = Inr out" and
    out: "concat (map byte_bits out) @ wbits bc' acc' = concat (map byte_bits s) @ replicate pad False"
    and bc': "bc' < 8"
    by (auto simp: Decode_def e b64_buffer_def decode_loop_padding bits)
  have "8 * length out + bc' = 8 * length s + pad"
    using arg_cong [OF out, of length] by (simp add: length_concat_const)
  with bc' pad have "length out = length s" by presburger
  then have "out = s" using concat_byte_bits_inj out by blast
  with dec show ?thesis by simp
qed

lemma Encode_length_and_alphabet:
  assumes "Encode s = Inr e"
  shows "length e = encode_length (length s)" and "set e \<subseteq> set b64_table \<union> {CHR ''=''}"
proof -
  let ?n = "encode_length (length s)"
  obtain ds where enc: "encode_loop s 0 0 0 (replicate ?n (CHR ''='')) = (length ds, b64_buffer ?n ds)"
    and len: "length ds \<le> ?n" and mask: "\<forall>d \<in> set ds. mask_bits 6 d"
    by (rule encode_loop_buffer)
  from assms enc have e: "e = b64_buffer ?n ds"
    by (auto simp: Encode_def split: if_splits)
  from len show "length e = ?n" by (simp add: e b64_buffer_def)
  have "b64_table ! unat d \<in> set b64_table" if "d \<in> set ds" for d
    using mask that mask_bits_less [of d 6] by (simp add: nth_mem)
  then show "set e \<subseteq> set b64_table \<union> {CHR ''=''}"
    by (auto simp: e b64_buffer_def)
qed

lemma Encode_no_NUL: "Encode s = Inr e \<Longrightarrow> NUL \<notin> set e"
proof -
  assume "Encode s = Inr e"
  then have "set e \<subseteq> set b64_table \<union> {CHR ''=''}" by (rule Encode_length_and_alphabet)
  moreover have "NUL \<notin> set b64_table \<union> {CHR ''=''}" by (simp add: b64_table_def)
  ultimately show ?thesis by blast
qed

lemma decode_loop_error_iff:
  "decode_loop s acc bc rv = Inl e \<longleftrightarrow>
     e = InvalidArgument \<and> (\<exists>c \<in> set s. \<not> b64_skip c \<and> b64_digit c = None)"
  by (induction s arbitrary: acc bc rv) (auto simp: Let_def split: option.splits)

lemma decode_loop_filter:
  "decode_loop (filter (\<lambda>c. \<not> b64_skip c) s) acc bc rv = decode_loop s acc bc rv"
  by (induction s arbitrary: acc bc rv) (auto simp: Let_def split: option.splits)

lemma decode_loop_length:
  "decode_loop s acc bc rv = Inr out \<Longrightarrow> bc < 8 \<Longrightarrow>
   8 * length out \<le> 8 * length rv + bc + 6 * length (filter (\<lambda>c. \<not> b64_skip c) s)"
proof (induction s arbitrary: acc bc rv)
  case Nil
  then show ?case by simp
next
  case (Cons c s)
  show ?case
  proof (cases "b64_skip c")
    case True
    with Cons show ?thesis by simp
  next
    case False
    with Cons.prems(1) obtain d where d: "b64_digit c = Some d"
      by (auto split: option.splits)
    show ?thesis
    proof (cases "8 \<le> bc + 6")
      case True
      with False d Cons.prems
      have "8 * length out \<le> 8 * Suc (length rv) + (bc + 6 - 8) +
          6 * length (filter (\<lambda>c. \<not> b64_skip c) s)"
        by (simp add: Let_def) (drule Cons.IH, simp_all)
      with False True show ?thesis by simp
    next
      case bc: False
      with False d Cons.prems
      have "8 * length out \<le> 8 * length rv + (bc + 6) + 6 * length (filter (\<lambda>c. \<not> b64_skip c) s)"
        by (simp add: Let_def) (drule Cons.IH, simp_all)
      with False show ?thesis by simp
    qed
  qed
qed

lemma Decode_length: "Decode s = Inr out \<Longrightarrow> 4 * length out \<le> 3 * length s"
proof -
  assume "Decode s = Inr out"
  then have "8 * length out \<le> 6 * length (filter (\<lambda>c. \<not> b64_skip c) s)"
    using decode_loop_length [of s 0 0 "[]" out] by (simp add: Decode_def)
  then show ?thesis
    using length_filter_le [of "\<lambda>c. \<not> b64_skip c" s] by linarith
qed

section \<open>The codec as an interface\<close>

text \<open>What the cookie code relies on: a printable, NUL-free encoding of bounded input with a
  known length, and a decoder that undoes it.\<close>

locale text_codec =
  fixes enc :: "string \<Rightarrow> string result"
    and dec :: "string \<Rightarrow> string result"
    and enc_len :: "nat \<Rightarrow> nat"
  assumes enc_total: "length s < 2 ^ 32 \<Longrightarrow> \<exists>e. enc s = Inr e"
    and enc_length: "enc s = Inr e \<Longrightarrow> length e = enc_len (length s)"
    and enc_printable: "enc s = Inr e \<Longrightarrow> NUL \<notin> set e"
    and dec_enc: "enc s = Inr e \<Longrightarrow> dec e = Inr s"
begin

lemma enc_inj: "enc s = Inr e \<Longrightarrow> enc t = Inr e \<Longrightarrow> s = t"
  by (metis dec_enc sum.inject(2))

lemma enc_cstr: "enc s = Inr e \<Longrightarrow> cstr e = e"
  by (rule cstr_id) (rule enc_printable)

lemma enc_obtain:
  assumes "length s < 2 ^ 32"
  obtains e where "enc s = Inr e" and "length e = enc_len (length s)" and "cstr e = e"
    and "dec e = Inr s"
  using enc_total [OF assms] enc_length enc_cstr dec_enc by blast

end

interpretation b64: text_codec Encode Decode encode_length
proof
  fix s e :: string
  show "length s < 2 ^ 32 \<Longrightarrow> \<exists>e. Encode s = Inr e"
    by (simp add: Encode_def)
  assume e: "Encode s = Inr e"
  show "length e = encode_length (length s)" by (rule Encode_length_and_alphabet [OF e])
  show "NUL \<notin> set e" by (rule Encode_no_NUL [OF e])
  show "Decode e = Inr s" by (rule Decode_of_Encode [OF e])
qed

text \<open>The text of a non-empty string does not begin with padding.\<close>

lemma Encode_hd:
  assumes "Encode s = Inr e" and "s \<noteq> []"
  shows "e \<noteq> [] \<and> hd e \<in> set b64_table"
proof -
  let ?n = "encode_length (length s)"
  obtain ds where enc: "encode_loop s 0 0 0 (replicate ?n (CHR ''='')) = (length ds, b64_buffer ?n ds)"
    and len: "length ds \<le> ?n" and mask: "\<forall>d \<in> set ds. mask_bits 6 d"
    by (rule encode_loop_buffer)
  from assms(1) enc have e: "e = b64_buffer ?n ds"
    by (auto simp: Encode_def split: if_splits)
  have "ds \<noteq> []"
  proof
    assume "ds = []"
    then have "filter (\<lambda>c. \<not> b64_skip c) e = []" by (simp add: e b64_buffer_def b64_skip_def)
    then have "Decode e = Inr []"
      using decode_loop_filter [of e] by (simp add: Decode_def)
    with Decode_of_Encode [OF assms(1)] assms(2) show False by simp
  qed
  then obtain d ds' where "ds = d # ds'" by (cases ds) auto
  moreover from this have "b64_table ! unat d \<in> set b64_table"
    using mask mask_bits_less [of d 6] by (simp add: nth_mem)
  ultimately show ?thesis by (simp add: e b64_buffer_def)
qed

section \<open>The encoding of RFC 4648\<close>

text \<open>The bits of the input, most significant first, in groups of six; the last one is filled with zeros. Each is
  the index of a character, and \<open>=\<close> fills the last group of four characters.\<close>

definition char_bits :: "char \<Rightarrow> bool list" where
  "char_bits c = map (bit (of_char c :: nat)) [7, 6, 5, 4, 3, 2, 1, 0]"

definition bits_value :: "bool list \<Rightarrow> nat" where
  "bits_value bs = horner_sum of_bool 2 (rev bs)"

function sextets :: "bool list \<Rightarrow> nat list" where
  "sextets bs =
     (if bs = [] then [] else bits_value (take 6 (bs @ replicate 5 False)) # sextets (drop 6 bs))"
  by pat_completeness auto
termination
  by (relation "measure length") auto

declare sextets.simps [simp del]

definition rfc4648 :: "string \<Rightarrow> string" where
  "rfc4648 s =
     (let ds = sextets (concat (map char_bits s)) in
      map ((!) b64_table) ds @ replicate ((4 - length ds mod 4) mod 4) (CHR ''=''))"

lemma byte_bits_char: "byte_bits c = char_bits c"
proof -
  have "rev [0..<8] = [7, 6, 5, 4, 3, 2, 1, 0]" by code_simp
  moreover have "bit (of_char c :: 32 word) i = bit (of_char c :: nat) i" if "i < 8" for i
  proof -
    have "bit (word_of_nat n :: 32 word) i = bit n i" for n using that by (simp add: bit_simps)
    from this [of "of_char c"] show ?thesis by (simp only: of_nat_of_char)
  qed
  ultimately show ?thesis by (auto simp: wbits_def char_bits_def rev_map)
qed

lemma bits_value_wbits:
  assumes "mask_bits 6 d"
  shows "bits_value (wbits 6 d) = unat d"
proof -
  have "bits_value (wbits 6 d) = horner_sum of_bool 2 (map (bit (unat d)) [0..<6])"
    by (simp add: bits_value_def wbits_def bit_unsigned_iff cong: map_cong)
  then show ?thesis using mask_bits_less [OF assms] by (simp add: horner_sum_bit_eq_take_bit take_bit_eq_mod)
qed

lemma sextets_digits:
  assumes "concat (map (wbits 6) ds) = bs @ replicate p False" and "p < 6" and "\<forall>d \<in> set ds. mask_bits 6 d"
  shows "sextets bs = map unat ds"
  using assms
proof (induction ds arbitrary: bs)
  case Nil
  then show ?case by (simp add: sextets.simps)
next
  case (Cons d ds)
  have len: "length bs + p = 6 + 6 * length ds"
    using arg_cong [OF Cons.prems(1), of length] by (simp add: length_concat comp_def sum_list_triv)
  with Cons.prems(2) have ne: "bs \<noteq> []" by auto
  have d: "bits_value (wbits 6 d) = unat d" using Cons.prems(3) bits_value_wbits by simp
  show ?case
  proof (cases "length bs < 6")
    case True
    with len Cons.prems(2) have "ds = []" "p = 6 - length bs" by (cases ds, auto)+
    moreover have "take 6 (bs @ replicate 5 False) = bs @ replicate (6 - length bs) False"
      using True ne by (cases bs) (simp_all add: min_def)
    ultimately show ?thesis using Cons.prems(1) ne True d by (simp add: sextets.simps [of bs] sextets.simps [of "[]"])
  next
    case False
    then have "take 6 bs = wbits 6 d \<and> concat (map (wbits 6) ds) = drop 6 bs @ replicate p False"
      using Cons.prems(1) append_eq_append_conv [of "wbits 6 d" "take 6 bs" "concat (map (wbits 6) ds)" "drop 6 bs @ replicate p False"]
      by (simp add: append_assoc [symmetric] del: append_assoc) 
    with Cons.IH [of "drop 6 bs"] Cons.prems(2,3) False ne d show ?thesis by (simp add: sextets.simps [of bs])
  qed
qed

lemma encode_padding:
  assumes "6 * d = 8 * n + p" and "p < (6 :: nat)"
  shows "encode_length n - d = (4 - d mod 4) mod 4"
proof -
  have "n = 3 * (n div 3) + n mod 3" "n mod 3 < 3" by simp_all
  then obtain k r where n: "n = 3 * k + r" "r < 3" by metis
  have len: "encode_length n = 4 * k + (if r = 0 then 0 else 4)" 
  proof -
    have "(3 * k + r + 2) div 3 = k + (r + 2) div 3" using div_mult_self2 [of 3 "r + 2" k] by (simp add: ac_simps)
    moreover have "(r + 2) div 3 = (if r = 0 then 0 else 1)" using n(2) by auto
    ultimately show ?thesis using n(1) by (simp add: encode_length_def)
  qed
  have d: "6 * d = 24 * k + 8 * r + p" using assms(1) n(1) by simp
  consider "r = 0" | "r = 1" | "r = 2" using n(2) by linarith
  then show ?thesis
  proof cases
    case 1
    with d assms(2) have "d = 4 * k" by simp
    with 1 len show ?thesis by simp
  next
    case 2
    with d assms(2) have "d = 4 * k + 2" by simp
    with 2 len have "d mod 4 = 2" "encode_length n - d = 2" by (presburger, simp)
    then show ?thesis by simp
  next
    case 3
    with d assms(2) have "d = 4 * k + 3" by simp
    with 3 len have "d mod 4 = 3" "encode_length n - d = 1" by (presburger, simp)
    then show ?thesis by simp
  qed
qed

text \<open>C19: \<open>Base64::Encode\<close> computes the encoding of RFC 4648: its bit accumulator and its drain loop produce, for
  every input that is not too long for the result to have a size, exactly the text of the definition by groups
  of six bits. A longer input is refused.\<close>

theorem encode_is_rfc4648:
  "Encode s = (if int (length s) > (2 ^ 64 - 1) div 4 * 3 then Inl LengthError else Inr (rfc4648 s))"
proof -
  let ?n = "encode_length (length s)"
  obtain ds pad where enc: "encode_loop s 0 0 0 (replicate ?n (CHR ''='')) = (length ds, b64_buffer ?n ds)"
    and bits: "concat (map (wbits 6) ds) = concat (map byte_bits s) @ replicate pad False"
    and "pad < 6" and mask: "\<forall>d \<in> set ds. mask_bits 6 d"
    by (rule encode_loop_buffer)
  have "sextets (concat (map char_bits s)) = map unat ds"
    using sextets_digits [OF bits \<open>pad < 6\<close> mask] by (simp only: byte_bits_char)
  moreover have "6 * length ds = 8 * length s + pad"
    using arg_cong [OF bits, of length] by (simp add: length_concat comp_def sum_list_triv)
  then have "?n - length ds = (4 - length ds mod 4) mod 4" using \<open>pad < 6\<close> by (rule encode_padding)
  ultimately have "b64_buffer ?n ds = rfc4648 s" by (simp add: b64_buffer_def rfc4648_def comp_def)
  with enc show ?thesis by (simp add: Encode_def)
qed

section \<open>Properties\<close>

text \<open>\<open>Base64::Decode\<close> undoes \<open>Base64::Encode\<close>: whatever bytes are encoded, decoding the
  result succeeds and gives the same bytes back, although both loops let their 32-bit
  accumulator overflow.\<close>

theorem base64_roundtrip:
  assumes "Encode s = Inr e"
  shows "Decode e = Inr s"
  using assms by (rule Decode_of_Encode)

theorem base64_roundtrip_witness:
  "Encode ''deflect'' = Inr ''ZGVmbGVjdA=='' \<and> Decode ''ZGVmbGVjdA=='' = Inr ''deflect''"
proof -
  have e: "Encode ''deflect'' = Inr ''ZGVmbGVjdA==''" by code_simp
  from base64_roundtrip [OF e] e show ?thesis by simp
qed

text \<open>The encoder stays inside its buffer (the assertion \<open>outpos <= retval.size()\<close> holds, so
  every write was in range), returns exactly \<open>(binlen + 2) / 3 * 4\<close> characters, and returns
  only characters of the alphabet and the padding sign.\<close>

theorem encode_stays_in_buffer:
  "\<exists>outpos retval.
     encode_loop s 0 0 0 (replicate (encode_length (length s)) (CHR ''='')) = (outpos, retval) \<and>
     outpos \<le> length retval \<and> length retval = encode_length (length s) \<and>
     set retval \<subseteq> set b64_table \<union> {CHR ''=''}"
proof -
  let ?n = "encode_length (length s)"
  obtain ds where enc: "encode_loop s 0 0 0 (replicate ?n (CHR ''='')) = (length ds, b64_buffer ?n ds)"
    and len: "length ds \<le> ?n" and mask: "\<forall>d \<in> set ds. mask_bits 6 d"
    by (rule encode_loop_buffer)
  have "b64_table ! unat d \<in> set b64_table" if "d \<in> set ds" for d
    using mask that mask_bits_less [of d 6] by (simp add: nth_mem)
  then have "set (b64_buffer ?n ds) \<subseteq> set b64_table \<union> {CHR ''=''}"
    by (auto simp: b64_buffer_def)
  with enc len show ?thesis by (simp add: b64_buffer_def)
qed

text \<open>The decoder fails exactly on input with a character that is neither white space nor
  \<open>=\<close> nor of the alphabet, always with \<open>std::invalid_argument\<close>, and white space and padding
  never change what is decoded.\<close>

theorem decode_errors_and_liberality:
  "(Decode s = Inl e \<longleftrightarrow>
      e = InvalidArgument \<and> (\<exists>c \<in> set s. \<not> b64_skip c \<and> b64_digit c = None)) \<and>
   Decode (filter (\<lambda>c. \<not> b64_skip c) s) = Decode s"
  by (simp add: Decode_def decode_loop_error_iff decode_loop_filter)

end
