(* ===== verification/CookieHash.thy ===== *)
theory CookieHash
  imports Base64
begin

text \<open>
  The authenticated cookies of cookiehash.h and cookiehash.cpp: a 20-byte HMAC-SHA1 over the
  expiry time, the client address and the captcha text, followed by the expiry time, all in
  base64. OpenSSL's \<open>HMAC(EVP_sha1(), \<dots>)\<close> is the parameter \<open>hmac\<close>, a function of the key and
  the message; what is used of it is only that its digest has 20 bytes. Timestamps are
  \<^typ>\<open>int\<close>; a \<open>time_t\<close> in memory is 8 bytes, least significant first (\<open>time_bytes\<close>).

  The fixed buffers of the code are bounds of the model: a message longer than \<open>ibuf[200]\<close> is
  \<open>BufferOverflow\<close>, and copying 28 bytes out of a shorter decoded string is
  \<open>OutOfBoundsRead\<close>.
\<close>

section \<open>Sizes and the memory image of a timestamp\<close>

definition SECRET_LENGTH :: nat where
  "SECRET_LENGTH = 32"

definition HASH_LENGTH :: nat where
  "HASH_LENGTH = 20"

definition COOKIE_LENGTH :: nat where
  "COOKIE_LENGTH = HASH_LENGTH + 8"

definition COOKIE_B64_LENGTH :: nat where
  "COOKIE_B64_LENGTH = (COOKIE_LENGTH + 2) div 3 * 4"

definition IBUF_SIZE :: nat where
  "IBUF_SIZE = 200"

lemmas cookie_sizes = SECRET_LENGTH_def HASH_LENGTH_def COOKIE_LENGTH_def COOKIE_B64_LENGTH_def
  IBUF_SIZE_def

definition time_bytes :: "int \<Rightarrow> string" where
  "time_bytes t = int_bytes 8 t"

definition time_of_bytes :: "string \<Rightarrow> int" where
  "time_of_bytes s = signed_take_bit 63 (bytes_int s)"

lemma length_time_bytes [simp]: "length (time_bytes t) = 8"
  by (simp add: time_bytes_def)

definition time_range :: "int \<Rightarrow> bool" where
  "time_range t \<longleftrightarrow> - (2 ^ 63) \<le> t \<and> t < 2 ^ 63"

lemma time_of_time_bytes: "time_range t \<Longrightarrow> time_of_bytes (time_bytes t) = t"
proof -
  assume t: "time_range t"
  have "bytes_int (time_bytes t) = take_bit 64 t"
    by (simp add: time_bytes_def bytes_int_bytes take_bit_eq_mod)
  then have "time_of_bytes (time_bytes t) = signed_take_bit 63 (take_bit (Suc 63) t)"
    by (simp add: time_of_bytes_def)
  also have "\<dots> = signed_take_bit 63 t" by (simp add: signed_take_bit_take_bit)
  also have "\<dots> = t" using t by (intro signed_take_bit_int_eq_self) (simp_all add: time_range_def)
  finally show ?thesis .
qed

section \<open>The operations\<close>

type_synonym hmac = "string \<Rightarrow> string \<Rightarrow> string"

definition hash_message :: "string \<Rightarrow> int \<Rightarrow> string \<Rightarrow> string" where
  "hash_message captcha valid_till_timestamp remoteaddress =
     time_bytes valid_till_timestamp @ cstr remoteaddress @ cstr captcha"

definition GenerateCookieHash ::
    "hmac \<Rightarrow> string \<Rightarrow> string \<Rightarrow> int \<Rightarrow> string \<Rightarrow> string result" where
  "GenerateCookieHash hmac captcha secret valid_till_timestamp remoteaddress =
     (let ibuf = hash_message captcha valid_till_timestamp remoteaddress in
      if IBUF_SIZE < length ibuf then Inl BufferOverflow
      else Inr (hmac secret ibuf))"

definition GenerateCookie ::
    "hmac \<Rightarrow> string \<Rightarrow> string \<Rightarrow> int \<Rightarrow> string \<Rightarrow> string result" where
  "GenerateCookie hmac captcha secret valid_till_timestamp remoteaddress =
     rbind (GenerateCookieHash hmac captcha secret valid_till_timestamp remoteaddress) (\<lambda>hash.
     rbind (Encode (take HASH_LENGTH hash @ time_bytes valid_till_timestamp)) (\<lambda>co.
     Inr (cstr co)))"

definition ValidateCookie ::
    "hmac \<Rightarrow> string \<Rightarrow> string \<Rightarrow> int \<Rightarrow> string \<Rightarrow> string \<Rightarrow> int result" where
  "ValidateCookie hmac captcha secret current_timestamp remoteaddress cookiestring =
     (if length (cstr cookiestring) \<noteq> COOKIE_B64_LENGTH then Inr (- 3)
      else case Decode (cstr cookiestring) of
        Inl e \<Rightarrow> if e = InvalidArgument then Inr (- 4) else Inl e
      | Inr cookiedata \<Rightarrow>
          if length cookiedata + 1 < COOKIE_LENGTH then Inl OutOfBoundsRead
          else
            let cookie = take COOKIE_LENGTH (cookiedata @ [NUL]);
                valid_until_timestamp = time_of_bytes (drop HASH_LENGTH cookie)
            in rbind (GenerateCookieHash hmac captcha secret valid_until_timestamp remoteaddress)
                 (\<lambda>hash.
                    if take HASH_LENGTH cookie \<noteq> take HASH_LENGTH hash then Inr (- 1)
                    else if valid_until_timestamp < current_timestamp then Inr (- 2)
                    else Inr 1))"

section \<open>Generation and validation together\<close>

definition fits_ibuf :: "string \<Rightarrow> string \<Rightarrow> bool" where
  "fits_ibuf captcha remoteaddress \<longleftrightarrow>
     8 + length (cstr remoteaddress) + length (cstr captcha) \<le> IBUF_SIZE"

lemma GenerateCookieHash_eq:
  "GenerateCookieHash hmac captcha secret t ip =
     (if fits_ibuf captcha ip then Inr (hmac secret (hash_message captcha t ip))
      else Inl BufferOverflow)"
  by (auto simp: GenerateCookieHash_def Let_def fits_ibuf_def hash_message_def)

text \<open>The image of a generated cookie: what the base64 text stands for.\<close>

lemma GenerateCookie_image:
  assumes digest: "\<forall>k m. length (hmac k m) = HASH_LENGTH" and fits: "fits_ibuf captcha ip"
  obtains c where "GenerateCookie hmac captcha secret t ip = Inr c"
    and "length c = COOKIE_B64_LENGTH" and "cstr c = c"
    and "Decode c = Inr (hmac secret (hash_message captcha t ip) @ time_bytes t)"
proof -
  let ?h = "hmac secret (hash_message captcha t ip)"
  have "length (?h @ time_bytes t) < 2 ^ 32" by (simp add: digest cookie_sizes)
  then obtain c where "Encode (?h @ time_bytes t) = Inr c"
    "length c = encode_length (length (?h @ time_bytes t))" "cstr c = c"
    "Decode c = Inr (?h @ time_bytes t)"
    by (rule b64.enc_obtain)
  then show ?thesis
    using that digest fits
    by (simp add: GenerateCookie_def GenerateCookieHash_eq cookie_sizes encode_length_def)
qed

lemma ValidateCookie_image:
  assumes "length c = COOKIE_B64_LENGTH" and "cstr c = c"
    and "Decode c = Inr (h @ time_bytes t)" and "length h = HASH_LENGTH" and "time_range t"
    and digest: "\<forall>k m. length (hmac k m) = HASH_LENGTH"
  shows "ValidateCookie hmac captcha secret now ip c =
    (if \<not> fits_ibuf captcha ip then Inl BufferOverflow
     else if h \<noteq> hmac secret (hash_message captcha t ip) then Inr (- 1)
     else if t < now then Inr (- 2) else Inr 1)"
proof -
  have "take COOKIE_LENGTH ((h @ time_bytes t) @ [NUL]) = h @ time_bytes t"
    using assms(4) by (simp add: cookie_sizes)
  then show ?thesis
    using assms
    by (simp add: ValidateCookie_def Let_def GenerateCookieHash_eq time_of_time_bytes cookie_sizes)
qed

lemma ValidateCookie_1:
  assumes "ValidateCookie hmac captcha secret now ip c = Inr 1"
  obtains data t where "Decode (cstr c) = Inr data" and "now \<le> t"
    and "t = time_of_bytes (drop HASH_LENGTH (take COOKIE_LENGTH (data @ [NUL])))"
    and "take HASH_LENGTH data = take HASH_LENGTH (hmac secret (hash_message captcha t ip))"
    and "fits_ibuf captcha ip" and "length (cstr c) = COOKIE_B64_LENGTH"
proof -
  from assms obtain data where d: "Decode (cstr c) = Inr data"
    and len: "length (cstr c) = COOKIE_B64_LENGTH" "\<not> length data + 1 < COOKIE_LENGTH"
    by (auto simp: ValidateCookie_def Let_def split: if_splits sum.splits)
  let ?ck = "take COOKIE_LENGTH (data @ [NUL])"
  let ?t = "time_of_bytes (drop HASH_LENGTH ?ck)"
  from assms d len have
    "take HASH_LENGTH ?ck = take HASH_LENGTH (hmac secret (hash_message captcha ?t ip))"
    "fits_ibuf captcha ip" "now \<le> ?t"
    by (auto simp: ValidateCookie_def Let_def GenerateCookieHash_eq split: if_splits)
  moreover from len(2) have "take HASH_LENGTH ?ck = take HASH_LENGTH data"
    by (simp add: cookie_sizes take_take)
  ultimately show thesis using that d len(1) by simp
qed

lemma hash_message_inj:
  assumes "hash_message captcha t ip = hash_message captcha' t' ip'"
  shows "time_bytes t = time_bytes t'" and "cstr ip @ cstr captcha = cstr ip' @ cstr captcha'"
  using assms by (simp_all add: hash_message_def)

section \<open>Properties\<close>

text \<open>The digest of the witnesses: 20 bytes that depend on the message.\<close>

definition sample_hmac :: hmac where
  "sample_hmac k m = take 20 (rev m @ replicate 20 (CHR ''h''))"

lemma sample_hmac_length: "\<forall>k m. length (sample_hmac k m) = HASH_LENGTH"
  by (simp add: sample_hmac_def cookie_sizes min_def)

text \<open>C8: A cookie that \<open>GenerateCookie\<close> issued is accepted by \<open>ValidateCookie\<close> for the same
  captcha, key and address until it expires, is reported expired (-2) afterwards, and has
  exactly 40 characters, so that with its NUL it fits the 100-byte buffers of the callers.\<close>

theorem issued_cookie_validates:
  assumes "\<forall>k m. length (hmac k m) = HASH_LENGTH" and "fits_ibuf captcha ip" and "time_range t"
  shows "\<exists>c. GenerateCookie hmac captcha secret t ip = Inr c \<and> length c = 40 \<and>
           ValidateCookie hmac captcha secret now ip c = (if t < now then Inr (- 2) else Inr 1)"
proof -
  obtain c where "GenerateCookie hmac captcha secret t ip = Inr c"
    "length c = COOKIE_B64_LENGTH" "cstr c = c"
    "Decode c = Inr (hmac secret (hash_message captcha t ip) @ time_bytes t)"
    using GenerateCookie_image [OF assms(1,2)] .
  with assms show ?thesis
    by (intro exI [of _ c]) (simp add: ValidateCookie_image, simp add: cookie_sizes)
qed

theorem issued_cookie_validates_witness:
  "\<exists>c. GenerateCookie sample_hmac ''abcde'' ''key'' 1700000120 ''10.0.0.1'' = Inr c \<and> length c = 40 \<and>
     ValidateCookie sample_hmac ''abcde'' ''key'' 1700000000 ''10.0.0.1'' c = Inr 1"
  using issued_cookie_validates
    [of sample_hmac "''abcde''" "''10.0.0.1''" 1700000120 "''key''" 1700000000]
  by (simp add: sample_hmac_length fits_ibuf_def cstr_def cookie_sizes time_range_def)

text \<open>C7: A cookie that validates carries the key holder's digest: its first 20 bytes are the
  HMAC, under the secret, of its own expiry time, the client's address and the captcha text,
  and that expiry time has not passed. Validation succeeds in no other way.\<close>

theorem validated_cookie_is_authentic:
  assumes "ValidateCookie hmac captcha secret now ip c = Inr 1"
  shows "\<exists>data t. Decode (cstr c) = Inr data \<and> now \<le> t \<and>
           take HASH_LENGTH data =
             take HASH_LENGTH (hmac secret (time_bytes t @ cstr ip @ cstr captcha)) \<and>
           t = time_of_bytes (drop HASH_LENGTH (take COOKIE_LENGTH (data @ [NUL])))"
  using assms by (rule ValidateCookie_1) (auto simp: hash_message_def)

text \<open>The cookie \<open>sample_hmac\<close> gives the address 1.2.3.4 with expiry 9.\<close>

definition sample_cookie :: string where
  "sample_cookie = ''NC4zLjIuMQAAAAAAAAAJaGhoaGgJAAAAAAAAAA==''"

lemma sample_cookie_issued: "GenerateCookie sample_hmac '''' ''key'' 9 ''1.2.3.4'' = Inr sample_cookie"
  by code_simp

lemma sample_cookie_valid: "ValidateCookie sample_hmac '''' ''key'' 5 ''1.2.3.4'' sample_cookie = Inr 1"
  by code_simp

theorem validated_cookie_is_authentic_witness:
  "\<exists>data t. Decode (cstr sample_cookie) = Inr data \<and> (5::int) \<le> t"
  using validated_cookie_is_authentic [OF sample_cookie_valid] by blast

text \<open>A cookie issued for one client and captcha is accepted for another only if the digest
  collides or the two concatenations of address and captcha text are equal. For the empty
  captcha text of solved challenges that means: only for the same address.\<close>

theorem cookie_bound_to_client:
  assumes "\<forall>k m. length (hmac k m) = HASH_LENGTH" and "time_range t"
    and "GenerateCookie hmac captcha secret t ip = Inr c"
    and "ValidateCookie hmac captcha' secret now ip' c = Inr 1"
  shows "cstr ip @ cstr captcha = cstr ip' @ cstr captcha' \<or>
         (\<exists>m m'. m \<noteq> m' \<and> hmac secret m = hmac secret m')"
proof -
  have fits: "fits_ibuf captcha ip"
    using assms(3) by (auto simp: GenerateCookie_def GenerateCookieHash_eq split: if_splits)
  obtain c' where "GenerateCookie hmac captcha secret t ip = Inr c'"
    "length c' = COOKIE_B64_LENGTH" "cstr c' = c'"
    "Decode c' = Inr (hmac secret (hash_message captcha t ip) @ time_bytes t)"
    using GenerateCookie_image [OF assms(1) fits] .
  with assms have "hmac secret (hash_message captcha t ip) = hmac secret (hash_message captcha' t ip')"
    by (simp add: ValidateCookie_image split: if_splits)
  then show ?thesis using hash_message_inj(2) by metis
qed

theorem cookie_bound_to_client_witness:
  "cstr ''1.2.3.4'' @ cstr '''' = cstr ''1.2.3.4'' @ cstr '''' \<or>
   (\<exists>m m'. m \<noteq> m' \<and> sample_hmac ''key'' m = sample_hmac ''key'' m')"
  by (rule cookie_bound_to_client
        [OF sample_hmac_length _ sample_cookie_issued sample_cookie_valid])
     (simp add: time_range_def)

text \<open>C31: The binding to the address is not exact: address and captcha text are hashed without a
  separator, so a solved-challenge cookie issued to the address \<open>ip @ x\<close> also validates for the
  shorter address \<open>ip\<close> when \<open>x\<close> is given as the captcha answer.\<close>

theorem cookie_transferable_to_prefix_address:
  assumes "\<forall>k m. length (hmac k m) = HASH_LENGTH" and "time_range t" and "now \<le> t"
    and "NUL \<notin> set (ip @ x)" and "8 + length (ip @ x) \<le> IBUF_SIZE"
  shows "\<exists>c. GenerateCookie hmac [] secret t (ip @ x) = Inr c \<and>
           ValidateCookie hmac x secret now ip c = Inr 1"
proof -
  have cs: "cstr (ip @ x) = ip @ x" "cstr ip = ip" "cstr x = x" "cstr [] = []"
    using assms(4) by (simp_all add: cstr_id)
  have fits: "fits_ibuf [] (ip @ x)" "fits_ibuf x ip"
    using assms(5) by (simp_all add: fits_ibuf_def cs)
  have same: "hash_message [] t (ip @ x) = hash_message x t ip"
    by (simp add: hash_message_def cs)
  obtain c where "GenerateCookie hmac [] secret t (ip @ x) = Inr c"
    "length c = COOKIE_B64_LENGTH" "cstr c = c"
    "Decode c = Inr (hmac secret (hash_message [] t (ip @ x)) @ time_bytes t)"
    using GenerateCookie_image [OF assms(1) fits(1)] .
  with assms fits(2) show ?thesis
    by (intro exI [of _ c]) (simp add: ValidateCookie_image same)
qed

theorem cookie_transferable_to_prefix_address_witness:
  "\<exists>c. GenerateCookie sample_hmac [] ''key'' 9 ''1.2.3.45'' = Inr c \<and>
     ValidateCookie sample_hmac ''5'' ''key'' 3 ''1.2.3.4'' c = Inr 1"
  using cookie_transferable_to_prefix_address
    [OF sample_hmac_length, of 9 3 "''1.2.3.4''" "''5''" "''key''"]
  by (simp add: time_range_def cookie_sizes)

text \<open>C32: The memory errors of validation, and when they happen: a 40-character cookie that
  decodes to fewer than 27 bytes makes it read past the decoded string; one that decodes to at
  least 27 bytes makes it overflow \<open>ibuf[200]\<close> when the address and the captcha answer together
  are longer than 192 bytes, and gives one of the codes 1, -1 and -2 otherwise.\<close>

theorem validation_memory_errors:
  assumes "length (cstr c) = 40" and "Decode (cstr c) = Inr data"
  shows "(ValidateCookie hmac captcha secret now ip c = Inl OutOfBoundsRead \<longleftrightarrow> length data < 27) \<and>
    (ValidateCookie hmac captcha secret now ip c = Inl BufferOverflow \<longleftrightarrow>
       27 \<le> length data \<and> 192 < length (cstr ip) + length (cstr captcha)) \<and>
    (ValidateCookie hmac captcha secret now ip c \<in> {Inr 1, Inr (- 1), Inr (- 2)} \<longleftrightarrow>
       27 \<le> length data \<and> length (cstr ip) + length (cstr captcha) \<le> 192)"
  using assms
  by (auto simp: ValidateCookie_def Let_def GenerateCookieHash_eq fits_ibuf_def cookie_sizes)

theorem validation_memory_errors_witness:
  "ValidateCookie sample_hmac '''' ''key'' 0 ''1.2.3.4'' (replicate 40 (CHR ''='')) = Inl OutOfBoundsRead \<and>
   ValidateCookie sample_hmac (replicate 200 (CHR ''a'')) ''key'' 0 ''1.2.3.4'' (replicate 40 (CHR ''A'')) =
     Inl BufferOverflow"
proof -
  have cs: "cstr (replicate n (CHR ''='')) = replicate n (CHR ''='')"
    "cstr (replicate n (CHR ''a'')) = replicate n (CHR ''a'')"
    "cstr (replicate n (CHR ''A'')) = replicate n (CHR ''A'')" "cstr ''1.2.3.4'' = ''1.2.3.4''" for n
    by (simp_all add: cstr_id)
  have d1: "Decode (replicate 40 (CHR ''='')) = Inr []" by code_simp
  have d2: "Decode (replicate 40 (CHR ''A'')) = Inr (replicate 30 NUL)" by code_simp
  from validation_memory_errors [of "replicate 40 (CHR ''='')" "[]" sample_hmac "''''" "''key''" 0 "''1.2.3.4''"]
    validation_memory_errors [of "replicate 40 (CHR ''A'')" "replicate 30 NUL" sample_hmac
      "replicate 200 (CHR ''a'')" "''key''" 0 "''1.2.3.4''"]
  show ?thesis by (simp add: cs d1 d2)
qed

end
