(* ===== verification/Cookie.thy ===== *)
theory Cookie
  imports Prelude
begin

text \<open>
  The cookie parser of cookie.h and cookie.cpp. A \<open>boost::string_view\<close> is modelled by the
  bytes it shows; \<open>Cookie::consume\<close> takes one name/value pair from the front of the view and
  leaves the view at what follows, so the model returns the new view with the result. The view
  only ever loses a prefix (\<open>consume_suffix\<close>), so its end stays the end of the NUL-terminated
  string it was made from: the one read past its end, \<open>cookie_s[0]\<close> on an empty view in the
  loop that skips \<open>=\<close> signs, sees that NUL (\<open>front_or_NUL\<close>).
\<close>

section \<open>The parser\<close>

record cookie =
  cookie_name :: string
  cookie_value :: string

definition trim_space_prefix :: "string \<Rightarrow> string" where
  "trim_space_prefix s = dropWhile isspace s"

definition trim_space_suffix :: "string \<Rightarrow> string" where
  "trim_space_suffix s = rev (dropWhile isspace (rev s))"

definition is_eol_at :: "string \<Rightarrow> nat \<Rightarrow> bool" where
  "is_eol_at s pos = (if length s < pos + 1 then False else starts_with CRLF (drop pos s))"

text \<open>The condition of the loop that finds the end of the name token.\<close>

definition name_char :: "char \<Rightarrow> bool" where
  "name_char c \<longleftrightarrow> c \<noteq> CHR '';'' \<and> c \<noteq> CHR ''='' \<and> \<not> isspace c \<and> c \<noteq> NUL"

definition front_or_NUL :: "string \<Rightarrow> char" where
  "front_or_NUL s = (case s of [] \<Rightarrow> NUL | c # _ \<Rightarrow> c)"

text \<open>\<open>do cookie_s.remove_prefix(1); while (cookie_s[0] == '=');\<close>\<close>

fun skip_equals :: "string \<Rightarrow> string" where
  "skip_equals [] = []"
| "skip_equals (c # s) = (if front_or_NUL s = CHR ''='' then skip_equals s else s)"

text \<open>The loop that finds \<open>val_end\<close>, on the bytes from the current position on.\<close>

fun value_end :: "string \<Rightarrow> nat" where
  "value_end [] = 0"
| "value_end (c # s) =
     (if c \<noteq> CHR '';'' \<and> c \<noteq> NUL \<and> \<not> is_eol_at (c # s) 0 then Suc (value_end s) else 0)"

definition consume :: "string \<Rightarrow> cookie option \<times> string" where
  "consume cookie_s0 =
     (let cookie_s = trim_space_prefix cookie_s0 in
      if cookie_s = [] then (None, cookie_s)
      else
        let name_end = length (takeWhile name_char cookie_s) in
        if name_end = 0 \<and> hd cookie_s \<noteq> CHR ''='' then
          (if hd cookie_s = CHR '';''
           then (Some \<lparr>cookie_name = [], cookie_value = []\<rparr>, drop 1 cookie_s)
           else (None, cookie_s))
        else
          let nm = take name_end cookie_s;
              no_value = \<lparr>cookie_name = nm, cookie_value = []\<rparr> in
          if name_end = length cookie_s then (Some no_value, drop name_end cookie_s)
          else
            let cookie_s = trim_space_prefix (drop name_end cookie_s) in
            case cookie_s of
              [] \<Rightarrow> (Some no_value, cookie_s)
            | c # rest \<Rightarrow>
                if c = NUL \<or> c = CHR '';'' then (Some no_value, rest)
                else if c = CHR ''='' then
                  let cookie_s = trim_space_prefix (skip_equals cookie_s);
                      val_end = value_end cookie_s;
                      v = trim_space_suffix (take val_end cookie_s);
                      cookie_s = drop val_end cookie_s;
                      cookie_s = (if starts_with '';'' cookie_s then drop 1 cookie_s else cookie_s)
                  in (Some \<lparr>cookie_name = nm, cookie_value = v\<rparr>, cookie_s)
                else (None, cookie_s))"

definition parse :: "string \<Rightarrow> cookie option" where
  "parse cookie_s = fst (consume cookie_s)"

section \<open>Progress\<close>

lemma trim_space_prefix_suffix: "\<exists>p. s = p @ trim_space_prefix s"
  by (metis takeWhile_dropWhile_id trim_space_prefix_def)

lemma skip_equals_suffix: "\<exists>p. s = p @ skip_equals s \<and> (s \<noteq> [] \<longrightarrow> p \<noteq> [])"
proof (induction s)
  case (Cons c s)
  then obtain p where "s = p @ skip_equals s" by blast
  then have "c # s = (c # p) @ skip_equals s" by simp
  moreover have "c # s = [c] @ s" by simp
  ultimately show ?case
    by (metis (full_types) list.distinct(1) skip_equals.simps(2))
qed simp

lemma suffix_trans: "\<exists>p. s = p @ r \<Longrightarrow> \<exists>p. r = p @ t \<Longrightarrow> \<exists>p. s = p @ t"
  by (metis append.assoc)

lemma suffix_drop: "\<exists>p. s = p @ r \<Longrightarrow> \<exists>p. s = p @ drop n r"
  by (metis append.assoc append_take_drop_id)

text \<open>The branches of \<open>consume\<close>, one result per rule: the shape every proof about it splits on.\<close>

lemma consume_cases [consumes 1, case_names separator name_only bare no_value with_value]:
  assumes "consume s = (Some c, r)"
  obtains
    (separator) "trim_space_prefix s = CHR '';'' # r" "c = \<lparr>cookie_name = [], cookie_value = []\<rparr>"
  | (name_only) "cookie_name c = trim_space_prefix s" "trim_space_prefix s \<noteq> []"
      "\<forall>x \<in> set (cookie_name c). name_char x" "cookie_value c = []" "r = []"
  | (bare) ws where "trim_space_prefix s = cookie_name c @ ws" "cookie_name c \<noteq> []"
      "\<forall>x \<in> set (cookie_name c). name_char x" "cookie_value c = []"
      "trim_space_prefix ws = []" "r = []"
  | (no_value) ws x where "trim_space_prefix s = cookie_name c @ ws" "cookie_name c \<noteq> []"
      "\<forall>x \<in> set (cookie_name c). name_char x" "cookie_value c = []"
      "trim_space_prefix ws = x # r" "x = NUL \<or> x = CHR '';''"
  | (with_value) ws t u where "trim_space_prefix s = cookie_name c @ ws"
      "\<forall>x \<in> set (cookie_name c). name_char x"
      "trim_space_prefix ws = CHR ''='' # t"
      "u = trim_space_prefix (skip_equals (CHR ''='' # t))"
      "cookie_value c = trim_space_suffix (take (value_end u) u)"
      "r = (if starts_with '';'' (drop (value_end u) u) then drop 1 (drop (value_end u) u)
            else drop (value_end u) u)"
proof -
  let ?s = "trim_space_prefix s"
  let ?n = "length (takeWhile name_char ?s)"
  have ne: "?s \<noteq> []" using assms by (auto simp: consume_def Let_def)
  have nm: "take ?n ?s = takeWhile name_char ?s" by (metis takeWhile_eq_take)
  have split: "?s = takeWhile name_char ?s @ drop ?n ?s"
    by (metis append_take_drop_id nm)
  have chars: "\<forall>x \<in> set (takeWhile name_char ?s). name_char x"
    by (auto dest: set_takeWhileD)
  show thesis
  proof (cases "?n = 0 \<and> hd ?s \<noteq> CHR ''=''")
    case True
    with assms ne have "hd ?s = CHR '';''" "r = drop 1 ?s"
        "c = \<lparr>cookie_name = [], cookie_value = []\<rparr>"
      by (auto simp: consume_def Let_def split: if_splits)
    with ne have "?s = CHR '';'' # r" by (metis One_nat_def drop0 drop_Suc list.collapse)
    with \<open>c = _\<close> show thesis by (rule separator [rotated])
  next
    case False
    show thesis
    proof (cases "?n = length ?s")
      case True
      with assms ne False nm have "cookie_name c = ?s" "cookie_value c = []" "r = []"
        by (auto simp: consume_def Let_def split: if_splits)
      moreover from this True nm chars have "\<forall>x \<in> set (cookie_name c). name_char x"
        by (metis take_all order_refl)
      ultimately show thesis using ne name_only by blast
    next
      case len: False
      let ?ws = "drop ?n ?s"
      show thesis
      proof (cases "trim_space_prefix ?ws")
        case Nil
        with assms ne False len nm have c: "cookie_name c = takeWhile name_char ?s"
            "cookie_value c = []" "r = []"
          by (auto simp: consume_def Let_def split: if_splits)
        have "?n \<noteq> 0"
        proof
          assume "?n = 0"
          with False have "hd ?s = CHR ''=''" by simp
          with ne \<open>?n = 0\<close> have "hd ?ws = CHR ''=''" "?ws \<noteq> []" by auto
          then have "trim_space_prefix ?ws \<noteq> []"
            by (cases ?ws) (auto simp: trim_space_prefix_def isspace_def)
          with Nil show False by simp
        qed
        with c Nil split chars show thesis by (intro bare [of ?ws]) auto
      next
        case (Cons x t)
        show thesis
        proof (cases "x = NUL \<or> x = CHR '';''")
          case True
          with assms ne False len nm Cons have c: "cookie_name c = takeWhile name_char ?s"
              "cookie_value c = []" "r = t"
            by (auto simp: consume_def Let_def split: if_splits)
          have "?n \<noteq> 0"
          proof
            assume "?n = 0"
            with False have "hd ?s = CHR ''=''" by simp
            with ne \<open>?n = 0\<close> obtain y where "?ws = CHR ''='' # y" by (cases ?s) auto
            with Cons True show False by (auto simp: trim_space_prefix_def isspace_def)
          qed
          with c Cons True split chars show thesis by (intro no_value [of ?ws x]) auto
        next
          case x: False
          with assms ne False len nm Cons have eq: "x = CHR ''=''"
            by (auto simp: consume_def Let_def split: if_splits)
          let ?u = "trim_space_prefix (skip_equals (CHR ''='' # t))"
          from assms ne False len nm Cons x eq have
            "cookie_name c = takeWhile name_char ?s"
            "cookie_value c = trim_space_suffix (take (value_end ?u) ?u)"
            "r = (if starts_with '';'' (drop (value_end ?u) ?u) then drop 1 (drop (value_end ?u) ?u)
                  else drop (value_end ?u) ?u)"
            by (auto simp: consume_def Let_def split: if_splits)
          with Cons eq split chars show thesis by (intro with_value [of ?ws t ?u]) auto
        qed
      qed
    qed
  qed
qed

lemma consume_suffix_Some:
  assumes "consume s = (Some c, r)"
  shows "\<exists>p. p \<noteq> [] \<and> s = p @ r"
proof -
  obtain p where p: "s = p @ trim_space_prefix s" using trim_space_prefix_suffix by blast
  have "\<exists>q. q \<noteq> [] \<and> trim_space_prefix s = q @ r"
    using assms
  proof (cases rule: consume_cases)
    case separator
    then show ?thesis by (intro exI [of _ "'';''"]) simp
  next
    case name_only
    then show ?thesis by (intro exI [of _ "trim_space_prefix s"]) simp
  next
    case (bare ws)
    then show ?thesis by (intro exI [of _ "cookie_name c @ ws"]) simp
  next
    case (no_value ws x)
    obtain v where "ws = v @ trim_space_prefix ws" using trim_space_prefix_suffix by blast
    with no_value show ?thesis by (intro exI [of _ "cookie_name c @ v @ [x]"]) simp
  next
    case (with_value ws t u)
    obtain v where v: "ws = v @ CHR ''='' # t"
      using trim_space_prefix_suffix [of ws] with_value by auto
    obtain q where q: "CHR ''='' # t = q @ skip_equals (CHR ''='' # t)" "q \<noteq> []"
      using skip_equals_suffix [of "CHR ''='' # t"] by auto
    have "\<exists>w. skip_equals (CHR ''='' # t) = w @ u"
      using trim_space_prefix_suffix with_value by blast
    moreover have "\<exists>w. u = w @ r"
      by (simp add: with_value suffix_drop del: drop_drop)
    ultimately obtain w where "skip_equals (CHR ''='' # t) = w @ r"
      using suffix_trans by blast
    with q(1) have t: "CHR ''='' # t = q @ w @ r" by metis
    from with_value(1) v have "trim_space_prefix s = cookie_name c @ v @ CHR ''='' # t" by simp
    also have "\<dots> = (cookie_name c @ v @ q @ w) @ r" unfolding t by simp
    finally have "trim_space_prefix s = (cookie_name c @ v @ q @ w) @ r" .
    moreover from q(2) have "cookie_name c @ v @ q @ w \<noteq> []" by simp
    ultimately show ?thesis by (intro exI conjI)
  qed
  then obtain q where "q \<noteq> []" "trim_space_prefix s = q @ r" by blast
  with p show ?thesis by (intro exI [of _ "p @ q"]) simp
qed

lemma consume_progress: "consume s = (Some c, r) \<Longrightarrow> length r < length s"
  by (drule consume_suffix_Some) auto

text \<open>All the cookies of a jar: what \<open>while (optional<Cookie> cookie = Cookie::consume(jar))\<close>
  iterates over. It ends because every round takes at least one byte.\<close>

function parse_jar :: "string \<Rightarrow> cookie list" where
  "parse_jar jar =
     (case consume jar of
        (None, _) \<Rightarrow> []
      | (Some c, rest) \<Rightarrow> c # parse_jar rest)"
  by pat_completeness auto
termination
  by (relation "measure length") (auto dest!: sym [THEN consume_progress])

declare parse_jar.simps [simp del]


section \<open>What a token may hold\<close>

lemma value_end_le: "value_end s \<le> length s"
  by (induction s) simp_all

lemma value_end_chars: "x \<in> set (take (value_end s) s) \<Longrightarrow> x \<noteq> CHR '';'' \<and> x \<noteq> NUL"
  by (induction s) (auto split: if_splits)

lemma value_end_no_eol: "i < value_end s \<Longrightarrow> \<not> starts_with CRLF (drop i s)"
proof (induction s arbitrary: i)
  case (Cons c s)
  then show ?case by (cases i) (auto simp: is_eol_at_def split: if_splits)
qed simp

lemma value_end_no_CRLF: "\<not> occurs CRLF (take (value_end s) s)"
proof
  assume "occurs CRLF (take (value_end s) s)"
  then obtain a b where ab: "take (value_end s) s = a @ CRLF @ b" by (auto simp: occurs_def)
  then have len: "length a < value_end s"
    by (metis length_append length_take less_add_same_cancel1 list.size(3) list.size(4)
        min_less_iff_conj zero_less_Suc add_Suc_right append.assoc append_Cons)
  have "s = a @ CRLF @ b @ drop (value_end s) s"
    by (metis ab append.assoc append_take_drop_id)
  then have "drop (length a) s = CRLF @ b @ drop (value_end s) s"
    by (metis append_eq_conv_conj)
  then have "starts_with CRLF (drop (length a) s)" by (metis starts_with_append)
  with value_end_no_eol [OF len] show False by contradiction
qed

lemma trim_space_suffix_prefix: "\<exists>q. s = trim_space_suffix s @ q"
proof -
  have "rev s = takeWhile isspace (rev s) @ dropWhile isspace (rev s)" by simp
  then have "s = rev (dropWhile isspace (rev s)) @ rev (takeWhile isspace (rev s))"
    by (metis rev_append rev_rev_ident)
  then show ?thesis unfolding trim_space_suffix_def by blast
qed

lemma trim_space_suffix_last: "trim_space_suffix s \<noteq> [] \<Longrightarrow> \<not> isspace (last (trim_space_suffix s))"
  unfolding trim_space_suffix_def by (simp add: last_rev hd_dropWhile)

lemma trim_space_prefix_hd: "trim_space_prefix s \<noteq> [] \<Longrightarrow> \<not> isspace (hd (trim_space_prefix s))"
  unfolding trim_space_prefix_def by (rule hd_dropWhile)

lemma occurs_append1: "occurs p s \<Longrightarrow> occurs p (s @ t)"
  by (auto simp: occurs_def) (metis append.assoc)

text \<open>A value token: no separator, no NUL, no line end, no white space around it.\<close>

definition value_token :: "string \<Rightarrow> bool" where
  "value_token v \<longleftrightarrow> CHR '';'' \<notin> set v \<and> NUL \<notin> set v \<and> \<not> occurs CRLF v \<and>
     (v = [] \<or> \<not> isspace (hd v) \<and> \<not> isspace (last v))"

lemma value_token_Nil [simp]: "value_token []"
  by (simp add: value_token_def occurs_Nil)

lemma value_token_trimmed:
  assumes "u = trim_space_prefix w"
  shows "value_token (trim_space_suffix (take (value_end u) u))"
proof -
  let ?t = "take (value_end u) u"
  obtain q where q: "?t = trim_space_suffix ?t @ q" using trim_space_suffix_prefix by blast
  have "x \<in> set (trim_space_suffix ?t) \<Longrightarrow> x \<in> set ?t" for x
    by (subst q) simp
  then have "CHR '';'' \<notin> set (trim_space_suffix ?t)" "NUL \<notin> set (trim_space_suffix ?t)"
    using value_end_chars by blast+
  moreover have "\<not> occurs CRLF (trim_space_suffix ?t)"
    using value_end_no_CRLF [of u] q occurs_append1 by metis
  moreover have "\<not> isspace (hd (trim_space_suffix ?t))" if ne: "trim_space_suffix ?t \<noteq> []"
  proof -
    from ne q have "?t \<noteq> []" by (metis append_is_Nil_conv)
    have "hd (trim_space_suffix ?t) = hd ?t" using ne by (subst q) simp
    also have "\<dots> = hd u" using \<open>?t \<noteq> []\<close> by (metis append_take_drop_id hd_append2)
    finally show ?thesis
      using trim_space_prefix_hd [of w] \<open>?t \<noteq> []\<close> assms by auto
  qed
  ultimately show ?thesis
    using trim_space_suffix_last by (auto simp: value_token_def)
qed

lemma consume_tokens:
  assumes "consume s = (Some c, r)"
  shows "(\<forall>x \<in> set (cookie_name c). name_char x) \<and> value_token (cookie_value c)"
  using assms
proof (cases rule: consume_cases)
  case (with_value ws t u)
  then show ?thesis using value_token_trimmed by simp
qed simp_all

section \<open>Printing and parsing\<close>

definition render_cookie :: "cookie \<Rightarrow> string" where
  "render_cookie c = cookie_name c @ ''='' @ cookie_value c"

fun render_jar :: "cookie list \<Rightarrow> string" where
  "render_jar [] = []"
| "render_jar [c] = render_cookie c"
| "render_jar (c # cs) = render_cookie c @ ''; '' @ render_jar cs"

definition well_formed_cookie :: "cookie \<Rightarrow> bool" where
  "well_formed_cookie c \<longleftrightarrow>
     (\<forall>x \<in> set (cookie_name c). name_char x) \<and> value_token (cookie_value c) \<and>
     (cookie_value c \<noteq> [] \<longrightarrow> hd (cookie_value c) \<noteq> CHR ''='')"

lemma value_end_stop:
  assumes "value_token v" and "rest = [] \<or> hd rest = CHR '';''"
  shows "value_end (v @ rest) = length v"
proof -
  have "CHR '';'' \<notin> set v \<Longrightarrow> NUL \<notin> set v \<Longrightarrow> \<not> occurs CRLF v \<Longrightarrow>
      v = [] \<or> \<not> isspace (last v) \<Longrightarrow> value_end (v @ rest) = length v"
  proof (induction v)
    case Nil
    then show ?case using assms(2) by (cases rest) auto
  next
    case (Cons c v)
    have "\<not> starts_with CRLF (c # v @ rest)"
    proof
      assume crlf: "starts_with CRLF (c # v @ rest)"
      then have c: "c = CHR 0x0D" by (simp add: starts_with_def)
      show False
      proof (cases v)
        case Nil
        with c Cons.prems(4) show ?thesis by (simp add: isspace_def)
      next
        case (Cons d v')
        with crlf have "starts_with CRLF (c # v)" by (simp add: starts_with_def)
        then show ?thesis using Cons.prems(3) occurs_Cons by blast
      qed
    qed
    moreover have "v = [] \<or> \<not> isspace (last v)" using Cons.prems(4) by auto
    moreover have "\<not> occurs CRLF v" using Cons.prems(3) occurs_Cons by blast
    ultimately show ?case using Cons by (auto simp: is_eol_at_def)
  qed
  then show ?thesis using assms(1) by (auto simp: value_token_def)
qed

lemma trim_space_prefix_id: "s = [] \<or> \<not> isspace (hd s) \<Longrightarrow> trim_space_prefix s = s"
  by (cases s) (auto simp: trim_space_prefix_def)

lemma trim_space_suffix_id: "s = [] \<or> \<not> isspace (last s) \<Longrightarrow> trim_space_suffix s = s"
  by (cases s rule: rev_cases) (auto simp: trim_space_suffix_def)

lemma takeWhile_name:
  "\<forall>x \<in> set n. name_char x \<Longrightarrow> takeWhile name_char (n @ CHR ''='' # t) = n"
  by (induction n) (auto simp: name_char_def)

lemma skip_equals_value:
  "front_or_NUL t \<noteq> CHR ''='' \<Longrightarrow> skip_equals (CHR ''='' # t) = t"
  by simp

lemma consume_render:
  assumes wf: "well_formed_cookie c" and rest: "rest = [] \<or> hd rest = CHR '';''"
  shows "consume (render_cookie c @ rest) = (Some c, drop 1 rest)"
proof -
  let ?n = "cookie_name c" and ?v = "cookie_value c"
  let ?s = "?n @ CHR ''='' # ?v @ rest"
  have n: "\<forall>x \<in> set ?n. name_char x" and v: "value_token ?v"
    and veq: "?v \<noteq> [] \<Longrightarrow> hd ?v \<noteq> CHR ''=''"
    using wf by (auto simp: well_formed_cookie_def)
  have s: "trim_space_prefix ?s = ?s"
    using n by (intro trim_space_prefix_id) (cases ?n; auto simp: name_char_def isspace_def)
  have tw: "takeWhile name_char ?s = ?n" by (rule takeWhile_name [OF n])
  have u: "trim_space_prefix (skip_equals (CHR ''='' # ?v @ rest)) = ?v @ rest"
  proof -
    have "front_or_NUL (?v @ rest) \<noteq> CHR ''=''"
      using veq rest by (cases ?v; cases rest) (auto simp: front_or_NUL_def)
    then have "skip_equals (CHR ''='' # ?v @ rest) = ?v @ rest" by simp
    moreover have "trim_space_prefix (?v @ rest) = ?v @ rest"
      using v rest
      by (intro trim_space_prefix_id) (cases ?v; cases rest; auto simp: value_token_def isspace_def)
    ultimately show ?thesis by simp
  qed
  have eq: "trim_space_prefix (CHR ''='' # ?v @ rest) = CHR ''='' # ?v @ rest"
    by (intro trim_space_prefix_id) (simp add: isspace_def)
  have ve: "value_end (?v @ rest) = length ?v" by (rule value_end_stop [OF v rest])
  have sv: "trim_space_suffix ?v = ?v"
    using v by (intro trim_space_suffix_id) (auto simp: value_token_def)
  have hd: "length ?n = 0 \<Longrightarrow> hd ?s = CHR ''=''" by simp
  have r: "(if starts_with '';'' rest then drop 1 rest else rest) = drop 1 rest"
    using rest by (cases rest) (auto simp: starts_with_def)
  have "consume ?s = (Some c, if starts_with '';'' rest then drop 1 rest else rest)"
    using hd by (simp add: consume_def Let_def s tw eq u ve sv del: skip_equals.simps)
  with r show ?thesis by (simp add: render_cookie_def)
qed

lemma parse_jar_space: "parse_jar (CHR '' '' # s) = parse_jar s"
proof -
  have "consume (CHR '' '' # s) = consume s"
    by (simp add: consume_def trim_space_prefix_def isspace_def)
  then show ?thesis by (simp add: parse_jar.simps [of s] parse_jar.simps [of "CHR '' '' # s"])
qed

lemma parse_jar_Nil: "parse_jar [] = []"
  by (simp add: parse_jar.simps consume_def trim_space_prefix_def)

lemma parse_jar_render:
  "\<forall>c \<in> set cs. well_formed_cookie c \<Longrightarrow> parse_jar (render_jar cs) = cs"
proof (induction cs rule: render_jar.induct)
  case 1
  then show ?case by (simp add: parse_jar_Nil)
next
  case (2 c)
  then show ?case
    using consume_render [of c "[]"] by (simp add: parse_jar.simps [of "render_cookie c"] parse_jar_Nil)
next
  case (3 c d ds)
  let ?rest = "''; '' @ render_jar (d # ds)"
  have "consume (render_cookie c @ ?rest) = (Some c, drop 1 ?rest)"
    using 3 by (intro consume_render) simp_all
  then have "parse_jar (render_cookie c @ ?rest) = c # parse_jar (drop 1 ?rest)"
    by (subst parse_jar.simps) simp
  then show ?case
    using 3 by (simp add: parse_jar_space)
qed

text \<open>The cookie loop always ends: each cookie \<open>Cookie::consume\<close> returns takes at least one
  byte off the front of the view, and what is left is a suffix of what was there.\<close>

theorem consume_makes_progress:
  assumes "consume s = (Some c, r)"
  shows "length r < length s \<and> (\<exists>p. s = p @ r)"
  using consume_progress [OF assms] consume_suffix_Some [OF assms] by blast

theorem consume_makes_progress_witness:
  "consume ''k1=v1;k2'' = (Some \<lparr>cookie_name = ''k1'', cookie_value = ''v1''\<rparr>, ''k2'') \<and>
   length ''k2'' < length ''k1=v1;k2'' \<and> (\<exists>p. ''k1=v1;k2'' = p @ ''k2'')"
proof -
  have c: "consume ''k1=v1;k2'' = (Some \<lparr>cookie_name = ''k1'', cookie_value = ''v1''\<rparr>, ''k2'')"
    by code_simp
  from consume_makes_progress [OF c] c show ?thesis by simp
qed

text \<open>Every cookie the parser returns has a name token without separators, white space or
  NUL, and a value token without separator, NUL or line end and trimmed on both sides.\<close>

theorem consume_returns_tokens:
  assumes "consume s = (Some c, r)"
  shows "(\<forall>x \<in> set (cookie_name c). name_char x) \<and> value_token (cookie_value c)"
  using assms by (rule consume_tokens)

theorem consume_returns_tokens_witness:
  "consume ''a==b ;'' = (Some \<lparr>cookie_name = ''a'', cookie_value = ''b''\<rparr>, []) \<and>
   name_char (CHR ''a'') \<and> value_token ''b''"
proof -
  have c: "consume ''a==b ;'' = (Some \<lparr>cookie_name = ''a'', cookie_value = ''b''\<rparr>, [])"
    by code_simp
  from consume_returns_tokens [OF c] c show ?thesis by simp
qed

text \<open>C36: Parsing undoes printing: a jar of well-formed cookies written the way a browser sends
  it (\<open>name=value\<close> pairs separated by \<open>"; "\<close>) is read back cookie for cookie.\<close>

theorem cookie_jar_roundtrip:
  assumes "\<forall>c \<in> set cs. well_formed_cookie c"
  shows "parse_jar (render_jar cs) = cs"
  using assms by (rule parse_jar_render)

theorem cookie_jar_roundtrip_witness:
  "parse_jar ''k1=v1; deflect=abc=''  =
     [\<lparr>cookie_name = ''k1'', cookie_value = ''v1''\<rparr>,
      \<lparr>cookie_name = ''deflect'', cookie_value = ''abc=''\<rparr>]"
  using cookie_jar_roundtrip
    [of "[\<lparr>cookie_name = ''k1'', cookie_value = ''v1''\<rparr>,
          \<lparr>cookie_name = ''deflect'', cookie_value = ''abc=''\<rparr>]"]
  by (simp add: render_cookie_def well_formed_cookie_def name_char_def value_token_def
      isspace_def occurs_Cons occurs_Nil starts_with_def)

end
