(* ===== verification/Libcaptcha.thy ===== *)
theory Libcaptcha
  imports Prelude CaptchaGlyphs "HOL-Library.Signed_Division"
begin

text \<open>
  The captcha images of libcaptcha.c. An image is an array of 70 rows of 200 bytes, a pointer into it an
  offset; every access is checked against its array, so a run into undefined behaviour is the value
  \<open>OutOfBoundsRead\<close> or \<open>BufferOverflow\<close>. Drawing (\<open>letter\<close>, \<open>dots\<close>, \<open>blur\<close>, \<open>filter\<close>, \<open>line\<close>) comes
  first, then \<open>captcha\<close>. The bytes that /dev/urandom delivers are the record \<open>captcha_random\<close>: the
  contents of the buffers after the reads.
\<close>

type_synonym byte = "8 word"

section \<open>Arrays and loops\<close>

definition read_at :: "'a list \<Rightarrow> int \<Rightarrow> 'a result" where
  "read_at xs k = (if 0 \<le> k \<and> k < int (length xs) then Inr (xs ! nat k) else Inl OutOfBoundsRead)"

definition write_at :: "'a list \<Rightarrow> int \<Rightarrow> 'a \<Rightarrow> 'a list result" where
  "write_at xs k v = (if 0 \<le> k \<and> k < int (length xs) then Inr (xs[nat k := v]) else Inl BufferOverflow)"

text \<open>\<open>p[k] = v\<close> for each of the pairs, in this order.\<close>

fun write_all :: "'a list \<Rightarrow> (int \<times> 'a) list \<Rightarrow> 'a list result" where
  "write_all xs [] = Inr xs"
| "write_all xs ((k, v) # ws) = rbind (write_at xs k v) (\<lambda>xs'. write_all xs' ws)"

text \<open>\<open>for (k = a; k < a + n; k++) s = f(k, s)\<close>\<close>

fun for_loop :: "nat \<Rightarrow> (nat \<Rightarrow> 's \<Rightarrow> 's result) \<Rightarrow> nat \<Rightarrow> 's \<Rightarrow> 's result" where
  "for_loop a f 0 s = Inr s"
| "for_loop a f (Suc n) s = rbind (f a s) (for_loop (Suc a) f n)"

lemma read_at_ok [simp]: "0 \<le> k \<Longrightarrow> k < int (length xs) \<Longrightarrow> read_at xs k = Inr (xs ! nat k)"
  by (simp add: read_at_def)

lemma read_at_bad: "int (length xs) \<le> k \<Longrightarrow> read_at xs k = Inl OutOfBoundsRead"
  by (simp add: read_at_def)

lemma write_at_ok [simp]: "0 \<le> k \<Longrightarrow> k < int (length xs) \<Longrightarrow> write_at xs k v = Inr (xs[nat k := v])"
  by (simp add: write_at_def)

text \<open>A loop whose body always keeps an invariant ends with it.\<close>

lemma for_loop_total:
  assumes "I a s" and "\<And>k s. a \<le> k \<Longrightarrow> k < a + n \<Longrightarrow> I k s \<Longrightarrow> \<exists>s'. f k s = Inr s' \<and> I (Suc k) s'"
  shows "\<exists>s'. for_loop a f n s = Inr s' \<and> I (a + n) s'"
  using assms
proof (induction n arbitrary: a s)
  case (Suc n)
  from Suc.prems(1) Suc.prems(2) [of a s] obtain s1 where s1: "f a s = Inr s1" "I (Suc a) s1" by auto
  have "\<exists>s'. for_loop (Suc a) f n s1 = Inr s' \<and> I (Suc a + n) s'"
    by (rule Suc.IH [OF s1(2)]) (rule Suc.prems(2), simp_all)
  with s1(1) show ?case by simp
qed simp

text \<open>Writes within the array succeed; what holds of the old contents and of the values holds of the new ones.\<close>

lemma write_all_total:
  assumes "list_all (\<lambda>(k, v). 0 \<le> k \<and> k < int (length xs)) ws"
  shows "\<exists>ys. write_all xs ws = Inr ys \<and> length ys = length xs \<and> set ys \<subseteq> set xs \<union> snd ` set ws"
  using assms
proof (induction xs ws rule: write_all.induct)
  case (2 xs k v ws)
  then have w: "write_at xs k v = Inr (xs[nat k := v])" by simp
  have "\<exists>ys. write_all (xs[nat k := v]) ws = Inr ys \<and> length ys = length (xs[nat k := v]) \<and>
      set ys \<subseteq> set (xs[nat k := v]) \<union> snd ` set ws"
    by (rule "2.IH") (use "2.prems" in simp)
  moreover have "set (xs[nat k := v]) \<subseteq> insert v (set xs)" by (rule set_update_subset_insert)
  ultimately show ?case by (auto simp: w subset_iff)
qed simp

section \<open>Letters\<close>

text \<open>The variables of \<open>letter\<close> that change; \<open>r_ptr\<close> and \<open>i_ptr\<close> are offsets into the image.\<close>

record pen =
  r_ptr :: int
  i_ptr :: int
  sk1 :: int
  sk2 :: int
  mpos :: int
  row :: nat
  ink :: "byte list"

definition wrap_sk :: "int \<Rightarrow> int" where
  "wrap_sk sk = (if 200 \<le> sk then sk mod 200 else sk)"

definition draw_pixel :: "int \<Rightarrow> byte list \<Rightarrow> int \<Rightarrow> pen \<Rightarrow> pen result" where
  "draw_pixel pos swr v P =
     (let k1 = wrap_sk (sk1 P); k2 = wrap_sk (sk2 P) in
      rbind (read_at sw k1) (\<lambda>w1.
      rbind (read_at swr (pos + i_ptr P - r_ptr P)) (\<lambda>b1.
      rbind (read_at sw k2) (\<lambda>w2.
      rbind (read_at swr (int (row P))) (\<lambda>b2.
      let skew = w1 sdiv 16;
          skewh = w2 sdiv 70;
          x = i_ptr P + skew * 200 + skewh in
      rbind (if x < 70 * 200 then write_at (ink P) x (word_of_int (v * 16)) else Inr (ink P)) (\<lambda>im.
      Inr (P\<lparr>i_ptr := i_ptr P + 1, sk1 := k1 + uint (b1 AND 1) + 1, sk2 := k2 + uint (b2 AND 1),
             mpos := (if mpos P > pos + i_ptr P - r_ptr P then mpos P else pos + i_ptr P - r_ptr P), ink := im\<rparr>)))))))"

fun letter_loop :: "int \<Rightarrow> byte list \<Rightarrow> byte \<Rightarrow> int list \<Rightarrow> pen \<Rightarrow> pen result" where
  "letter_loop pos swr s1 [] P = Inl OutOfBoundsRead"
| "letter_loop pos swr s1 (v # p) P =
     (if v = - 101 then Inr P
      else if v < 0 then
        (if v = - 100 then
           letter_loop pos swr s1 p
             (P\<lparr>r_ptr := r_ptr P + 200, i_ptr := r_ptr P + 200, sk1 := uint s1 + pos, row := row P + 1\<rparr>)
         else letter_loop pos swr s1 p (P\<lparr>i_ptr := i_ptr P + - v\<rparr>))
      else rbind (draw_pixel pos swr v P) (letter_loop pos swr s1 p))"

definition letter :: "nat \<Rightarrow> int \<Rightarrow> byte list \<Rightarrow> byte list \<Rightarrow> byte \<Rightarrow> byte \<Rightarrow> (int \<times> byte list) result" where
  "letter n pos im swr s1 s2 =
     rbind (read_at lt (int n)) (\<lambda>p.
     rbind (letter_loop pos swr s1 p
        \<lparr>r_ptr = 200 * 16 + pos, i_ptr = 200 * 16 + pos, sk1 = uint s1 + pos, sk2 = uint s2 + pos, mpos = pos, row = 0, ink = im\<rparr>) (\<lambda>P.
     Inr (mpos P, ink P)))"

section \<open>Noise\<close>

definition NDOTS :: nat where
  "NDOTS = 100"

definition line_step :: "byte list \<Rightarrow> nat \<Rightarrow> int \<times> byte list \<Rightarrow> (int \<times> byte list) result" where
  "line_step swr x = (\<lambda>(sk, im).
     let k = wrap_sk sk in
     rbind (read_at sw k) (\<lambda>w.
     rbind (read_at swr (int x)) (\<lambda>b.
     let skew = w sdiv 16; i = 200 * (45 + skew) + int x in
     rbind (write_all im [(i, 0), (i + 1, 0), (i + 200, 0), (i + 201, 0)]) (\<lambda>im'.
     Inr (k + uint (b AND 3) + 1, im')))))"

definition draw_line :: "byte list \<Rightarrow> byte list \<Rightarrow> byte \<Rightarrow> byte list result" where
  "draw_line im swr s1 = rbind (for_loop 0 (line_step swr) 199 (uint s1, im)) (\<lambda>(sk, im'). Inr im')"

definition dots_step :: "32 word list \<Rightarrow> nat \<Rightarrow> byte list \<Rightarrow> byte list result" where
  "dots_step dr n im =
     rbind (read_at dr (int n)) (\<lambda>v.
     let i = uint v mod (200 * 67) in
     write_all im [(i, 0xff), (i + 1, 0xff), (i + 2, 0xff), (i + 200, 0xff), (i + 201, 0xff), (i + 202, 0xff)])"

definition dots :: "32 word list \<Rightarrow> byte list \<Rightarrow> byte list result" where
  "dots dr im = for_loop 0 (dots_step dr) NDOTS im"

definition blur_step :: "nat \<Rightarrow> int \<times> byte list \<Rightarrow> (int \<times> byte list) result" where
  "blur_step x = (\<lambda>(i, im).
     rbind (read_at im i) (\<lambda>c11.
     rbind (read_at im (i + 1)) (\<lambda>c12.
     rbind (read_at im (i + 200)) (\<lambda>c21.
     rbind (read_at im (i + 201)) (\<lambda>c22.
     rbind (write_at im i (word_of_int ((uint c11 + uint c12 + uint c21 + uint c22) div 4))) (\<lambda>im'.
     Inr (i + 1, im')))))))"

definition blur :: "byte list \<Rightarrow> byte list result" where
  "blur im = rbind (for_loop 0 (\<lambda>y. for_loop 0 blur_step 198) 68 (0, im)) (\<lambda>(i, im'). Inr im')"

definition filter_step :: "byte list \<Rightarrow> nat \<Rightarrow> int \<times> byte list \<Rightarrow> (int \<times> byte list) result" where
  "filter_step im x = (\<lambda>(i, om).
     rbind (read_at im i) (\<lambda>a.
     rbind (read_at im (i + 1)) (\<lambda>b.
     rbind (if a > 0xf0 \<and> b < 0xf0 then write_all om [(i, 0), (i + 1, 0)]
            else if a < 0xf0 \<and> b > 0xf0 then write_all om [(i, 0), (i + 1, 0)]
            else Inr om) (\<lambda>om'.
     Inr (i + 1, om')))))"

definition filter_im :: "byte list \<Rightarrow> byte list result" where
  "filter_im im =
     rbind (for_loop 0 (\<lambda>y. for_loop 4 (filter_step im) 192) 70 (0, replicate (70 * 200) 0xff)) (\<lambda>(i, om).
     Inr om)"

section \<open>The image\<close>

record captcha_random =
  rnd_l :: "byte list"
  rnd_swr :: "byte list"
  rnd_dr :: "32 word list"
  rnd_s1 :: byte
  rnd_s2 :: byte

fun draw_letters :: "nat list \<Rightarrow> int \<Rightarrow> byte list \<Rightarrow> byte list \<Rightarrow> byte \<Rightarrow> byte \<Rightarrow> byte list result" where
  "draw_letters [] p im swr s1 s2 = Inr im"
| "draw_letters (n # ns) p im swr s1 s2 =
     rbind (letter n p im swr s1 s2) (\<lambda>(p', im'). draw_letters ns p' im' swr s1 s2)"

fun letter_names :: "nat list \<Rightarrow> string result" where
  "letter_names [] = Inr []"
| "letter_names (n # ns) =
     rbind (read_at (letters @ [NUL]) (int n)) (\<lambda>c. rbind (letter_names ns) (\<lambda>cs. Inr (c # cs)))"

text \<open>\<open>captcha\<close> on the text \<open>l\<close> (six bytes): all zero asks for a random word. What \<open>im\<close> held before is
  overwritten by \<open>memset\<close>. In the other branch \<open>swr\<close>, \<open>s1\<close> and \<open>s2\<close> are never set: the fields of
  \<open>captcha_random\<close> are then what the stack happened to hold, the last two masked.\<close>

definition captcha_image :: "captcha_random \<Rightarrow> byte list \<Rightarrow> (byte list \<times> string) result" where
  "captcha_image R l =
     (let random = (take 6 l = replicate 6 0);
          ns = (if random then map (\<lambda>b. unat (b mod 25)) (take 5 (rnd_l R)) else map (\<lambda>b. unat (b - 97)) (take 5 l));
          s1 = (if random then rnd_s1 R else rnd_s1 R AND 0x7f);
          s2 = (if random then rnd_s2 R else rnd_s2 R AND 0x3f) in
      rbind (draw_letters ns 30 (replicate (200 * 70) 0xff) (rnd_swr R) s1 s2) (\<lambda>im1.
      rbind (dots (rnd_dr R) im1) (\<lambda>im2.
      rbind (blur im2) (\<lambda>im3.
      rbind (filter_im im3) (\<lambda>im4.
      rbind (draw_line im4 (rnd_swr R) s1) (\<lambda>im5.
      rbind (letter_names ns) (\<lambda>txt.
      Inr (im5, txt))))))))"

section \<open>Drawing stays within its arrays\<close>

lemma sw_bound: "w \<in> set sw \<Longrightarrow> \<bar>w\<bar> \<le> 127"
proof -
  have "list_all (\<lambda>w. \<bar>w\<bar> \<le> 127) sw" by code_simp
  then show "w \<in> set sw \<Longrightarrow> \<bar>w\<bar> \<le> 127" by (simp add: list_all_iff)
qed

lemma length_sw: "length sw = 200"
  by code_simp

lemma sdiv_bound:
  fixes w d :: int
  assumes "\<bar>w\<bar> \<le> b" and "0 < d"
  shows "- (b div d) \<le> w sdiv d" and "w sdiv d \<le> b div d"
proof -
  have "\<bar>w\<bar> div d \<le> b div d" "0 \<le> \<bar>w\<bar> div d" using assms by (simp_all add: zdiv_mono1 pos_imp_zdiv_nonneg_iff)
  with assms show "- (b div d) \<le> w sdiv d" "w sdiv d \<le> b div d"
    by (auto simp: signed_divide_int_def sgn_if)
qed

lemma wrap_sk_range: "0 \<le> sk \<Longrightarrow> 0 \<le> wrap_sk sk \<and> wrap_sk sk < 200"
  by (auto simp: wrap_sk_def)

text \<open>Reading the sine table at a wrapped index gives a skew of at most seven rows or one column.\<close>

lemma read_sw:
  assumes "0 \<le> sk"
  obtains w where "read_at sw (wrap_sk sk) = Inr w"
    and "- 7 \<le> w sdiv 16" "w sdiv 16 \<le> 7" "- 1 \<le> w sdiv 70" "w sdiv 70 \<le> 1"
proof
  let ?w = "sw ! nat (wrap_sk sk)"
  show "read_at sw (wrap_sk sk) = Inr ?w" using wrap_sk_range [OF assms] by (simp add: length_sw)
  have "nat (wrap_sk sk) < length sw" using wrap_sk_range [OF assms] by (simp add: length_sw nat_less_iff)
  then have "?w \<in> set sw" by (rule nth_mem)
  then have "\<bar>?w\<bar> \<le> 127" by (rule sw_bound)
  from sdiv_bound [OF this, of 16] sdiv_bound [OF this, of 70]
  show "- 7 \<le> ?w sdiv 16" "?w sdiv 16 \<le> 7" "- 1 \<le> ?w sdiv 70" "?w sdiv 70 \<le> 1" by simp_all
qed

subsection \<open>One letter\<close>

text \<open>The cells of a glyph that hold ink, by row and column, and the number of columns it advances.\<close>

fun cells :: "int list \<Rightarrow> nat \<Rightarrow> int \<Rightarrow> (nat \<times> int) list" where
  "cells [] r c = []"
| "cells (v # p) r c =
     (if v = - 101 then []
      else if v < 0 then (if v = - 100 then cells p (r + 1) 0 else cells p r (c + - v))
      else (r, c) # cells p r (c + 1))"

fun widest :: "(nat \<times> int) list \<Rightarrow> int \<Rightarrow> int" where
  "widest [] m = m"
| "widest ((r, c) # cs) m = widest cs (if m \<le> c then c else m)"

definition glyph_width :: "int list \<Rightarrow> int" where
  "glyph_width p = widest (cells p 0 0) 0"

definition glyph_ok :: "int list \<Rightarrow> bool" where
  "glyph_ok p \<longleftrightarrow> - 101 \<in> set p \<and> (\<forall>(r, c) \<in> set (cells p 0 0). r < 50)"

definition pen_at :: "int \<Rightarrow> int \<Rightarrow> pen \<Rightarrow> bool" where
  "pen_at pos c P \<longleftrightarrow>
     0 \<le> pos \<and> 0 \<le> c \<and> r_ptr P = 200 * (16 + int (row P)) + pos \<and> i_ptr P = r_ptr P + c \<and>
     0 \<le> sk1 P \<and> 0 \<le> sk2 P \<and> length (ink P) = 14000"

lemma draw_pixel_ok:
  assumes "pen_at pos c P" and "length swr = 200" and "row P < 50" and "pos + c < 200"
  shows "\<exists>P'. draw_pixel pos swr v P = Inr P' \<and> pen_at pos (c + 1) P' \<and> row P' = row P \<and>
    mpos P' = max (mpos P) (pos + c)"
proof -
  have pen: "0 \<le> pos" "0 \<le> c" "r_ptr P = 200 * (16 + int (row P)) + pos" "i_ptr P = r_ptr P + c"
    "0 \<le> sk1 P" "0 \<le> sk2 P" "length (ink P) = 14000" using assms(1) by (simp_all add: pen_at_def)
  obtain w1 where w1: "read_at sw (wrap_sk (sk1 P)) = Inr w1" "- 7 \<le> w1 sdiv 16" "w1 sdiv 16 \<le> 7"
    using read_sw [OF pen(5)] by metis
  obtain w2 where w2: "read_at sw (wrap_sk (sk2 P)) = Inr w2" "- 1 \<le> w2 sdiv 70" "w2 sdiv 70 \<le> 1"
    using read_sw [OF pen(6)] by metis
  have b1: "read_at swr (pos + i_ptr P - r_ptr P) = Inr (swr ! nat (pos + c))"
    using assms pen by (simp add: read_at_def)
  have b2: "read_at swr (int (row P)) = Inr (swr ! row P)" using assms by (simp add: read_at_def)
  define x where "x = i_ptr P + w1 sdiv 16 * 200 + w2 sdiv 70"
  have "0 \<le> x" using pen w1 w2 by (simp add: x_def)
  then obtain im where im: "(if x < 70 * 200 then write_at (ink P) x (word_of_int (v * 16)) else Inr (ink P)) = Inr im"
    "length im = 14000"
    using pen(7) by (cases "x < 70 * 200") auto
  have k: "0 \<le> wrap_sk (sk1 P)" "0 \<le> wrap_sk (sk2 P)" using wrap_sk_range pen by simp_all
  show ?thesis
    unfolding draw_pixel_def w1(1) w2(1) b1 b2 Let_def rbind_simps x_def [symmetric] im(1)
    using pen k im(2) by (simp add: pen_at_def max_def)
qed

lemma draw_pixel_bad:
  assumes "pen_at pos c P" and "length swr = 200" and "200 \<le> pos + c"
  shows "draw_pixel pos swr v P = Inl OutOfBoundsRead"
proof -
  have pen: "i_ptr P = r_ptr P + c" "0 \<le> sk1 P" using assms(1) by (simp_all add: pen_at_def)
  obtain w1 where "read_at sw (wrap_sk (sk1 P)) = Inr w1" using read_sw [OF pen(2)] by metis
  moreover have "read_at swr (pos + i_ptr P - r_ptr P) = Inl OutOfBoundsRead"
    using assms pen by (intro read_at_bad) simp
  ultimately show ?thesis by (simp add: draw_pixel_def)
qed

lemma letter_loop_ok:
  assumes "pen_at pos c P" and "length swr = 200" and "- 101 \<in> set p"
    and "\<forall>(r, c) \<in> set (cells p (row P) c). r < 50 \<and> pos + c < 200"
  shows "\<exists>P'. letter_loop pos swr s1 p P = Inr P' \<and> length (ink P') = 14000 \<and>
    mpos P' = widest (map (map_prod id ((+) pos)) (cells p (row P) c)) (mpos P)"
  using assms
proof (induction p arbitrary: c P)
  case (Cons v p)
  consider "v = - 101" | "v = - 100" | "v < 0" "v \<noteq> - 101" "v \<noteq> - 100" | "0 \<le> v" by linarith
  then show ?case
  proof cases
    case 1
    with Cons.prems show ?thesis by (simp add: pen_at_def)
  next
    case 2
    let ?P = "P\<lparr>r_ptr := r_ptr P + 200, i_ptr := r_ptr P + 200, sk1 := uint s1 + pos, row := row P + 1\<rparr>"
    have "pen_at pos 0 ?P" using Cons.prems(1) by (simp add: pen_at_def)
    from Cons.IH [OF this Cons.prems(2)] Cons.prems(3,4) 2 show ?thesis by simp
  next
    case 3
    have "pen_at pos (c + - v) (P\<lparr>i_ptr := i_ptr P + - v\<rparr>)" using Cons.prems(1) 3 by (simp add: pen_at_def)
    from Cons.IH [OF this Cons.prems(2)] Cons.prems(3,4) 3 show ?thesis by simp
  next
    case 4
    with Cons.prems(4) have "row P < 50" "pos + c < 200" by simp_all
    from draw_pixel_ok [OF Cons.prems(1,2) this, of v] obtain P' where P':
      "draw_pixel pos swr v P = Inr P'" "pen_at pos (c + 1) P'" "row P' = row P" "mpos P' = max (mpos P) (pos + c)" by blast
    from Cons.IH [OF P'(2) Cons.prems(2)] Cons.prems(3,4) 4 P'(1,3,4) show ?thesis by (simp add: max_def)
  qed
qed simp

lemma letter_loop_bad:
  assumes "pen_at pos c P" and "length swr = 200" and "\<forall>(r, c) \<in> set (cells p (row P) c). r < 50"
    and "\<exists>(r, c) \<in> set (cells p (row P) c). 200 \<le> pos + c"
  shows "letter_loop pos swr s1 p P = Inl OutOfBoundsRead"
  using assms
proof (induction p arbitrary: c P)
  case (Cons v p)
  consider "v = - 101" | "v = - 100" | "v < 0" "v \<noteq> - 101" "v \<noteq> - 100" | "0 \<le> v" "200 \<le> pos + c" | "0 \<le> v" "pos + c < 200"
    by linarith
  then show ?case
  proof cases
    case 1
    with Cons.prems show ?thesis by simp
  next
    case 2
    let ?P = "P\<lparr>r_ptr := r_ptr P + 200, i_ptr := r_ptr P + 200, sk1 := uint s1 + pos, row := row P + 1\<rparr>"
    have "pen_at pos 0 ?P" using Cons.prems(1) by (simp add: pen_at_def)
    from Cons.IH [OF this Cons.prems(2)] Cons.prems(3,4) 2 show ?thesis by simp
  next
    case 3
    have "pen_at pos (c + - v) (P\<lparr>i_ptr := i_ptr P + - v\<rparr>)" using Cons.prems(1) 3 by (simp add: pen_at_def)
    from Cons.IH [OF this Cons.prems(2)] Cons.prems(3,4) 3 show ?thesis by simp
  next
    case 4
    then show ?thesis using draw_pixel_bad [OF Cons.prems(1,2) 4(2), of v] by simp
  next
    case 5
    with Cons.prems(3) have "row P < 50" by simp
    from draw_pixel_ok [OF Cons.prems(1,2) this 5(2), of v] obtain P' where P':
      "draw_pixel pos swr v P = Inr P'" "pen_at pos (c + 1) P'" "row P' = row P" by blast
    from Cons.IH [OF P'(2) Cons.prems(2)] Cons.prems(3,4) 5 P'(1,3) show ?thesis by simp
  qed
qed simp

lemma widest_shift: "widest (map (map_prod id ((+) pos)) cs) (pos + d) = pos + widest cs d"
  by (induction cs d rule: widest.induct) auto

lemma widest_less: "widest cs d < b \<longleftrightarrow> d < b \<and> (\<forall>(r, c) \<in> set cs. c < b)"
  by (induction cs d rule: widest.induct) auto

text \<open>Both facts of a glyph in one pass.\<close>

fun glyph_check :: "int list \<Rightarrow> int \<Rightarrow> int \<Rightarrow> int \<Rightarrow> int option" where
  "glyph_check [] r c m = None"
| "glyph_check (v # p) r c m =
     (if v = - 101 then Some m
      else if v < 0 then (if v = - 100 then glyph_check p (r + 1) 0 m else glyph_check p r (c - v) m)
      else if r < 50 then glyph_check p r (c + 1) (if m \<le> c then c else m) else None)"

lemma glyph_checkD:
  "glyph_check p (int r) c m = Some w \<Longrightarrow>
     - 101 \<in> set p \<and> (\<forall>(r, c) \<in> set (cells p r c). r < 50) \<and> widest (cells p r c) m = w"
proof (induction p arbitrary: r c m)
  case (Cons v p)
  from Cons.prems Cons.IH [of "r + 1" 0 m] Cons.IH [of r "c - v" m] Cons.IH [of r "c + 1" "if m \<le> c then c else m"]
  show ?case by (simp add: algebra_simps split: if_splits)
qed simp

lemma lt_check:
  "map (\<lambda>p. glyph_check p 0 0 0) lt =
     map Some [22, 23, 19, 24, 22, 16, 22, 24, 9, 11, 26, 11, 39, 25, 22, 23, 23, 18, 15, 15, 25, 25, 37, 28, 25]"
  by code_simp

lemma length_lt: "length lt = 25"
  by (simp add: lt_def)

lemma lt_glyph:
  assumes "n < 25"
  shows "glyph_ok (lt ! n)"
    and "glyph_width (lt ! n) =
      [22, 23, 19, 24, 22, 16, 22, 24, 9, 11, 26, 11, 39, 25, 22, 23, 23, 18, 15, 15, 25, 25, 37, 28, 25] ! n" (is "_ = ?ws ! n")
proof -
  have "map (\<lambda>p. glyph_check p 0 0 0) lt ! n = map Some ?ws ! n" by (simp only: lt_check)
  moreover have "length ?ws = 25" by simp
  ultimately have "glyph_check (lt ! n) 0 0 0 = Some (?ws ! n)" using assms by (simp only: nth_map length_lt)
  then have "glyph_check (lt ! n) (int 0) 0 0 = Some (?ws ! n)" by simp
  from glyph_checkD [OF this]
  show "glyph_ok (lt ! n)" "glyph_width (lt ! n) = ?ws ! n" unfolding glyph_ok_def glyph_width_def by blast+
qed

lemma letter_spec:
  assumes "n < 25" and "0 \<le> pos" and "pos < 200" and "length im = 14000" and "length swr = 200"
  shows "pos + glyph_width (lt ! n) < 200 \<Longrightarrow>
      \<exists>im'. letter n pos im swr s1 s2 = Inr (pos + glyph_width (lt ! n), im') \<and> length im' = 14000"
    and "200 \<le> pos + glyph_width (lt ! n) \<Longrightarrow> letter n pos im swr s1 s2 = Inl OutOfBoundsRead"
proof -
  define P where "P = \<lparr>r_ptr = 200 * 16 + pos, i_ptr = 200 * 16 + pos, sk1 = uint s1 + pos, sk2 = uint s2 + pos,
    mpos = pos, row = 0, ink = im\<rparr>"
  have pen: "pen_at pos 0 P" using assms by (simp add: pen_at_def P_def)
  have ok: "- 101 \<in> set (lt ! n)" "\<forall>(r, c) \<in> set (cells (lt ! n) (row P) 0). r < 50"
    using lt_glyph(1) [OF assms(1)] by (simp_all add: glyph_ok_def P_def)
  have fits: "pos + glyph_width (lt ! n) < 200 \<longleftrightarrow> (\<forall>(r, c) \<in> set (cells (lt ! n) (row P) 0). pos + c < 200)"
    using assms(3) widest_less [of "cells (lt ! n) 0 0" 0 "200 - pos"] by (auto simp: glyph_width_def P_def)
  have lt: "read_at lt (int n) = Inr (lt ! n)" using assms(1) by (simp add: lt_def)
  have unfold: "letter n pos im swr s1 s2 = rbind (letter_loop pos swr s1 (lt ! n) P) (\<lambda>P. Inr (mpos P, ink P))"
    by (simp add: letter_def lt P_def)
  have mp: "widest (map (map_prod id ((+) pos)) (cells (lt ! n) (row P) 0)) (mpos P) = pos + glyph_width (lt ! n)"
    using widest_shift [of pos "cells (lt ! n) 0 0" 0] by (simp add: glyph_width_def P_def)
  {
    assume "pos + glyph_width (lt ! n) < 200"
    with fits ok(2) have "\<forall>(r, c) \<in> set (cells (lt ! n) (row P) 0). r < 50 \<and> pos + c < 200" by auto
    from letter_loop_ok [OF pen assms(5) ok(1) this, of s1]
    show "\<exists>im'. letter n pos im swr s1 s2 = Inr (pos + glyph_width (lt ! n), im') \<and> length im' = 14000"
      unfolding unfold mp by auto
  next
    assume "200 \<le> pos + glyph_width (lt ! n)"
    then have "\<exists>(r, c) \<in> set (cells (lt ! n) (row P) 0). 200 \<le> pos + c" using fits by (simp add: not_less Bex_def case_prod_beta Ball_def)
    from letter_loop_bad [OF pen assms(5) ok(2) this, of s1]
    show "letter n pos im swr s1 s2 = Inl OutOfBoundsRead" unfolding unfold by simp
  }
qed

lemma widest_ge: "m \<le> widest cs m"
  by (induction cs m rule: widest.induct) (auto split: if_splits)

lemma glyph_width_pos: "0 \<le> glyph_width p"
  unfolding glyph_width_def by (rule widest_ge)

text \<open>The width of a word: the sum of the widths of its letters.\<close>

definition word_width :: "nat list \<Rightarrow> int" where
  "word_width ns = sum_list (map (\<lambda>n. glyph_width (lt ! n)) ns)"

lemma word_width_nonneg: "0 \<le> word_width ns"
  by (induction ns) (auto simp: word_width_def glyph_width_pos add_nonneg_nonneg)

lemma draw_letters_spec:
  assumes "set ns \<subseteq> {..<25}" and "0 \<le> pos" and "pos < 200" and "length im = 14000" and "length swr = 200"
  shows "pos + word_width ns < 200 \<Longrightarrow>
      \<exists>im'. draw_letters ns pos im swr s1 s2 = Inr im' \<and> length im' = 14000"
    and "200 \<le> pos + word_width ns \<Longrightarrow> draw_letters ns pos im swr s1 s2 = Inl OutOfBoundsRead"
  using assms
proof (induction ns arbitrary: pos im)
  case (Cons n ns)
  {
    case 1
    then have w: "word_width (n # ns) = glyph_width (lt ! n) + word_width ns" "0 \<le> word_width ns" "0 \<le> glyph_width (lt ! n)"
      by (simp_all add: word_width_def [of "n # ns"] word_width_def [of ns, symmetric] word_width_nonneg glyph_width_pos)
    with 1 obtain im1 where "letter n pos im swr s1 s2 = Inr (pos + glyph_width (lt ! n), im1)" "length im1 = 14000"
      using letter_spec(1) [of n pos im swr s1 s2] by auto
    then show ?case using Cons.IH(1) [of "pos + glyph_width (lt ! n)" im1] 1 w by simp
  next
    case 2
    then have w: "word_width (n # ns) = glyph_width (lt ! n) + word_width ns" "0 \<le> glyph_width (lt ! n)"
      by (simp_all add: word_width_def [of "n # ns"] word_width_def [of ns, symmetric] glyph_width_pos)
    show ?case
    proof (cases "pos + glyph_width (lt ! n) < 200")
      case True
      then obtain im1 where "letter n pos im swr s1 s2 = Inr (pos + glyph_width (lt ! n), im1)" "length im1 = 14000"
        using letter_spec(1) [of n pos im swr s1 s2] 2 by auto
      then show ?thesis using Cons.IH(2) [of "pos + glyph_width (lt ! n)" im1] 2 w True by simp
    next
      case False
      then show ?thesis using letter_spec(2) [of n pos im swr s1 s2] 2 by simp
    qed
  }
qed (simp_all add: word_width_def)

subsection \<open>Noise\<close>

lemma dots_total:
  assumes "length dr = NDOTS" and "length im = 14000"
  shows "\<exists>im'. dots dr im = Inr im' \<and> length im' = 14000"
  unfolding dots_def
proof (rule for_loop_total [where I = "\<lambda>k im. length im = 14000"])
  fix k and s :: "byte list"
  assume k: "k < 0 + NDOTS" and s: "length s = 14000"
  define i where "i = uint (dr ! k) mod (200 * 67)"
  have "0 \<le> i" "i < 13400" by (simp_all add: i_def)
  then have "\<exists>ys. write_all s [(i, 0xff), (i + 1, 0xff), (i + 2, 0xff), (i + 200, 0xff), (i + 201, 0xff), (i + 202, 0xff)] = Inr ys \<and>
      length ys = length s"
    using write_all_total [of s "[(i, 0xff), (i + 1, 0xff), (i + 2, 0xff), (i + 200, 0xff), (i + 201, 0xff), (i + 202, 0xff)]"] s
    by (auto simp del: write_all.simps)
  then show "\<exists>s'. dots_step dr k s = Inr s' \<and> length s' = 14000"
    using k assms(1) s by (simp add: dots_step_def Let_def i_def)
qed (rule assms(2))

lemma draw_line_total:
  assumes "length swr = 200" and "length im = 14000"
  shows "\<exists>im'. draw_line im swr s1 = Inr im' \<and> length im' = 14000 \<and> set im' \<subseteq> insert 0 (set im)"
proof -
  let ?I = "\<lambda>k (sk, im'). 0 \<le> sk \<and> length im' = 14000 \<and> set im' \<subseteq> insert 0 (set im)"
  have "\<exists>s'. for_loop 0 (line_step swr) 199 (uint s1, im) = Inr s' \<and> ?I (0 + 199) s'"
  proof (rule for_loop_total [where I = ?I])
    fix k and s :: "int \<times> byte list"
    assume k: "k < 0 + (199 :: nat)" and "?I k s"
    then obtain sk im' where s: "s = (sk, im')" "0 \<le> sk" "length im' = 14000" "set im' \<subseteq> insert 0 (set im)" by auto
    obtain w where w: "read_at sw (wrap_sk sk) = Inr w" "- 7 \<le> w sdiv 16" "w sdiv 16 \<le> 7" using read_sw [OF s(2)] by metis
    define i where "i = 200 * (45 + w sdiv 16) + int k"
    have i: "0 \<le> i" "i + 201 < 14000" using w k by (simp_all add: i_def)
    then obtain ys where "write_all im' [(i, 0), (i + 1, 0), (i + 200, 0), (i + 201, 0)] = Inr ys" "length ys = length im'"
        "set ys \<subseteq> set im' \<union> snd ` set [(i, 0), (i + 1, 0), (i + 200, 0), (i + 201, 0)]"
      using write_all_total [of im' "[(i, 0), (i + 1, 0), (i + 200, 0), (i + 201, 0)]"] s(3) by (auto simp del: write_all.simps)
    then show "\<exists>s'. line_step swr k s = Inr s' \<and> ?I (Suc k) s'"
      unfolding i_def using k assms(1) s w(1) wrap_sk_range [OF s(2)] by (auto simp: line_step_def Let_def simp del: write_all.simps)
  qed (use assms in auto)
  then show ?thesis by (auto simp: draw_line_def)
qed

text \<open>\<open>blur\<close> and \<open>filter\<close> run over the image without regard to its rows; a nested loop that moves the
  pointer by one each time.\<close>

lemma nested_loop_total:
  assumes "I 0 s" and "\<And>x k s. I k s \<Longrightarrow> k < m * n \<Longrightarrow> \<exists>s'. f x s = Inr s' \<and> I (Suc k) s'"
  shows "\<exists>s'. for_loop 0 (\<lambda>y. for_loop a f m) n s = Inr s' \<and> I (m * n) s'"
proof -
  have "\<exists>s'. for_loop 0 (\<lambda>y. for_loop a f m) n s = Inr s' \<and> (\<lambda>y. I (m * y)) (0 + n) s'"
  proof (rule for_loop_total)
    fix y s assume y: "y < 0 + n" and s: "I (m * y) s"
    have "\<exists>s'. for_loop a f m s = Inr s' \<and> (\<lambda>x. I (m * y + (x - a))) (a + m) s'"
    proof (rule for_loop_total)
      fix x s assume x: "a \<le> x" "x < a + m" and s: "I (m * y + (x - a)) s"
      have "m * y + (x - a) < m * (y + 1)" using x by simp
      also have "\<dots> \<le> m * n" using y by (intro mult_le_mono2) simp
      finally have "\<exists>s'. f x s = Inr s' \<and> I (Suc (m * y + (x - a))) s'" by (rule assms(2) [OF s])
      then show "\<exists>s'. f x s = Inr s' \<and> I (m * y + (Suc x - a)) s'" using x by (simp add: Suc_diff_le)
    qed (use s in simp)
    then show "\<exists>s'. for_loop a f m s = Inr s' \<and> I (m * Suc y) s'" by (simp add: add.commute)
  qed (use assms(1) in simp)
  then show ?thesis by simp
qed

lemma blur_total:
  assumes "length im = 14000"
  shows "\<exists>im'. blur im = Inr im' \<and> length im' = 14000"
proof -
  let ?I = "\<lambda>k (i, im). i = int k \<and> length im = 14000"
  have "\<exists>s'. for_loop 0 (\<lambda>y. for_loop 0 blur_step 198) 68 (0, im) = Inr s' \<and> ?I (198 * 68) s'"
    by (rule nested_loop_total [where I = ?I]) (use assms in \<open>auto simp: blur_step_def\<close>)
  then show ?thesis by (auto simp: blur_def)
qed

lemma filter_total:
  assumes "length im = 14000"
  shows "\<exists>om. filter_im im = Inr om \<and> length om = 14000 \<and> set om \<subseteq> {0, 0xff}"
proof -
  let ?I = "\<lambda>k (i, om). i = int k \<and> length om = 14000 \<and> set om \<subseteq> {0, 0xff}"
  have "\<exists>s'. for_loop 0 (\<lambda>y. for_loop 4 (filter_step im) 192) 70 (0, replicate (70 * 200) 0xff) = Inr s' \<and> ?I (192 * 70) s'"
  proof (rule nested_loop_total [where I = ?I])
    fix x k and s :: "int \<times> byte list"
    assume "?I k s" and k: "k < 192 * 70"
    then obtain om where s: "s = (int k, om)" "length om = 14000" "set om \<subseteq> {0, 0xff}" by auto
    obtain ys where "write_all om [(int k, 0), (int k + 1, 0)] = Inr ys" "length ys = length om"
        "set ys \<subseteq> set om \<union> snd ` set [(int k, 0), (int k + 1, 0)]"
      using write_all_total [of om "[(int k, 0), (int k + 1, 0)]"] k s(2) by (auto simp del: write_all.simps)
    then show "\<exists>s'. filter_step im x s = Inr s' \<and> ?I (Suc k) s'"
      using k assms s by (auto simp: filter_step_def simp del: write_all.simps)
  qed simp
  then show ?thesis by (auto simp: filter_im_def)
qed

subsection \<open>The whole image\<close>

text \<open>What the buffers are when the reads from /dev/urandom deliver every byte, and the indices of the
  random word's letters.\<close>

definition random_ok :: "captcha_random \<Rightarrow> bool" where
  "random_ok R \<longleftrightarrow> length (rnd_l R) = 5 \<and> length (rnd_swr R) = 200 \<and> length (rnd_dr R) = NDOTS"

definition random_word :: "captcha_random \<Rightarrow> nat list" where
  "random_word R = map (\<lambda>b. unat (b mod 25)) (rnd_l R)"

lemma random_word_range: "set (random_word R) \<subseteq> {..<25}"
proof -
  have "unat (b mod 25) < 25" for b :: byte using unat_mono [of "b mod 25" 25] by (simp add: word_mod_less_divisor)
  then show ?thesis by (auto simp: random_word_def)
qed

lemma letter_names_ok: "set ns \<subseteq> {..<26} \<Longrightarrow> letter_names ns = Inr (map ((!) letters) ns)"
proof (induction ns)
  case (Cons n ns)
  have "length letters = 26" by (simp add: letters_def)
  with Cons show ?case by (simp add: read_at_def nth_append)
qed simp

lemma captcha_image_spec:
  assumes "random_ok R"
  shows "30 + word_width (random_word R) < 200 \<Longrightarrow>
      \<exists>im. captcha_image R (replicate 6 0) = Inr (im, map ((!) letters) (random_word R)) \<and>
        length im = 14000 \<and> set im \<subseteq> {0, 0xff}"
    and "200 \<le> 30 + word_width (random_word R) \<Longrightarrow> captcha_image R (replicate 6 0) = Inl OutOfBoundsRead"
proof -
  have len: "length (rnd_swr R) = 200" "length (rnd_dr R) = NDOTS" "take 5 (rnd_l R) = rnd_l R"
    using assms by (simp_all add: random_ok_def)
  have unfold: "captcha_image R (replicate 6 0) =
      rbind (draw_letters (random_word R) 30 (replicate (200 * 70) 0xff) (rnd_swr R) (rnd_s1 R) (rnd_s2 R)) (\<lambda>im1.
      rbind (dots (rnd_dr R) im1) (\<lambda>im2. rbind (blur im2) (\<lambda>im3. rbind (filter_im im3) (\<lambda>im4.
      rbind (draw_line im4 (rnd_swr R) (rnd_s1 R)) (\<lambda>im5. rbind (letter_names (random_word R)) (\<lambda>txt. Inr (im5, txt)))))))"
    by (simp add: captcha_image_def Let_def len(3) random_word_def)
  note draw = draw_letters_spec [OF random_word_range [of R], of 30 "replicate (200 * 70) 0xff" "rnd_swr R" "rnd_s1 R" "rnd_s2 R",
      OF _ _ _ len(1)]
  {
    assume "30 + word_width (random_word R) < 200"
    then obtain im1 where 1: "draw_letters (random_word R) 30 (replicate (200 * 70) 0xff) (rnd_swr R) (rnd_s1 R) (rnd_s2 R) = Inr im1"
        "length im1 = 14000" using draw(1) by force
    obtain im2 where 2: "dots (rnd_dr R) im1 = Inr im2" "length im2 = 14000" using dots_total len(2) 1(2) by blast
    obtain im3 where 3: "blur im2 = Inr im3" "length im3 = 14000" using blur_total 2(2) by blast
    obtain im4 where 4: "filter_im im3 = Inr im4" "length im4 = 14000" "set im4 \<subseteq> {0, 0xff}" using filter_total 3(2) by blast
    obtain im5 where 5: "draw_line im4 (rnd_swr R) (rnd_s1 R) = Inr im5" "length im5 = 14000" "set im5 \<subseteq> insert 0 (set im4)"
      using draw_line_total len(1) 4(2) by blast
    have "letter_names (random_word R) = Inr (map ((!) letters) (random_word R))"
      using random_word_range [of R] by (intro letter_names_ok) auto
    with 1 2 3 4 5 show "\<exists>im. captcha_image R (replicate 6 0) = Inr (im, map ((!) letters) (random_word R)) \<and>
        length im = 14000 \<and> set im \<subseteq> {0, 0xff}"
      unfolding unfold by auto
  next
    assume "200 \<le> 30 + word_width (random_word R)"
    then show "captcha_image R (replicate 6 0) = Inl OutOfBoundsRead" unfolding unfold using draw(2) by force
  }
qed

text \<open>The name of a letter is the letter whose glyph is drawn: the glyphs without a drawing of their own are
  drawn as \<open>a\<close> and named so.\<close>

lemma letter_name_of_glyph:
  assumes "n < 25"
  shows "of_char (letters ! n) - (97 :: nat) < 25" and "lt ! (of_char (letters ! n) - 97) = lt ! n"
    and "letters ! n \<in> set ''abcdefghijklmnopqrstuvwxyz''"
proof -
  have "[0..<25] = [0, 1, 2, 3, 4, 5, 6, 7, 8, 9, 10, 11, 12, 13, 14, 15, 16, 17, 18, 19, 20, 21, 22, 23, 24]" by code_simp
  moreover have "n \<in> set [0..<25]" using assms by simp
  ultimately have "n \<in> set [0, 1, 2, 3, 4, 5, 6, 7, 8, 9, 10, 11, 12, 13, 14, 15, 16, 17, 18, 19, 20, 21, 22, 23, 24]" by metis
  then show "of_char (letters ! n) - (97 :: nat) < 25" "lt ! (of_char (letters ! n) - 97) = lt ! n"
    "letters ! n \<in> set ''abcdefghijklmnopqrstuvwxyz''"
    by (auto simp: letters_def lt_def)
qed

section \<open>Which words are drawn\<close>

text \<open>C18: A captcha for a random word is drawn exactly when the word fits: when its letters take less than 170
  columns. Then the image is complete (70 rows of 200 pixels), black and white, nothing was written or read
  outside an array, and the text kept for the check is that of the letters drawn (each named by the letter that
  owns its glyph). A wider word, such as \<open>mmmmm\<close>, reads past the end of \<open>swr\<close> instead.\<close>

theorem captcha_is_drawn_iff_word_fits:
  assumes "random_ok R"
  shows "(word_width (random_word R) < 170 \<longrightarrow>
      (\<exists>im. captcha_image R (replicate 6 0) = Inr (im, map ((!) letters) (random_word R)) \<and>
        length im = 70 * 200 \<and> set im \<subseteq> {0, 0xff})) \<and>
    (170 \<le> word_width (random_word R) \<longrightarrow> captcha_image R (replicate 6 0) = Inl OutOfBoundsRead) \<and>
    (\<forall>n \<in> set (random_word R). lt ! (of_char (letters ! n) - 97) = lt ! n)"
proof (intro conjI impI)
  show "\<forall>n \<in> set (random_word R). lt ! (of_char (letters ! n) - 97) = lt ! n"
    using random_word_range [of R] letter_name_of_glyph(2) by auto
qed (use captcha_image_spec [OF assms] in simp_all)

definition sample_random :: "byte \<Rightarrow> captcha_random" where
  "sample_random b = \<lparr>rnd_l = replicate 5 b, rnd_swr = replicate 200 0, rnd_dr = replicate 100 0, rnd_s1 = 200, rnd_s2 = 70\<rparr>"

lemma sample_random_ok: "random_ok (sample_random b)"
  by (simp add: random_ok_def sample_random_def NDOTS_def)

lemma sample_word: "random_word (sample_random b) = replicate 5 (unat (b mod 25))"
  by (simp add: random_word_def sample_random_def)

lemma sample_widths: "word_width (replicate 5 0) = 110" "word_width (replicate 5 12) = 195"
  using lt_glyph(2) [of 0] lt_glyph(2) [of 12] by (simp_all add: word_width_def numeral_eq_Suc)

theorem captcha_is_drawn_iff_word_fits_witness:
  "(\<exists>im. captcha_image (sample_random 0) (replicate 6 0) = Inr (im, ''aaaaa'') \<and> length im = 70 * 200 \<and> set im \<subseteq> {0, 0xff}) \<and>
   captcha_image (sample_random 37) (replicate 6 0) = Inl OutOfBoundsRead"
proof -
  have "random_word (sample_random 0) = replicate 5 0" "random_word (sample_random 37) = replicate 5 12"
    by (simp_all add: sample_word)
  moreover have "map ((!) letters) (replicate 5 0) = ''aaaaa''" by (simp add: letters_def numeral_eq_Suc)
  ultimately show ?thesis
    using captcha_is_drawn_iff_word_fits [OF sample_random_ok, of 0] captcha_is_drawn_iff_word_fits [OF sample_random_ok, of 37]
    by (simp add: sample_widths)
qed

end
