(* ===== verification/CaptchaGif.thy ===== *)
theory CaptchaGif
  imports Libcaptcha
begin

text \<open>
  \<open>makegif\<close> of libcaptcha.c, which writes an image of \<open>captcha\<close> as a GIF file, and a decoder written from the
  GIF89a specification (blocks, colour table, LZW with a growing table) to say what the file shows.
\<close>

section \<open>Writing\<close>

definition gifsize :: nat where
  "gifsize = 17646"

definition memcpy_at :: "byte list \<Rightarrow> nat \<Rightarrow> byte list \<Rightarrow> byte list result" where
  "memcpy_at dst k src =
     (if k + length src \<le> length dst then Inr (take k dst @ src @ drop (k + length src) dst) else Inl BufferOverflow)"

definition gif_header :: "byte list" where
  "gif_header =
     [0x47, 0x49, 0x46, 0x38, 0x39, 0x61] @ [0xc8, 0, 0x46, 0] @ [0x83] @ [0, 0] @
     [0x00, 0x00, 0x00, 0x10, 0x10, 0x10, 0x20, 0x20, 0x20, 0x30, 0x30, 0x30,
      0x40, 0x40, 0x40, 0x50, 0x50, 0x50, 0x60, 0x60, 0x60, 0x70, 0x70, 0x70,
      0x80, 0x80, 0x80, 0x90, 0x90, 0x90, 0xa0, 0xa0, 0xa0, 0xb0, 0xb0, 0xb0,
      0xc0, 0xc0, 0xc0, 0xd0, 0xd0, 0xd0, 0xe0, 0xe0, 0xe0, 0xff, 0xff, 0xff] @
     [0x2c] @ [0, 0, 0, 0] @ [0xc8, 0, 0x46, 0] @ [0] @ [0x04]"

text \<open>The five bytes for four pixels; \<open>i\<close> is the position in the image, \<open>p\<close> the one in the file.\<close>

definition gif_step :: "byte list \<Rightarrow> nat \<Rightarrow> int \<times> int \<times> byte list \<Rightarrow> (int \<times> int \<times> byte list) result" where
  "gif_step im x = (\<lambda>(i, p, gif).
     rbind (read_at im i) (\<lambda>i0.
     rbind (read_at im (i + 1)) (\<lambda>i1.
     rbind (read_at im (i + 2)) (\<lambda>i2.
     rbind (read_at im (i + 3)) (\<lambda>i3.
     let a = drop_bit 4 i0; b = drop_bit 4 i1; c = drop_bit 4 i2; d = drop_bit 4 i3 in
     rbind (write_all gif
       [(p, 16 OR push_bit 5 a),
        (p + 1, drop_bit 3 a OR 64 OR push_bit 7 b),
        (p + 2, drop_bit 1 b),
        (p + 3, 1 OR push_bit 1 c),
        (p + 4, 4 OR push_bit 3 d)]) (\<lambda>gif'.
     Inr (i + 4, p + 5, gif')))))))"

definition gif_row :: "byte list \<Rightarrow> nat \<Rightarrow> int \<times> int \<times> byte list \<Rightarrow> (int \<times> int \<times> byte list) result" where
  "gif_row im y = (\<lambda>(i, p, gif).
     rbind (write_at gif p 250) (\<lambda>gif'.
     for_loop 0 (gif_step im) 50 (i, p + 1, gif')))"

definition makegif :: "byte list \<Rightarrow> byte list \<Rightarrow> byte list result" where
  "makegif im gif =
     rbind (memcpy_at gif 0 gif_header) (\<lambda>gif1.
     rbind (for_loop 0 (gif_row im) 70 (0, 13 + 48 + 10 + 1, gif1)) (\<lambda>(i, p, gif2).
     memcpy_at gif2 (gifsize - 4) [0x01, 0x11, 0x00, 0x3b]))"

section \<open>Reading\<close>

definition bits_of :: "byte \<Rightarrow> bool list" where
  "bits_of b = map (bit b) [0..<8]"

definition lzw_table :: "nat \<Rightarrow> nat list list" where
  "lzw_table m = map (\<lambda>k. [k]) [0..<2 ^ m] @ [[], []]"

text \<open>The LZW decoder: minimum code size \<open>m\<close>, present code size \<open>n\<close>, table, previous string.\<close>

function lzw_decode :: "nat \<Rightarrow> nat \<Rightarrow> nat list list \<Rightarrow> nat list option \<Rightarrow> bool list \<Rightarrow> nat list option" where
  "lzw_decode m n tab prev bs =
     (if n = 0 \<or> length bs < n then None
      else
        let code = horner_sum of_bool 2 (take n bs); rest = drop n bs in
        if code = 2 ^ m then lzw_decode m (m + 1) (lzw_table m) None rest
        else if code = 2 ^ m + 1 then Some []
        else case prev of
          None \<Rightarrow>
            if code < 2 ^ m then map_option ((@) [code]) (lzw_decode m n tab (Some [code]) rest) else None
        | Some w \<Rightarrow>
            if length tab < code then None
            else
              let entry = (if code < length tab then tab ! code else w @ [hd w]);
                  tab' = (if length tab < 4096 then tab @ [w @ [hd entry]] else tab);
                  n' = (if length tab' = 2 ^ n \<and> n < 12 then n + 1 else n) in
              map_option ((@) entry) (lzw_decode m n' tab' (Some entry) rest))"
  by pat_completeness auto
termination
  by (relation "measure (\<lambda>(m, n, tab, prev, bs). length bs)") auto

declare lzw_decode.simps [simp del]

text \<open>The data of the sub-blocks up to the empty one, and what follows.\<close>

function sub_blocks :: "byte list \<Rightarrow> (byte list \<times> byte list) option" where
  "sub_blocks [] = None"
| "sub_blocks (n # r) =
     (if n = 0 then Some ([], r)
      else if length r < unat n then None
      else map_option (\<lambda>(d, r'). (take (unat n) r @ d, r')) (sub_blocks (drop (unat n) r)))"
  by pat_completeness auto
termination
  by (relation "measure length") auto

fun triples :: "'a list \<Rightarrow> ('a \<times> 'a \<times> 'a) list" where
  "triples (r # g # b # cs) = (r, g, b) # triples cs"
| "triples cs = []"

definition le16 :: "byte list \<Rightarrow> nat \<Rightarrow> nat" where
  "le16 g k = unat (g ! k) + 256 * unat (g ! Suc k)"

text \<open>Width, height and colours of a file with a global colour table and one image that is neither interlaced
  nor has a table of its own.\<close>

definition gif_decode :: "byte list \<Rightarrow> (nat \<times> nat \<times> (byte \<times> byte \<times> byte) list) option" where
  "gif_decode g =
     (if length g < 13 \<or> take 6 g \<noteq> [0x47, 0x49, 0x46, 0x38, 0x39, 0x61] \<or> \<not> bit (g ! 10) 7 then None
      else
        let colours = 2 ^ (unat (g ! 10 AND 7) + 1);
            palette = triples (take (3 * colours) (drop 13 g));
            r = drop (13 + 3 * colours) g in
        if length r < 11 \<or> r ! 0 \<noteq> 0x2c \<or> bit (r ! 9) 7 \<or> bit (r ! 9) 6 then None
        else
          case sub_blocks (drop 11 r) of
            None \<Rightarrow> None
          | Some (d, trailer) \<Rightarrow>
              if trailer \<noteq> [0x3b] then None
              else
                (case lzw_decode (unat (r ! 10)) (unat (r ! 10) + 1) (lzw_table (unat (r ! 10))) None (concat (map bits_of d)) of
                   None \<Rightarrow> None
                 | Some px \<Rightarrow>
                     if \<forall>k \<in> set px. k < length palette then Some (le16 r 5, le16 r 7, map ((!) palette) px) else None))"

section \<open>The file that is written\<close>

definition gif_group :: "byte list \<Rightarrow> nat \<Rightarrow> byte list" where
  "gif_group im k =
     (let a = drop_bit 4 (im ! (4 * k)); b = drop_bit 4 (im ! (4 * k + 1));
          c = drop_bit 4 (im ! (4 * k + 2)); d = drop_bit 4 (im ! (4 * k + 3)) in
      [16 OR push_bit 5 a, drop_bit 3 a OR 64 OR push_bit 7 b, drop_bit 1 b, 1 OR push_bit 1 c, 4 OR push_bit 3 d])"

definition gif_block :: "byte list \<Rightarrow> nat \<Rightarrow> byte list" where
  "gif_block im y = 250 # concat (map (gif_group im) [50 * y..<50 * y + 50])"

lemma length_gif_group [simp]: "length (gif_group im k) = 5"
  by (simp add: gif_group_def Let_def)

lemma length_gif_groups: "length (concat (map (gif_group im) ks)) = 5 * length ks"
  by (induction ks) simp_all

lemma length_gif_blocks: "length (concat (map (gif_block im) ys)) = 251 * length ys"
  by (induction ys) (simp_all add: gif_block_def length_gif_groups)

lemma gif_step_run:
  assumes "4 * k + 3 < length im" and "5 \<le> length r"
  shows "gif_step im x (int (4 * k), int (length w), w @ r) =
    Inr (int (4 * (k + 1)), int (length (w @ gif_group im k)), (w @ gif_group im k) @ drop 5 r)"
proof -
  from assms(2) obtain r0 r1 r2 r3 r4 r' where r: "r = r0 # r1 # r2 # r3 # r4 # r'"
    by (auto simp: numeral_eq_Suc Suc_le_length_iff)
  have four: "read_at im (int (4 * k)) = Inr (im ! (4 * k))" "read_at im (int (4 * k) + 1) = Inr (im ! (4 * k + 1))"
    "read_at im (int (4 * k) + 2) = Inr (im ! (4 * k + 2))" "read_at im (int (4 * k) + 3) = Inr (im ! (4 * k + 3))"
    using assms(1) by (simp_all add: read_at_def nat_add_distrib nat_mult_distrib)
  have five: "write_all (w @ r) [(int (length w), v0), (int (length w) + 1, v1), (int (length w) + 2, v2),
      (int (length w) + 3, v3), (int (length w) + 4, v4)] = Inr ((w @ [v0, v1, v2, v3, v4]) @ r')" for v0 v1 v2 v3 v4
    by (simp add: r write_at_def nat_add_distrib list_update_append numeral_eq_Suc)
  show ?thesis
    unfolding gif_step_def prod.case four rbind_simps Let_def five by (simp add: r gif_group_def Let_def)
qed

lemma gif_row_run:
  assumes "200 * y + 200 \<le> length im" and "251 \<le> length r"
  shows "gif_row im y (int (200 * y), int (length w), w @ r) =
    Inr (int (200 * (y + 1)), int (length (w @ gif_block im y)), (w @ gif_block im y) @ drop 251 r)"
proof -
  from assms(2) obtain r0 r1 where r: "r = r0 # r1" "250 \<le> length r1" by (cases r) auto
  let ?d = "\<lambda>k. (w @ [250]) @ concat (map (gif_group im) [50 * y..<50 * y + k])"
  let ?I = "\<lambda>k s. s = (int (4 * (50 * y + k)), int (length (?d k)), ?d k @ drop (5 * k) r1)"
  have "\<exists>s'. for_loop 0 (gif_step im) 50 (int (4 * (50 * y)), int (length (w @ [250])), (w @ [250]) @ r1) = Inr s' \<and> ?I (0 + 50) s'"
  proof (rule for_loop_total [where I = ?I])
    fix k s assume k: "k < 0 + (50 :: nat)" and s: "?I k s"
    have "4 * (50 * y + k) + 3 < length im" "5 \<le> length (drop (5 * k) r1)" using k assms(1) r(2) by simp_all
    from gif_step_run [OF this, of k "?d k"] s
    show "\<exists>s'. gif_step im k s = Inr s' \<and> ?I (Suc k) s'" by (simp add: algebra_simps)
  qed simp
  moreover have "write_at (w @ r) (int (length w)) 250 = Inr ((w @ [250]) @ r1)" by (simp add: r write_at_def list_update_append)
  ultimately show ?thesis
    by (simp add: gif_row_def gif_block_def r(1) algebra_simps)
qed

definition gif_file :: "byte list \<Rightarrow> byte list" where
  "gif_file im = gif_header @ concat (map (gif_block im) [0..<70]) @ [0x01, 0x11, 0x00, 0x3b]"

lemma length_gif_header: "length gif_header = 72"
  by (simp add: gif_header_def)

lemma makegif_file:
  assumes "length im = 14000" and "length gif = gifsize"
  shows "makegif im gif = Inr (gif_file im)"
proof -
  define r where "r = drop 72 gif"
  have r: "length r = 17574" using assms(2) by (simp add: r_def gifsize_def)
  have head: "memcpy_at gif 0 gif_header = Inr (gif_header @ r)"
    using assms(2) by (simp add: memcpy_at_def length_gif_header gifsize_def r_def)
  let ?d = "\<lambda>y. gif_header @ concat (map (gif_block im) [0..<y])"
  let ?I = "\<lambda>y s. s = (int (200 * y), int (length (?d y)), ?d y @ drop (251 * y) r)"
  have "\<exists>s'. for_loop 0 (gif_row im) 70 (0, 13 + 48 + 10 + 1, gif_header @ r) = Inr s' \<and> ?I (0 + 70) s'"
  proof (rule for_loop_total [where I = ?I])
    fix y s assume y: "y < 0 + (70 :: nat)" and s: "?I y s"
    have "200 * y + 200 \<le> length im" "251 \<le> length (drop (251 * y) r)" using y assms(1) r by simp_all
    from gif_row_run [OF this, of "?d y"] s
    show "\<exists>s'. gif_row im y s = Inr s' \<and> ?I (Suc y) s'" by (simp add: algebra_simps)
  qed (simp add: length_gif_header)
  moreover have "memcpy_at (?d 70 @ drop (251 * 70) r) (gifsize - 4) [0x01, 0x11, 0x00, 0x3b] = Inr (gif_file im)"
    by (simp add: memcpy_at_def length_gif_header length_gif_blocks gifsize_def r gif_file_def)
  ultimately show ?thesis by (simp add: makegif_def head)
qed

section \<open>What the file shows\<close>

text \<open>The index of a pixel's colour and its five bits.\<close>

definition colour_index :: "byte \<Rightarrow> nat" where
  "colour_index p = unat (drop_bit 4 p)"

definition code_bits :: "nat \<Rightarrow> bool list" where
  "code_bits k = map (bit k) [0..<5]"

lemma upt_8: "[0..<8] = [0, 1, 2, 3, 4, 5, 6, 7]" and upt_5: "[0..<5] = [0, 1, 2, 3, 4]" and upt_4: "[0..<4] = [0, 1, 2, 3]"
  by code_simp+

lemma colour_index_less: "colour_index p < 16"
proof -
  have "unat p < 256" using unsigned_less [of p] by simp
  moreover have "colour_index p = drop_bit 4 (unat p)" by (simp only: colour_index_def unat_drop_bit_eq)
  ultimately show ?thesis by (simp add: drop_bit_eq_div)
qed

lemma length_code_bits [simp]: "length (code_bits k) = 5"
  by (simp add: code_bits_def)

lemma code_value: "k < 32 \<Longrightarrow> horner_sum of_bool 2 (code_bits k) = (k :: nat)"
  by (simp add: code_bits_def horner_sum_bit_eq_take_bit take_bit_eq_mod)

lemma byte_bit_end: "8 \<le> n \<Longrightarrow> \<not> bit (b :: byte) n"
  by (auto dest: bit_imp_le_length)

lemma code_bits_pixel:
  "code_bits (colour_index p) = [bit p 4, bit p 5, bit p 6, bit p 7, False]"
  unfolding code_bits_def colour_index_def upt_5 list.map unat_drop_bit_eq bit_drop_bit_eq comp_def bit_unsigned_iff
  by (simp add: byte_bit_end)

lemma code_bits_clear: "code_bits 16 = [False, False, False, False, True]"
  by code_simp

lemma const_bits:
  "map (bit (16 :: byte)) [0..<8] = [False, False, False, False, True, False, False, False]"
  "map (bit (64 :: byte)) [0..<8] = [False, False, False, False, False, False, True, False]"
  "map (bit (4 :: byte)) [0..<8] = [False, False, True, False, False, False, False, False]"
  "map (bit (1 :: byte)) [0..<8] = [True, False, False, False, False, False, False, False]"
  by code_simp+

lemma group_byte_bits:
  fixes p q :: byte
  shows "bits_of (16 OR push_bit 5 (drop_bit 4 p)) = [False, False, False, False, True, bit p 4, bit p 5, bit p 6]"
    and "bits_of (drop_bit 3 (drop_bit 4 p) OR 64 OR push_bit 7 (drop_bit 4 q)) =
      [bit p 7, False, False, False, False, False, True, bit q 4]"
    and "bits_of (drop_bit 1 (drop_bit 4 p)) = [bit p 5, bit p 6, bit p 7, False, False, False, False, False]"
    and "bits_of (1 OR push_bit 1 (drop_bit 4 p)) = [True, bit p 4, bit p 5, bit p 6, bit p 7, False, False, False]"
    and "bits_of (4 OR push_bit 3 (drop_bit 4 p)) = [False, False, True, bit p 4, bit p 5, bit p 6, bit p 7, False]"
  using const_bits unfolding bits_of_def upt_8 list.map bit_or_iff bit_push_bit_iff bit_drop_bit_eq comp_def
  by (simp_all add: byte_bit_end)

lemma gif_group_bits:
  "concat (map bits_of (gif_group im k)) =
    concat (map (\<lambda>j. code_bits 16 @ code_bits (colour_index (im ! (4 * k + j)))) [0..<4])"
  unfolding gif_group_def Let_def upt_4 list.map concat.simps group_byte_bits code_bits_pixel code_bits_clear by simp

lemma lzw_clear: "lzw_decode 4 5 tab prev (code_bits 16 @ bs) = lzw_decode 4 5 (lzw_table 4) None bs"
  by (subst lzw_decode.simps) (simp add: code_value Let_def)

lemma lzw_literal:
  "k < 16 \<Longrightarrow> lzw_decode 4 5 tab None (code_bits k @ bs) = map_option (\<lambda>px. k # px) (lzw_decode 4 5 tab (Some [k]) bs)"
  by (subst lzw_decode.simps) (simp add: code_value Let_def append_Cons [abs_def])

lemma lzw_end: "lzw_decode 4 5 tab prev (code_bits 17 @ bs) = Some []"
  by (subst lzw_decode.simps) (simp add: code_value Let_def)

definition pixel_bits :: "byte \<Rightarrow> bool list" where
  "pixel_bits p = code_bits 16 @ code_bits (colour_index p)"

lemma lzw_pixels: "lzw_decode 4 5 tab prev (concat (map pixel_bits ps) @ code_bits 17 @ bs) = Some (map colour_index ps)"
  by (induction ps arbitrary: tab prev) (simp_all add: pixel_bits_def lzw_clear lzw_literal colour_index_less lzw_end)

text \<open>Blocks of equal length are one run.\<close>

lemma concat_blocks: "concat (map (\<lambda>y. concat (map g [m * y..<m * y + m])) [0..<n]) = concat (map g [0..<m * n])"
proof (induction n)
  case (Suc n)
  have "[0..<m * Suc n] = [0..<m * n] @ [m * n..<m * n + m]" using upt_add_eq_append [of 0 "m * n" m] by (simp add: add.commute)
  with Suc show ?case by simp
qed simp

lemma sub_blocks_file:
  "sub_blocks (concat (map (gif_block im) ys) @ [0x01, 0x11, 0x00, 0x3b]) =
     Some (concat (map (\<lambda>y. concat (map (gif_group im) [50 * y..<50 * y + 50])) ys) @ [0x11], [0x3b])"
  by (induction ys) (simp_all add: gif_block_def length_gif_groups)

lemma gif_groups_bits:
  "concat (map bits_of (concat (map (gif_group im) [0..<n]))) = concat (map pixel_bits (map ((!) im) [0..<4 * n]))"
proof -
  have "concat (map bits_of (concat (map (gif_group im) ks))) = concat (map (\<lambda>k. concat (map bits_of (gif_group im k))) ks)" for ks
    by (induction ks) simp_all
  moreover have "concat (map bits_of (gif_group im k)) = concat (map (\<lambda>j. pixel_bits (im ! j)) [4 * k..<4 * k + 4])" for k
  proof -
    have "[4 * k..<4 * k + 4] = map (\<lambda>j. j + 4 * k) [0..<4]" using map_add_upt [of "4 * k" 4] by (simp add: add.commute)
    then show ?thesis by (simp add: gif_group_bits pixel_bits_def comp_def add.commute)
  qed
  ultimately show ?thesis
    using concat_blocks [of "\<lambda>j. pixel_bits (im ! j)" 4 n] by (simp add: comp_def)
qed

text \<open>The colour of a pixel in the file: its four high bits, with the lightest grey made white.\<close>

definition grey :: "byte \<Rightarrow> byte" where
  "grey p = (if colour_index p = 15 then 0xff else word_of_nat (16 * colour_index p))"

lemma upt_16: "[0..<16] = [0, 1, 2, 3, 4, 5, 6, 7, 8, 9, 10, 11, 12, 13, 14, 15]"
  by code_simp

lemma palette_entry:
  "triples (take 48 (drop 13 (gif_header @ r))) ! colour_index p = (grey p, grey p, grey p)"
  "length (triples (take 48 (drop 13 (gif_header @ r)))) = 16"
proof -
  have "triples (take 48 (drop 13 (gif_header @ r))) =
      map (\<lambda>k. let c = (if k = 15 then 0xff else word_of_nat (16 * k)) in (c, c, c)) [0..<16]" (is "?t = ?m")
    by (simp add: gif_header_def upt_16)
  moreover have "?m ! colour_index p = (grey p, grey p, grey p)" by (simp add: colour_index_less grey_def Let_def)
  ultimately show "?t ! colour_index p = (grey p, grey p, grey p)" "length ?t = 16" by simp_all
qed

lemma last_byte: "bits_of 0x11 = code_bits 17 @ [False, False, False]"
  by code_simp

lemma gif_file_shows:
  assumes "length im = 14000"
  shows "gif_decode (gif_file im) = Some (200, 70, map (\<lambda>p. (grey p, grey p, grey p)) im)"
proof -
  define data where "data = concat (map (gif_group im) [0..<3500]) @ [0x11]"
  define body where "body = concat (map (gif_block im) [0..<70]) @ [0x01, 0x11, 0x00, 0x3b]"
  have blocks: "sub_blocks body = Some (data, [0x3b])"
    using sub_blocks_file [of im "[0..<70]"] concat_blocks [of "gif_group im" 50 70] by (simp add: body_def data_def)
  have "map ((!) im) [0..<4 * 3500] = im" using map_nth [of im] assms by simp
  then have "concat (map bits_of data) = concat (map pixel_bits im) @ code_bits 17 @ [False, False, False]"
    using gif_groups_bits [of im 3500] last_byte by (simp add: data_def)
  then have px: "lzw_decode 4 5 (lzw_table 4) None (concat (map bits_of data)) = Some (map colour_index im)"
    using lzw_pixels by simp
  have whole: "gif_file im = gif_header @ body" by (simp add: gif_file_def body_def)
  have head: "take 6 gif_header = [0x47, 0x49, 0x46, 0x38, 0x39, 0x61]" "gif_header ! 10 = 0x83"
    by (simp_all add: gif_header_def)
  have img: "drop 61 gif_header = [0x2c, 0, 0, 0, 0, 0xc8, 0, 0x46, 0, 0, 4]" by (simp add: gif_header_def)
  have colours: "2 ^ (unat (0x83 AND 7 :: byte) + 1) = (16 :: nat)" by simp
  have "drop 61 (gif_header @ body) = [0x2c, 0, 0, 0, 0, 0xc8, 0, 0x46, 0, 0, 4] @ body"
    by (simp add: img length_gif_header)
  then have r: "drop (13 + 3 * 16) (gif_file im) = [0x2c, 0, 0, 0, 0, 0xc8, 0, 0x46, 0, 0, 4] @ body" by (simp add: whole)
  have g: "take 6 (gif_file im) = [0x47, 0x49, 0x46, 0x38, 0x39, 0x61]" "gif_file im ! 10 = 0x83" "13 \<le> length (gif_file im)"
    using head by (simp_all add: whole length_gif_header nth_append)
  have pal: "triples (take (3 * 16) (drop 13 (gif_file im))) ! colour_index p = (grey p, grey p, grey p)"
    "length (triples (take (3 * 16) (drop 13 (gif_file im)))) = 16" for p
    using palette_entry [of body] by (simp_all add: whole)
  show ?thesis
    unfolding gif_decode_def g Let_def colours r
    using g(3) by (simp add: blocks px pal [simplified] colour_index_less comp_def le16_def)
qed

lemma grey_black_white: "set im \<subseteq> {0, 0xff} \<Longrightarrow> map grey im = im"
proof -
  have "grey 0 = 0" "grey 0xff = 0xff" by (simp_all add: grey_def colour_index_def)
  then show "set im \<subseteq> {0, 0xff} \<Longrightarrow> map grey im = im" by (intro map_idI) auto
qed

text \<open>\<open>captcha\<close> and \<open>makegif\<close> together, as the challenger calls them.\<close>

definition captcha_text :: "captcha_random \<Rightarrow> string" where
  "captcha_text R = map ((!) letters) (random_word R)"

definition shows_image :: "byte list \<Rightarrow> byte list \<Rightarrow> bool" where
  "shows_image g im \<longleftrightarrow> length im = 70 * 200 \<and> gif_decode g = Some (200, 70, map (\<lambda>p. (p, p, p)) im)"

lemma captcha_served:
  assumes "random_ok R" and "word_width (random_word R) < 170" and "length gif = gifsize"
  obtains im g where "captcha_image R (replicate 6 0) = Inr (im, captcha_text R)" and "makegif im gif = Inr g"
    and "shows_image g im"
proof -
  obtain im where im: "captcha_image R (replicate 6 0) = Inr (im, captcha_text R)" "length im = 14000" "set im \<subseteq> {0, 0xff}"
    using captcha_image_spec(1) [OF assms(1)] assms(2) by (auto simp: captcha_text_def)
  have "map (\<lambda>p. (grey p, grey p, grey p)) im = map (\<lambda>p. (p, p, p)) (map grey im)" by simp
  then have "shows_image (gif_file im) im"
    using gif_file_shows [OF im(2)] grey_black_white [OF im(3)] im(2) by (simp add: shows_image_def)
  with im(1) makegif_file [OF im(2) assms(3)] show thesis by (rule that)
qed

lemma captcha_text_letters: "c \<in> set (captcha_text R) \<Longrightarrow> c \<in> set ''abcdefghijklmnopqrstuvwxyz''"
  using random_word_range [of R] letter_name_of_glyph(3) by (auto simp: captcha_text_def simp del: set_simps list.set)

text \<open>C6: The GIF served for a captcha shows its image: \<open>makegif\<close> fills the buffer exactly, whatever it held before,
  with a file that a GIF89a decoder turns into the image, 200 by 70, each pixel as the grey of its four high bits.
  The black and white images of \<open>captcha\<close> come out unchanged.\<close>

theorem gif_decodes_to_image:
  assumes "length im = 70 * 200" and "length gif = gifsize"
  shows "\<exists>g. makegif im gif = Inr g \<and> length g = gifsize \<and>
    gif_decode g = Some (200, 70, map (\<lambda>p. (grey p, grey p, grey p)) im) \<and>
    (set im \<subseteq> {0, 0xff} \<longrightarrow> map grey im = im)"
proof (intro exI conjI impI)
  show "makegif im gif = Inr (gif_file im)" using makegif_file assms by simp
  show "length (gif_file im) = gifsize" by (simp add: gif_file_def length_gif_header length_gif_blocks gifsize_def)
  show "gif_decode (gif_file im) = Some (200, 70, map (\<lambda>p. (grey p, grey p, grey p)) im)"
    using gif_file_shows assms(1) by simp
  show "map grey im = im" if "set im \<subseteq> {0, 0xff}" using that by (rule grey_black_white)
qed

theorem gif_decodes_to_image_witness:
  "\<exists>g. makegif (replicate 14000 0xff) (replicate gifsize 0) = Inr g \<and>
    gif_decode g = Some (200, 70, replicate 14000 (0xff, 0xff, 0xff))"
proof -
  have "grey 0xff = 0xff" by (simp add: grey_def colour_index_def)
  then show ?thesis using gif_decodes_to_image [of "replicate 14000 0xff" "replicate gifsize 0"] by auto
qed

end
