(* ===== verification/ChallengeSpec.thy ===== *)
theory ChallengeSpec
  imports BanjaxFilter CookieHash Cookie CaptchaGif
begin

text \<open>
  What a challenge is (challenger.h) and the checks that do not touch the challenger's state:
  reading a challenge from the configuration (\<open>parse_single_challenge\<close>), the proof of work
  (\<open>check_sha\<close>), the password proof (\<open>check_auth_validity\<close>) and the protected urls
  (\<open>needs_authentication\<close>). Parameters, collected in \<open>challenge_lib\<close>: OpenSSL's SHA256 and
  HMAC-SHA1, RE2's \<open>PartialMatch\<close> (given the pattern, then the text), the contents of a file (empty
  if it cannot be read) and what /dev/urandom delivers to the n-th captcha.
\<close>

record challenge_lib =
  sha256 :: "string \<Rightarrow> string"
  hmac_sha1 :: hmac
  partial_match :: "string \<Rightarrow> string \<Rightarrow> bool"
  read_file :: "string \<Rightarrow> string"
  urandom :: "nat \<Rightarrow> captcha_random"

definition SHA256_DIGEST_LENGTH :: nat where
  "SHA256_DIGEST_LENGTH = 32"

section \<open>Data\<close>

datatype ChallengeType = CHALLENGE_SHA_INVERSE | CHALLENGE_CAPTCHA | CHALLENGE_AUTH

text \<open>\<open>CHALLENGE_LIST\<close> and \<open>CHALLENGE_FILE_LIST\<close>. \<open>challenge_type[\<dots>]\<close> on an unknown name inserts
  the value 0, which is \<open>CHALLENGE_SHA_INVERSE\<close>.\<close>

definition challenge_type_of :: "string \<Rightarrow> ChallengeType" where
  "challenge_type_of s =
     (if s = ''captcha'' then CHALLENGE_CAPTCHA
      else if s = ''auth'' then CHALLENGE_AUTH
      else CHALLENGE_SHA_INVERSE)"

definition default_page_filename :: "ChallengeType \<Rightarrow> string" where
  "default_page_filename t =
     (case t of
        CHALLENGE_SHA_INVERSE \<Rightarrow> ''solver.html''
      | CHALLENGE_CAPTCHA \<Rightarrow> ''captcha.html''
      | CHALLENGE_AUTH \<Rightarrow> ''auth.html'')"

datatype MagicWord = MagicSubstr string | MagicRegexp string

record host_challenge_spec =
  name :: string
  challenge_type :: ChallengeType
  challenge_stream :: string
  fail_tolerance_threshold :: "32 word"
  challenge_validity_period :: int
  password_hash :: string
  magic_words :: "MagicWord list"
  magic_word_exceptions :: "string list"
  white_listed_ips :: "subnet_range list"
  time_added :: int

section \<open>Protected urls\<close>

definition magic_word_is_match :: "challenge_lib \<Rightarrow> MagicWord \<Rightarrow> string \<Rightarrow> bool" where
  "magic_word_is_match L w url =
     (case w of
        MagicRegexp p \<Rightarrow> partial_match L p url
      | MagicSubstr s \<Rightarrow> sfind s url \<noteq> None)"

text \<open>\<open>std::search(begin, end, \<dots>) != end\<close>: an empty range yields \<open>end\<close> even for the empty
  pattern.\<close>

definition search_hit :: "string \<Rightarrow> string \<Rightarrow> bool" where
  "search_hit s p = (case sfind p s of None \<Rightarrow> False | Some i \<Rightarrow> i < length s)"

definition needs_authentication :: "challenge_lib \<Rightarrow> string \<Rightarrow> host_challenge_spec \<Rightarrow> bool" where
  "needs_authentication L url ch =
     (if \<not> (\<exists>w\<in>set (magic_words ch). magic_word_is_match L w url) then False
      else
        let path = (case sfind ''?'' url of Some query_start \<Rightarrow> take query_start url | None \<Rightarrow> url)
        in \<not> (\<exists>unprotected\<in>set (magic_word_exceptions ch). search_hit path unprotected))"

section \<open>Proofs\<close>

text \<open>\<open>check_sha\<close>: the bits of a byte in the order the code tests them, and the number of leading
  zeros in that order.\<close>

definition nibble_bits :: "char \<Rightarrow> bool list" where
  "nibble_bits c = (let h = (of_char c :: nat) in map (bit h) [4, 5, 6, 7, 0, 1, 2, 3])"

fun count_zeros :: "bool list \<Rightarrow> nat" where
  "count_zeros [] = 0"
| "count_zeros (b # bs) = (if b then 0 else Suc (count_zeros bs))"

definition check_sha :: "challenge_lib \<Rightarrow> nat \<Rightarrow> string \<Rightarrow> bool" where
  "check_sha L number_of_trailing_zeros cookiestr \<longleftrightarrow>
     number_of_trailing_zeros \<le> count_zeros (concat (map nibble_bits (sha256 L (cstr cookiestr))))"

text \<open>\<open>memcmp\<close> over 32 bytes of a shorter string reads past its end.\<close>

definition check_auth_validity :: "challenge_lib \<Rightarrow> string \<Rightarrow> string \<Rightarrow> bool result" where
  "check_auth_validity L cookiestr0 pw_hash =
     (let cookiestr = cstr cookiestr0; cookie_len = length cookiestr in
      if cookie_len < COOKIE_B64_LENGTH + length pw_hash then Inr False
      else
        let hash = sha256 L (take COOKIE_B64_LENGTH cookiestr @ pw_hash) in
        case Decode (drop COOKIE_B64_LENGTH cookiestr) of
          Inl e \<Rightarrow> if e = InvalidArgument then Inr False else Inl e
        | Inr cookiedata \<Rightarrow>
            if length cookiedata + 1 < SHA256_DIGEST_LENGTH then Inl OutOfBoundsRead
            else Inr (take SHA256_DIGEST_LENGTH (cookiedata @ [NUL]) = hash))"

section \<open>Configuration\<close>

definition field :: "yaml \<Rightarrow> string \<Rightarrow> (yaml \<Rightarrow> 'a result) \<Rightarrow> 'a result" where
  "field n k conv = rbind (ysub n k) conv"

definition field_or :: "yaml \<Rightarrow> string \<Rightarrow> (yaml \<Rightarrow> 'a result) \<Rightarrow> 'a \<Rightarrow> 'a result" where
  "field_or n k conv d = rbind (ysub n k) (\<lambda>v. if IsDefined v then conv v else Inr d)"

definition set_insert :: "'a \<Rightarrow> 'a list \<Rightarrow> 'a list" where
  "set_insert x xs = (if x \<in> set xs then xs else xs @ [x])"

text \<open>An element of a sequence by number; past the end it is undefined.\<close>

definition yindex :: "yaml \<Rightarrow> nat \<Rightarrow> yaml" where
  "yindex n i = (case n of YSequence xs \<Rightarrow> if i < length xs then xs ! i else YUndefined | _ \<Rightarrow> YUndefined)"

fun parse_magic_words :: "yaml_lib \<Rightarrow> yaml list \<Rightarrow> MagicWord list \<Rightarrow> MagicWord list result" where
  "parse_magic_words Y [] storage = Inr storage"
| "parse_magic_words Y (entry # es) storage =
     (if IsSequence entry then
        rbind (as_string Y (yindex entry 0)) (\<lambda>t.
        rbind (as_string Y (yindex entry 1)) (\<lambda>word.
        if t = ''regexp'' then parse_magic_words Y es (set_insert (MagicRegexp word) storage)
        else if t = ''substr'' then parse_magic_words Y es (set_insert (MagicSubstr word) storage)
        else Inl YamlException))
      else
        rbind (as_string Y entry) (\<lambda>word. parse_magic_words Y es (set_insert (MagicSubstr word) storage)))"

definition parse_magic_word_node :: "yaml_lib \<Rightarrow> yaml \<Rightarrow> MagicWord list result" where
  "parse_magic_word_node Y mw =
     (if IsSequence mw then parse_magic_words Y (yelems mw) []
      else rbind (as_string Y mw) (\<lambda>word. Inr [MagicSubstr word]))"

fun parse_ranges :: "string list \<Rightarrow> subnet_range list \<Rightarrow> subnet_range list result" where
  "parse_ranges [] rs = Inr rs"
| "parse_ranges (s # ss) rs =
     rbind (make_mask_for_range s) (\<lambda>r. parse_ranges ss (if r \<in> set rs then rs else insort r rs))"

text \<open>\<open>parse_single_challenge\<close>. The constructor asks for the time.\<close>

definition parse_single_challenge :: "yaml_lib \<Rightarrow> challenge_lib \<Rightarrow> string \<Rightarrow> yaml \<Rightarrow> 'w world_scheme \<Rightarrow>
    (host_challenge_spec \<times> 'w world_scheme) result" where
  "parse_single_challenge Y L banjax_dir ch w =
     (let (now, w1) = time_now w in
      rbind (field ch ''name'' (as_string Y)) (\<lambda>nm.
      rbind (field ch ''challenge_type'' (as_string Y)) (\<lambda>requested_challenge_type.
      rbind (field ch ''validity_period'' (as_uint Y)) (\<lambda>validity.
      rbind (field_or ch ''no_of_fails_to_ban'' (as_uint Y) 0) (\<lambda>fails.
      rbind (field_or ch ''challenge'' (as_string Y) []) (\<lambda>challenge_file0.
      let t = challenge_type_of requested_challenge_type;
          challenge_file = (if challenge_file0 = [] then default_page_filename t else challenge_file0);
          stream = read_file L (banjax_dir @ ''/'' @ challenge_file) in
      rbind (field_or ch ''password_hash'' (as_string Y) []) (\<lambda>pw.
      rbind (field_or ch ''magic_word'' (parse_magic_word_node Y) []) (\<lambda>words.
      rbind (field_or ch ''magic_word_exceptions'' (as_vector (as_string Y)) []) (\<lambda>exceptions.
      rbind (field_or ch ''white_listed_ips'' (as_vector (as_string Y)) []) (\<lambda>ips.
      rbind (parse_ranges ips []) (\<lambda>ranges.
      Inr (\<lparr>name = nm, challenge_type = t, challenge_stream = stream,
            fail_tolerance_threshold = word_of_int fails, challenge_validity_period = validity,
            password_hash = pw, magic_words = words, magic_word_exceptions = exceptions,
            white_listed_ips = ranges, time_added = now\<rparr>, w1))))))))))))"

section \<open>Properties\<close>

subsection \<open>Proof of work\<close>

text \<open>The hexadecimal digits of a digest, the high half of each byte first.\<close>

definition hex_digits :: "string \<Rightarrow> nat list" where
  "hex_digits s = concat (map (\<lambda>c. [of_char c div 16, of_char c mod 16]) s)"

definition leading_zero_digits :: "nat list \<Rightarrow> nat" where
  "leading_zero_digits ds = length (takeWhile (\<lambda>d. d = 0) ds)"

definition digit_bits :: "nat \<Rightarrow> bool list" where
  "digit_bits d = map (bit d) [0, 1, 2, 3]"

lemma nibble_bits_digits:
  "nibble_bits c = digit_bits (of_char c div 16) @ digit_bits (of_char c mod 16)"
proof -
  have "bit (n div 16) k = bit n (4 + k)" for n k :: nat
    using bit_drop_bit_eq [of 4 n] by (simp add: drop_bit_eq_div)
  moreover have "bit (n mod 16) k = (k < 4 \<and> bit n k)" for n k :: nat
    using bit_take_bit_iff [of 4 n k] by (simp add: take_bit_eq_mod)
  ultimately show ?thesis by (simp add: nibble_bits_def digit_bits_def Let_def)
qed

lemma concat_nibble_bits: "concat (map nibble_bits s) = concat (map digit_bits (hex_digits s))"
  by (induction s) (simp_all add: hex_digits_def nibble_bits_digits)

lemma digit_bits_zero: "d < 16 \<Longrightarrow> (\<forall>b\<in>set (digit_bits d). \<not> b) \<longleftrightarrow> d = 0"
proof -
  assume "d < 16"
  then have "take_bit 4 d = d" by (simp add: take_bit_eq_mod)
  then have "d = 0 \<longleftrightarrow> (\<forall>k<4. \<not> bit d k)"
    by (metis bit_0_eq bit_eq_iff bit_take_bit_iff bot_apply bot_bool_def)
  also have "\<dots> \<longleftrightarrow> (\<forall>b\<in>set (digit_bits d). \<not> b)"
    by (auto simp: digit_bits_def less_Suc_eq numeral_eq_Suc)
  finally show ?thesis by simp
qed

lemma count_zeros_append:
  "count_zeros (xs @ ys) = (if \<forall>b\<in>set xs. \<not> b then length xs + count_zeros ys else count_zeros xs)"
  by (induction xs) auto

lemma count_zeros_less: "\<not> (\<forall>b\<in>set xs. \<not> b) \<Longrightarrow> count_zeros xs < length xs"
  by (induction xs) (auto split: if_splits)

lemma hex_digits_less: "d \<in> set (hex_digits s) \<Longrightarrow> d < 16"
  by (auto simp: hex_digits_def less_mult_imp_div_less)

text \<open>The bits of one digit are tested from its low end.\<close>

lemma digit_bits_count: "d < 16 \<Longrightarrow> n < 4 \<Longrightarrow> n \<le> count_zeros (digit_bits d) \<longleftrightarrow> 2 ^ n dvd d"
proof -
  have "\<forall>d\<in>set [0..<16]. \<forall>n\<in>set [0..<4]. n \<le> count_zeros (digit_bits d) \<longleftrightarrow> 2 ^ n dvd d" by code_simp
  then show "d < 16 \<Longrightarrow> n < 4 \<Longrightarrow> ?thesis" by simp
qed

lemma count_zeros_rest:
  "\<forall>d\<in>set ds. d < 16 \<Longrightarrow> n \<le> count_zeros (concat (map digit_bits ds)) \<longleftrightarrow>
   n div 4 \<le> leading_zero_digits ds \<and> (n mod 4 = 0 \<or> n div 4 < length ds \<and> 2 ^ (n mod 4) dvd ds ! (n div 4))"
proof (induction ds arbitrary: n)
  case (Cons d ds)
  have len: "length (digit_bits d) = 4" by (simp add: digit_bits_def)
  have few: "n div 4 = 0 \<and> n mod 4 = n" if "n < 4" for n :: nat using that by simp
  show ?case
  proof (cases "d = 0")
    case True
    then have c: "count_zeros (concat (map digit_bits (d # ds))) = 4 + count_zeros (concat (map digit_bits ds))"
      using digit_bits_zero [of d] len by (auto simp: count_zeros_append)
    show ?thesis
    proof (cases "n < 4")
      case n: True
      with c True few [OF n] show ?thesis by simp
    next
      case False
      then obtain n' where n': "n = n' + 4" by (metis add.commute le_Suc_ex not_less)
      have d4: "(n' + 4) div 4 = Suc (n' div 4)" "(n' + 4) mod 4 = n' mod 4" by simp_all
      have "leading_zero_digits (d # ds) = Suc (leading_zero_digits ds)" using True by (simp add: leading_zero_digits_def)
      then show ?thesis using c Cons.IH [of n'] Cons.prems unfolding n' d4 by simp
    qed
  next
    case False
    then have c: "count_zeros (concat (map digit_bits (d # ds))) = count_zeros (digit_bits d)"
      and less: "count_zeros (digit_bits d) < 4"
      using digit_bits_zero [of d] count_zeros_less [of "digit_bits d"] len Cons.prems by (simp_all add: count_zeros_append)
    have z: "leading_zero_digits (d # ds) = 0" using False by (simp add: leading_zero_digits_def)
    show ?thesis
    proof (cases "n < 4")
      case True
      then show ?thesis using c z few [OF True] digit_bits_count [of d n] Cons.prems by (cases "n = 0") simp_all
    next
      case n: False
      then have "0 < n div 4" by simp
      with c less z n show ?thesis by linarith
    qed
  qed
qed (auto simp: leading_zero_digits_def)

text \<open>C37: What the proof of work asks for. For every difficulty \<open>n\<close> a solution is accepted iff the SHA-256 digest of
  the whole cookie, written in hexadecimal, begins with \<open>n div 4\<close> zeros and the low \<open>n mod 4\<close> bits of the digit after
  them are zero. For a multiple of four these are \<open>n\<close> leading zero bits, as the solver page searches for them; for other
  difficulties the bits of the last digit are tested from its low end.\<close>

theorem proof_of_work_counts_hex_zeros:
  fixes L c
  defines "ds \<equiv> hex_digits (sha256 L (cstr c))"
  shows "check_sha L n c \<longleftrightarrow>
    n div 4 \<le> leading_zero_digits ds \<and> (n mod 4 = 0 \<or> n div 4 < length ds \<and> 2 ^ (n mod 4) dvd ds ! (n div 4))"
  unfolding check_sha_def concat_nibble_bits ds_def by (rule count_zeros_rest) (auto intro: hex_digits_less)

definition sample_lib :: challenge_lib where
  "sample_lib =
     \<lparr>sha256 = (\<lambda>s. take 32 (CHR 0x10 # s @ replicate 32 NUL)), hmac_sha1 = sample_hmac,
      partial_match = (\<lambda>p s. sfind p s \<noteq> None), read_file = (\<lambda>_. ''$token $time $url $zeros''),
      urandom = (\<lambda>_. sample_random 0)\<rparr>"

text \<open>A digest that begins with the byte 0x10 has three leading zeros in binary and fails difficulty 1; one that begins with
  0x08 has four and passes difficulty 7.\<close>

theorem proof_of_work_counts_hex_zeros_witness:
  "sha256 sample_lib (cstr ''x'') = CHR 0x10 # CHR ''x'' # replicate 30 NUL \<and> \<not> check_sha sample_lib 1 ''x'' \<and>
   check_sha (sample_lib\<lparr>sha256 := \<lambda>_. replicate 32 (CHR 0x08)\<rparr>) 7 ''x''"
proof -
  have d: "sha256 sample_lib (cstr ''x'') = CHR 0x10 # CHR ''x'' # replicate 30 NUL"
    "hex_digits (CHR 0x10 # CHR ''x'' # replicate 30 NUL) ! 0 = 1" "hex_digits (replicate 32 (CHR 0x08)) ! 1 = 8"
    "leading_zero_digits (hex_digits (replicate 32 (CHR 0x08))) = 1" "length (hex_digits (replicate 32 (CHR 0x08))) = 64"
    by code_simp+
  then show ?thesis
    using proof_of_work_counts_hex_zeros [of sample_lib 1 "''x''"]
      proof_of_work_counts_hex_zeros [of "sample_lib\<lparr>sha256 := \<lambda>_. replicate 32 (CHR 0x08)\<rparr>" 7 "''x''"] by simp
qed

subsection \<open>Password proof\<close>

lemma check_auth_validity_eq:
  assumes "cstr c = c" and "Decode (drop COOKIE_B64_LENGTH c) = Inr data"
  shows "check_auth_validity L c pw =
    (if length c < COOKIE_B64_LENGTH + length pw then Inr False
     else if length data + 1 < SHA256_DIGEST_LENGTH then Inl OutOfBoundsRead
     else Inr (take SHA256_DIGEST_LENGTH (data @ [NUL]) = sha256 L (take COOKIE_B64_LENGTH c @ pw)))"
  using assms by (simp add: check_auth_validity_def Let_def)

text \<open>The password proof. What the login page sends (the 40-character token followed by the
  base64 form of the SHA-256 of token and password hash) is accepted, provided the stored password
  hash is not longer than the proof, 44 characters; and an accepted cookie always carries that
  digest, so it was computed from the token and the password hash.\<close>

theorem password_proof_roundtrip:
  assumes "length token = COOKIE_B64_LENGTH" and "NUL \<notin> set token"
    and "\<forall>s. length (sha256 L s) = SHA256_DIGEST_LENGTH" and "length pw \<le> 44"
  shows "(\<exists>proof. Encode (sha256 L (token @ pw)) = Inr proof \<and>
            check_auth_validity L (token @ proof) pw = Inr True) \<and>
         (check_auth_validity L c pw = Inr True \<longrightarrow>
            (\<exists>data. Decode (drop COOKIE_B64_LENGTH (cstr c)) = Inr data \<and>
               take SHA256_DIGEST_LENGTH (data @ [NUL]) = sha256 L (take COOKIE_B64_LENGTH (cstr c) @ pw)))"
proof
  have "length (sha256 L (token @ pw)) < 2 ^ 32" by (simp add: assms(3) SHA256_DIGEST_LENGTH_def)
  then obtain pf where pf: "Encode (sha256 L (token @ pw)) = Inr pf"
    "length pf = encode_length (length (sha256 L (token @ pw)))" "cstr pf = pf"
    "Decode pf = Inr (sha256 L (token @ pw))"
    by (rule b64.enc_obtain)
  have len: "length pf = 44" using pf(2) assms(3) by (simp add: SHA256_DIGEST_LENGTH_def encode_length_def)
  have "NUL \<notin> set pf" using cstr_no_NUL [of pf] pf(3) by simp
  with assms(2) have "cstr (token @ pf) = token @ pf" by (simp add: cstr_id)
  then have "check_auth_validity L (token @ pf) pw = Inr True"
    using check_auth_validity_eq [of "token @ pf" "sha256 L (token @ pw)" L pw] pf(4) assms len
    by (simp add: SHA256_DIGEST_LENGTH_def)
  with pf(1) show "\<exists>proof. Encode (sha256 L (token @ pw)) = Inr proof \<and>
      check_auth_validity L (token @ proof) pw = Inr True" by blast
  show "check_auth_validity L c pw = Inr True \<longrightarrow>
    (\<exists>data. Decode (drop COOKIE_B64_LENGTH (cstr c)) = Inr data \<and>
       take SHA256_DIGEST_LENGTH (data @ [NUL]) = sha256 L (take COOKIE_B64_LENGTH (cstr c) @ pw))"
    by (auto simp: check_auth_validity_def Let_def split: if_splits sum.splits)
qed

theorem password_proof_roundtrip_witness:
  "\<exists>proof. Encode (sha256 sample_lib (replicate 40 (CHR ''t'') @ ''secret'')) = Inr proof \<and>
     check_auth_validity sample_lib (replicate 40 (CHR ''t'') @ proof) ''secret'' = Inr True"
proof -
  have "length (replicate 40 (CHR ''t'')) = COOKIE_B64_LENGTH" by (simp add: cookie_sizes)
  moreover have "\<forall>s. length (sha256 sample_lib s) = SHA256_DIGEST_LENGTH"
    by (auto simp: sample_lib_def SHA256_DIGEST_LENGTH_def min_def)
  ultimately show ?thesis
    using password_proof_roundtrip [of "replicate 40 (CHR ''t'')" sample_lib "''secret''" "[]"] by simp
qed

text \<open>The password check reads past the decoded proof: any cookie of at least 40 characters plus
  the length of the password hash whose rest decodes to fewer than 31 bytes, for instance a run of
  padding characters, makes \<open>memcmp\<close> compare 32 bytes of a shorter string.\<close>

theorem password_check_over_read:
  assumes "cstr c = c" and "Decode (drop COOKIE_B64_LENGTH c) = Inr data"
  shows "check_auth_validity L c pw = Inl OutOfBoundsRead \<longleftrightarrow>
    COOKIE_B64_LENGTH + length pw \<le> length c \<and> length data < 31"
  using check_auth_validity_eq [OF assms, of L pw] by (auto simp: SHA256_DIGEST_LENGTH_def)

theorem password_check_over_read_witness:
  "check_auth_validity sample_lib (replicate 84 (CHR ''='')) (replicate 44 (CHR ''p'')) = Inl OutOfBoundsRead"
proof -
  have d: "Decode (replicate 44 (CHR ''='')) = Inr []" by code_simp
  show ?thesis
    using password_check_over_read [of "replicate 84 (CHR ''='')" "[]" sample_lib "replicate 44 (CHR ''p'')"]
    by (simp add: cstr_id cookie_sizes d)
qed

end
