(* ===== verification/Challenger.thy ===== *)
theory Challenger
  imports Reports ChallengeSpec
begin

text \<open>
  The challenger (challenger.h, challenger.cpp): which challenges apply to a request, whether its
  cookie answers them, the counting of failures, the pages it serves and the challenges that are
  added at run time. The state extends the reports' state with the two tables of dynamic challenges;
  the configuration is the record \<open>challenger\<close>.
\<close>

record challenger_state = report_state +
  host_to_challenge_dynamic :: "(string \<times> host_challenge_spec) list"
  ip_to_challenge_dynamic :: "(string \<times> host_challenge_spec) list"

text \<open>\<open>dynamic_expiry_seconds\<close> is left uninitialized when the configuration does not give it.
  \<open>banjax\<close> tells whether the pointer to the interface is set.\<close>

record challenger =
  ch_cfg :: yaml
  hashed_key :: string
  number_of_trailing_zeros :: nat
  dynamic_expiry_seconds :: "int option"
  host_challenges_static :: "string \<rightharpoonup> host_challenge_spec list"
  banjax_dir :: string
  ch_white_list :: "global_white_list option"
  banjax :: bool

definition Challenger_requested_info :: "64 word" where
  "Challenger_requested_info = IP OR URL OR HOST OR UA OR URL_WITH_HOST OR COOKIE"

definition too_many_failures_message :: string where
  "too_many_failures_message = ''<html><header></header><body>you are banned by deflect/banjax</body></html>''"

section \<open>Loading\<close>

definition push_challenge :: "host_challenge_spec \<Rightarrow> string \<Rightarrow> (string \<rightharpoonup> host_challenge_spec list) \<Rightarrow> (string \<rightharpoonup> host_challenge_spec list)" where
  "push_challenge spec domain m = m(domain \<mapsto> (case m domain of None \<Rightarrow> [] | Some cs \<Rightarrow> cs) @ [spec])"

fun load_challenges :: "yaml_lib \<Rightarrow> challenge_lib \<Rightarrow> string \<Rightarrow> yaml list \<Rightarrow> (string \<rightharpoonup> host_challenge_spec list) \<Rightarrow>
    'w world_scheme \<Rightarrow> ((string \<rightharpoonup> host_challenge_spec list) \<times> 'w world_scheme) result" where
  "load_challenges Y L dir [] m w = Inr (m, w)"
| "load_challenges Y L dir (ch # chs) m w =
     rbind (parse_single_challenge Y L dir ch w) (\<lambda>(spec, w1).
     rbind (field ch ''domains'' (\<lambda>ds. as_list (as_string Y) (yelems ds))) (\<lambda>domains.
     load_challenges Y L dir chs (fold (push_challenge spec) domains m) w1))"

text \<open>The part of \<open>load_config\<close> about dynamic challenges: a \<open>throw;\<close> outside a handler ends the
  process, a failed conversion is taken to mean that they are not used.\<close>

definition load_dynamic :: "yaml_lib \<Rightarrow> yaml \<Rightarrow> int option result" where
  "load_dynamic Y cfg =
     (case field cfg ''dynamic_expiry_seconds'' (as_uint Y) of
        Inl e \<Rightarrow> if e = YamlRepresentation then Inr None else Inl e
      | Inr secs \<Rightarrow>
          (case ysub cfg ''dynamic_challenger_config'' of
             Inl e \<Rightarrow> if e = YamlRepresentation then Inr (Some secs) else Inl e
           | Inr dyn \<Rightarrow>
               if \<not> IsDefined dyn then Inl Terminate
               else case ysub dyn ''challenge_type'' of
                 Inl e \<Rightarrow> if e = YamlRepresentation then Inr (Some secs) else Inl e
               | Inr t \<Rightarrow> if \<not> IsDefined t then Inl Terminate else Inr (Some secs)))"

definition Challenger_load_config :: "yaml_lib \<Rightarrow> challenge_lib \<Rightarrow> string \<Rightarrow> global_white_list option \<Rightarrow> bool \<Rightarrow> yaml \<Rightarrow>
    'w world_scheme \<Rightarrow> (challenger \<times> 'w world_scheme) result" where
  "Challenger_load_config Y L dir wl has_banjax cfg w =
     rbind (ysub cfg ''challenges'') (\<lambda>chs.
     rbind (load_challenges Y L dir (yelems chs) Map.empty w) (\<lambda>(m, w1).
     rbind (field cfg ''key'' (as_string Y)) (\<lambda>key.
     rbind (field cfg ''difficulty'' (as_uint Y)) (\<lambda>difficulty.
     rbind (load_dynamic Y cfg) (\<lambda>expiry.
     Inr (\<lparr>ch_cfg = cfg, hashed_key = sha256 L key, number_of_trailing_zeros = nat difficulty,
           dynamic_expiry_seconds = expiry, host_challenges_static = m, banjax_dir = dir,
           ch_white_list = wl, banjax = has_banjax\<rparr>, w1))))))"

section \<open>Dynamic challenges\<close>

text \<open>\<open>TSMutexLock\<close> waits until it has the lock.\<close>

definition load_single_host_challenge :: "yaml_lib \<Rightarrow> challenge_lib \<Rightarrow> challenger \<Rightarrow> string \<Rightarrow>
    's challenger_state_scheme \<Rightarrow> 's challenger_state_scheme result" where
  "load_single_host_challenge Y L C domain st =
     rbind (ysub (ch_cfg C) ''dynamic_challenger_config'') (\<lambda>dyn.
     rbind (parse_single_challenge Y L (banjax_dir C) dyn st) (\<lambda>(spec, st1).
     Inr (st1\<lparr>host_to_challenge_dynamic := AList.update domain spec (host_to_challenge_dynamic st1)\<rparr>)))"

definition load_single_ip_challenge :: "yaml_lib \<Rightarrow> challenge_lib \<Rightarrow> challenger \<Rightarrow> string \<Rightarrow>
    's challenger_state_scheme \<Rightarrow> 's challenger_state_scheme result" where
  "load_single_ip_challenge Y L C ip st =
     rbind (ysub (ch_cfg C) ''dynamic_challenger_config'') (\<lambda>dyn.
     rbind (parse_single_challenge Y L (banjax_dir C) dyn st) (\<lambda>(spec, st1).
     Inr (st1\<lparr>ip_to_challenge_dynamic := AList.update ip spec (ip_to_challenge_dynamic st1)\<rparr>)))"

text \<open>The loop of \<open>remove_expired_challenges\<close> over one table. Comparing with the uninitialized
  \<open>dynamic_expiry_seconds\<close> is undefined.\<close>

fun drop_expired :: "int option \<Rightarrow> int \<Rightarrow> (string \<times> host_challenge_spec) list \<Rightarrow> (string \<times> host_challenge_spec) list result" where
  "drop_expired expiry now [] = Inr []"
| "drop_expired expiry now ((k, c) # m) =
     (case expiry of
        None \<Rightarrow> Inl OutOfBoundsRead
      | Some secs \<Rightarrow>
          rbind (drop_expired expiry now m) (\<lambda>m'.
          Inr (if now - time_added c > secs then m' else (k, c) # m')))"

definition remove_expired_challenges :: "challenger \<Rightarrow> 's challenger_state_scheme \<Rightarrow> (int \<times> 's challenger_state_scheme) result" where
  "remove_expired_challenges C st =
     (let (now, st1) = time_now st in
      rbind (drop_expired (dynamic_expiry_seconds C) now (host_to_challenge_dynamic st1)) (\<lambda>hosts.
      rbind (drop_expired (dynamic_expiry_seconds C) now (ip_to_challenge_dynamic st1)) (\<lambda>ips.
      Inr (0, st1\<lparr>host_to_challenge_dynamic := hosts, ip_to_challenge_dynamic := ips\<rparr>))))"

definition dynamic_host_challenges_size :: "'s challenger_state_scheme \<Rightarrow> nat" where
  "dynamic_host_challenges_size st = length (host_to_challenge_dynamic st)"

definition dynamic_ip_challenges_size :: "'s challenger_state_scheme \<Rightarrow> nat" where
  "dynamic_ip_challenges_size st = length (ip_to_challenge_dynamic st)"

section \<open>Checking a cookie\<close>

definition challenge_prevailed :: "challenge_lib \<Rightarrow> challenger \<Rightarrow> host_challenge_spec \<Rightarrow> string \<Rightarrow> bool result" where
  "challenge_prevailed L C ch captcha_cookie =
     (case challenge_type ch of
        CHALLENGE_SHA_INVERSE \<Rightarrow> Inr (check_sha L (number_of_trailing_zeros C) captcha_cookie)
      | CHALLENGE_AUTH \<Rightarrow> check_auth_validity L captcha_cookie (password_hash ch)
      | CHALLENGE_CAPTCHA \<Rightarrow> Inr True)"

text \<open>The first cookie named \<open>deflect\<close> decides. The report goes through the interface pointer
  without a test.\<close>

definition check_cookie :: "challenge_lib \<Rightarrow> challenger \<Rightarrow> string \<Rightarrow> transaction_parts \<Rightarrow> host_challenge_spec \<Rightarrow>
    's challenger_state_scheme \<Rightarrow> (bool \<times> 's challenger_state_scheme) result" where
  "check_cookie L C answer parts ch st =
     rbind (part_at parts COOKIE) (\<lambda>cookie_jar.
     rbind (part_at parts IP) (\<lambda>ip.
     rbind (part_at parts HOST) (\<lambda>host.
     case find (\<lambda>c. cookie_name c = ''deflect'') (parse_jar cookie_jar) of
       None \<Rightarrow> Inr (False, st)
     | Some c \<Rightarrow>
         rbind (challenge_prevailed L C ch (cookie_value c)) (\<lambda>prevailed.
         let (now, st1) = time_now st in
         rbind (ValidateCookie (hmac_sha1 L) answer (hashed_key C) now ip (take COOKIE_B64_LENGTH (cookie_value c))) (\<lambda>result.
         let passed = (prevailed \<and> result = 1) in
         if \<not> banjax C then Inl NullDereference
         else Inr (passed, snd (report_pass_or_failure2 host ip passed st1)))))))"

definition is_captcha_url :: "string \<Rightarrow> bool" where
  "is_captcha_url url = (srfind ''__captcha'' url \<noteq> None)"

definition is_captcha_answer :: "string \<Rightarrow> bool" where
  "is_captcha_answer url = (srfind ''__validate/'' url \<noteq> None)"

definition is_globally_white_listed :: "challenger \<Rightarrow> string \<Rightarrow> bool" where
  "is_globally_white_listed C ip =
     (case ch_white_list C of None \<Rightarrow> False | Some wl \<Rightarrow> ip_white_listed wl ip \<noteq> None)"

section \<open>Counting failures\<close>

definition challenge_banning_reason :: "host_challenge_spec \<Rightarrow> string \<Rightarrow> 64 word \<Rightarrow> transaction_parts \<Rightarrow> string" where
  "challenge_banning_reason ch failed_host n parts =
     ''failed challenge '' @ name ch @ '' for host '' @ failed_host @ '' '' @ to_string (uint n) @ '' times, '' @
     encapsulate_in_quotes (get_part parts URL) @ '', '' @ get_part parts HOST @ '', '' @
     encapsulate_in_quotes (get_part parts UA)"

definition set_count :: "string \<Rightarrow> 64 word \<Rightarrow> 's report_state_scheme \<Rightarrow> 's report_state_scheme" where
  "set_count ip n st =
     (let (_, db, st1) = set_ip_state ip n (challenger_ip_db st) st in st1\<lparr>challenger_ip_db := db\<rparr>)"

definition drop_count :: "string \<Rightarrow> 's report_state_scheme \<Rightarrow> 's report_state_scheme" where
  "drop_count ip st =
     (let (_, db, st1) = drop_ip ip (challenger_ip_db st) st in st1\<lparr>challenger_ip_db := db\<rparr>)"

definition report_failure :: "host_challenge_spec \<Rightarrow> transaction_parts \<Rightarrow> 's challenger_state_scheme \<Rightarrow>
    (bool \<times> 's challenger_state_scheme) result" where
  "report_failure ch parts st =
     rbind (part_at parts IP) (\<lambda>client_ip.
     rbind (part_at parts HOST) (\<lambda>failed_host.
     let (ip_state, st1) = get_ip_state 0 client_ip (challenger_ip_db st) st in
     case ip_state of
       None \<Rightarrow> Inr (False, st1)
     | Some old \<Rightarrow>
         let n = old + 1 in
         if n \<ge> ucast (fail_tolerance_threshold ch) then
           Inr (True, drop_count client_ip (ban (cstr client_ip) (challenge_banning_reason ch failed_host n parts) st1))
         else Inr (False, set_count client_ip n st1)))"

definition report_success :: "string \<Rightarrow> 's challenger_state_scheme \<Rightarrow> 's challenger_state_scheme" where
  "report_success client_ip st = set_count client_ip 1 st"

section \<open>The request handler\<close>

type_synonym challenge_response = "host_challenge_spec filter_response"

definition custom_response :: "host_challenge_spec \<Rightarrow> challenge_response" where
  "custom_response ch =
     \<lparr>response_type = I_RESPOND,
      response_data = Some (new_extended_response (Some CHALLENGER_FILTER_ID) (Some ch))\<rparr>"

definition delete_cookie_header :: string where
  "delete_cookie_header = ''deflect=deleted; path=/; expires=Thu, 01 Jan 1970 00:00:00 GMT; HttpOnly''"

text \<open>\<open>if (banjax != nullptr) banjax->report_pass_or_failure(\<dots>)\<close>\<close>

definition report_if :: "challenger \<Rightarrow> string \<Rightarrow> string \<Rightarrow> bool \<Rightarrow> 's challenger_state_scheme \<Rightarrow> 's challenger_state_scheme" where
  "report_if C host ip passed st =
     (if banjax C then snd (report_pass_or_failure host ip passed st) else st)"

text \<open>The answer to a failed challenge: its page, and the failure counted if the challenge has a
  threshold.\<close>

definition failure_response :: "host_challenge_spec \<Rightarrow> string \<Rightarrow> transaction_parts \<Rightarrow> 's challenger_state_scheme \<Rightarrow>
    (challenge_response \<times> 's challenger_state_scheme) result" where
  "failure_response ch cookie_header parts st =
     rbind (if fail_tolerance_threshold ch \<noteq> 0 then report_failure ch parts st else Inr (False, st)) (\<lambda>(is_banned, st1).
     Inr (\<lparr>response_type = I_RESPOND,
           response_data = Some ((new_extended_response (Some CHALLENGER_FILTER_ID) (Some ch))
             \<lparr>banned_ip := is_banned, set_cookie_header := cookie_header\<rparr>)\<rparr>, st1))"

text \<open>Which challenges to run: those configured for the host; otherwise the dynamic challenge of the
  host; otherwise the dynamic challenge of the address, which is put on the list twice. None means
  that the challenger lets the request go on.\<close>

definition select_challenges :: "challenger \<Rightarrow> string \<Rightarrow> string \<Rightarrow> 's challenger_state_scheme \<Rightarrow>
    host_challenge_spec list option \<times> 's challenger_state_scheme" where
  "select_challenges C host ip st =
     (case host_challenges_static C host of
        Some chs \<Rightarrow> (Some chs, st)
      | None \<Rightarrow>
          let (locked, st1) = try_lock st in
          if \<not> locked then (None, st1)
          else case map_of (host_to_challenge_dynamic st1) host of
            Some ch \<Rightarrow> (Some [ch], st1)
          | None \<Rightarrow>
              let (locked2, st2) = try_lock st1 in
              if \<not> locked2 then (None, st2)
              else case map_of (ip_to_challenge_dynamic st2) ip of
                None \<Rightarrow> (None, st2)
              | Some ch \<Rightarrow> (Some [ch, ch], st2))"

text \<open>The loop over the challenges.\<close>

fun run_challenges :: "challenge_lib \<Rightarrow> challenger \<Rightarrow> transaction_parts \<Rightarrow> string \<Rightarrow> string \<Rightarrow> host_challenge_spec list \<Rightarrow>
    's challenger_state_scheme \<Rightarrow> (challenge_response \<times> 's challenger_state_scheme) result" where
  "run_challenges L C parts host ip [] st = Inr (plain_response GO_AHEAD_NO_COMMENT, report_success ip st)"
| "run_challenges L C parts host ip (ch # chs) st =
     (if \<exists>r\<in>set (white_listed_ips ch). is_match ip r then Inr (plain_response SERVE_IMMIDIATELY_DONT_CACHE, st)
      else case challenge_type ch of
        CHALLENGE_CAPTCHA \<Rightarrow>
          if is_globally_white_listed C ip then run_challenges L C parts host ip chs st
          else rbind (part_at parts URL_WITH_HOST) (\<lambda>url.
            if is_captcha_url url \<or> is_captcha_answer url then Inr (custom_response ch, st)
            else rbind (check_cookie L C [] parts ch st) (\<lambda>(ok, st1).
              if ok then run_challenges L C parts host ip chs (report_if C host ip True (report_success ip st1))
              else failure_response ch [] parts (report_if C host ip False st1)))
      | CHALLENGE_SHA_INVERSE \<Rightarrow>
          if is_globally_white_listed C ip then run_challenges L C parts host ip chs st
          else rbind (check_cookie L C [] parts ch st) (\<lambda>(ok, st1).
            if \<not> ok then failure_response ch delete_cookie_header parts (report_if C host ip False st1)
            else run_challenges L C parts host ip chs (report_if C host ip True st1))
      | CHALLENGE_AUTH \<Rightarrow>
          rbind (check_cookie L C [] parts ch st) (\<lambda>(ok, st1).
          if ok then Inr (plain_response SERVE_FRESH, report_if C host ip True (report_success ip st1))
          else
            let st2 = report_if C host ip False st1 in
            rbind (part_at parts URL_WITH_HOST) (\<lambda>url.
            if needs_authentication L url ch then failure_response ch delete_cookie_header parts st2
            else run_challenges L C parts host ip chs st2)))"

definition Challenger_on_http_request :: "challenge_lib \<Rightarrow> challenger \<Rightarrow> transaction_parts \<Rightarrow> 's challenger_state_scheme \<Rightarrow>
    (challenge_response \<times> 's challenger_state_scheme) result" where
  "Challenger_on_http_request L C parts st =
     rbind (part_at parts HOST) (\<lambda>host.
     rbind (part_at parts IP) (\<lambda>ip.
     case select_challenges C host ip st of
       (None, st1) \<Rightarrow> Inr (plain_response GO_AHEAD_NO_COMMENT, st1)
     | (Some chs, st1) \<Rightarrow>
         rbind (part_at parts COOKIE) (\<lambda>_. run_challenges L C parts host ip chs st1)))"

section \<open>Splitting\<close>

text \<open>\<open>split\<close>: what \<open>std::getline\<close> delivers until the stream is at its end. Nothing of the program calls it.\<close>

function split_items :: "string \<Rightarrow> char \<Rightarrow> string list" where
  "split_items s delim =
     (if s = [] then []
      else takeWhile (\<lambda>c. c \<noteq> delim) s # split_items (drop 1 (dropWhile (\<lambda>c. c \<noteq> delim) s)) delim)"
  by pat_completeness auto
termination
proof (relation "measure (\<lambda>(s, d). length s)")
  fix s :: string and d assume "s \<noteq> []"
  then show "((drop 1 (dropWhile (\<lambda>c. c \<noteq> d) s), d), (s, d)) \<in> measure (\<lambda>(s, d). length s)"
    using length_dropWhile_le [of "\<lambda>c. c \<noteq> d" s] by (cases s) auto
qed simp

declare split_items.simps [simp del]

text \<open>The items with their delimiters are the string, completed by a delimiter if it does not end in one.\<close>

lemma split_items_join:
  "concat (map (\<lambda>i. i @ [d]) (split_items s d)) = (if s = [] \<or> last s = d then s else s @ [d])"
proof (induction s d rule: split_items.induct)
  case (1 s d)
  let ?a = "takeWhile (\<lambda>c. c \<noteq> d) s" and ?r = "dropWhile (\<lambda>c. c \<noteq> d) s"
  show ?case
  proof (cases ?r)
    case Nil
    then have "s = ?a" by (metis append_Nil2 takeWhile_dropWhile_id)
    moreover from this have "d \<notin> set s" by (metis (mono_tags, lifting) set_takeWhileD)
    moreover from this have "s = [] \<or> last s \<noteq> d" by (metis last_in_set)
    moreover have "split_items s d = (if s = [] then [] else [?a])"
      unfolding split_items.simps [of s d] Nil by (simp add: split_items.simps)
    ultimately show ?thesis by auto
  next
    case (Cons x r)
    then have x: "x = d" using hd_dropWhile [of "\<lambda>c. c \<noteq> d" s] by simp
    have s: "s = ?a @ d # r" using Cons x by (metis takeWhile_dropWhile_id)
    have "s \<noteq> []" using s by auto
    moreover have "(last s = d) = (r = [] \<or> last r = d)" using s by (metis last.simps last_appendR list.distinct(1))
    ultimately show ?thesis using 1 Cons s by (simp add: split_items.simps [of s])
  qed
qed

section \<open>The pages\<close>

definition replace_first :: "string \<Rightarrow> string \<Rightarrow> string \<Rightarrow> string" where
  "replace_first original pat rep =
     (case sfind pat original of
        None \<Rightarrow> original
      | Some start_pos \<Rightarrow> take start_pos original @ rep @ drop (start_pos + length pat) original)"

definition SUB_TOKEN :: string where "SUB_TOKEN = ''$token''"
definition SUB_TIME :: string where "SUB_TIME = ''$time''"
definition SUB_URL :: string where "SUB_URL = ''$url''"
definition SUB_ZEROS :: string where "SUB_ZEROS = ''$zeros''"

text \<open>\<open>format_validity_time_for_cookie\<close>: the text needs to fit 30 bytes with its NUL; otherwise
  the buffer's contents are indeterminate.\<close>

definition format_validity_time_for_cookie :: "int \<Rightarrow> string result" where
  "format_validity_time_for_cookie validity_time =
     (let s = http_time (gmtime validity_time) in if 30 \<le> length s then Inl OutOfBoundsRead else Inr s)"

type_synonym challenge_extended = "host_challenge_spec filter_extended_response"

definition cookie_header :: "string \<Rightarrow> string" where
  "cookie_header c = cstr (''deflect='' @ cstr c @ ''; path=/; HttpOnly'')"

text \<open>\<open>std::string((const char*)gif, gifsize)\<close>\<close>

definition bytes_to_string :: "byte list \<Rightarrow> string" where
  "bytes_to_string bs = map (\<lambda>b. char_of (unat b)) bs"

text \<open>The buffer \<open>gif\<close> is not initialised in the code; \<open>makegif\<close> overwrites all of it (\<open>makegif_file\<close>), so
  zeros stand for whatever it holds.\<close>

definition generate_html :: "challenge_lib \<Rightarrow> challenger \<Rightarrow> string \<Rightarrow> int \<Rightarrow> string \<Rightarrow> transaction_parts \<Rightarrow> host_challenge_spec \<Rightarrow>
    challenge_extended \<Rightarrow> 's challenger_state_scheme \<Rightarrow> (string \<times> challenge_extended \<times> 's challenger_state_scheme) result" where
  "generate_html L C ip t url parts ch resp st =
     (if is_captcha_url url then
        rbind (captcha_image (urandom L (tick st)) (replicate 6 0)) (\<lambda>(im, txt).
        rbind (makegif im (replicate gifsize 0)) (\<lambda>gif.
        let (now, st1) = time_now st in
        rbind (GenerateCookie (hmac_sha1 L) txt (hashed_key C) (now + 120) ip) (\<lambda>c.
        Inr (bytes_to_string gif, (set_content_type (Some ''image/gif'') (resp\<lparr>response_code := 200\<rparr>))
               \<lparr>set_cookie_header := set_cookie_header resp @ cookie_header c\<rparr>, st1))))
      else if is_captcha_answer url then
        rbind (part_at parts URL_WITH_HOST) (\<lambda>full_url.
        rbind (case srfind ''__validate/'' full_url of
                 Some found \<Rightarrow> Inr (drop (found + 11) full_url)
               | None \<Rightarrow> if 10 \<le> length full_url then Inr (drop 10 full_url) else Inl OutOfRange) (\<lambda>answer.
        let resp1 = (set_content_type (Some ''text/html'') resp)\<lparr>response_code := 403\<rparr> in
        rbind (check_cookie L C answer parts ch st) (\<lambda>(ok, st1).
        if ok then
          rbind (GenerateCookie (hmac_sha1 L) [] (hashed_key C) t ip) (\<lambda>c.
          Inr (''OK'', resp1\<lparr>response_code := 200, set_cookie_header := set_cookie_header resp1 @ cookie_header c\<rparr>, st1))
        else
          rbind (if fail_tolerance_threshold ch \<noteq> 0 then report_failure ch parts st1
                 else Inr (banned_ip resp1, st1)) (\<lambda>(is_banned, st2).
          Inr (if is_banned then ''Too many failures'' else ''X'', resp1\<lparr>banned_ip := is_banned\<rparr>, st2)))))
      else
        rbind (GenerateCookie (hmac_sha1 L) [] (hashed_key C) t ip) (\<lambda>token.
        rbind (format_validity_time_for_cookie t) (\<lambda>t_str.
        let page1 = replace_first (challenge_stream ch) SUB_TIME t_str;
            page2 = replace_first page1 SUB_TOKEN token;
            page3 = replace_first page2 SUB_URL url;
            page4 = replace_first page3 SUB_ZEROS (decimal_nat (number_of_trailing_zeros C))
        in Inr (page4, resp, st))))"

definition Challenger_generate_response :: "challenge_lib \<Rightarrow> challenger \<Rightarrow> transaction_parts \<Rightarrow> challenge_extended \<Rightarrow>
    's challenger_state_scheme \<Rightarrow> (string \<times> challenge_extended \<times> 's challenger_state_scheme) result" where
  "Challenger_generate_response L C parts resp st =
     (if banned_ip resp then Inr (too_many_failures_message, resp, st)
      else case responding_challenge resp of
        None \<Rightarrow> Inl NullDereference
      | Some ch \<Rightarrow>
          let (now, st1) = time_now st;
              time_validity = now + challenge_validity_period ch in
          rbind (part_at parts IP) (\<lambda>ip.
          rbind (part_at parts URL_WITH_HOST) (\<lambda>url.
          rbind (part_at parts HOST) (\<lambda>_.
          generate_html L C ip time_validity
            (if alternative_url resp = [] then url else alternative_url resp) parts ch resp st1))))"

section \<open>Frame\<close>

lemma reports_only_env:
  "reports_only st st' \<Longrightarrow> clock st' = clock st \<and> locks st' = locks st \<and> challenger_ip_db st' = challenger_ip_db st"
  by (auto simp: reports_only_def)

lemma report_if_env [simp]:
  "clock (report_if C host ip p st) = clock st" "locks (report_if C host ip p st) = locks st"
  "challenger_ip_db (report_if C host ip p st) = challenger_ip_db st"
  using reports_only_env [OF report_only(1) [of st host ip p]] by (auto simp: report_if_def)

lemma set_count_env [simp]: "clock (set_count ip n st) = clock st" "locks (set_count ip n st) = locks st"
  by (simp_all add: set_count_def set_ip_state_def world_simps Let_def)

lemma drop_count_env [simp]: "clock (drop_count ip st) = clock st" "locks (drop_count ip st) = locks st"
  by (simp_all add: drop_count_def drop_ip_def world_simps Let_def)

lemma report_success_env [simp]: "clock (report_success ip st) = clock st" "locks (report_success ip st) = locks st"
  by (simp_all add: report_success_def)

lemma ban_challenger_db [simp]: "challenger_ip_db (ban ip r st) = challenger_ip_db st"
proof -
  have "swabber_state.more (ban ip r st) = swabber_state.more st" by simp
  then show ?thesis by (cases "ban ip r st"; cases st) simp
qed

section \<open>Properties\<close>

subsection \<open>What a passing cookie is\<close>

text \<open>The decision of \<open>check_cookie\<close> at the time \<open>now\<close>, without its effects.\<close>

definition cookie_passes :: "challenge_lib \<Rightarrow> challenger \<Rightarrow> string \<Rightarrow> transaction_parts \<Rightarrow> host_challenge_spec \<Rightarrow> int \<Rightarrow> bool" where
  "cookie_passes L C answer parts ch now \<longleftrightarrow>
     (\<exists>jar ip c. parts COOKIE = Some jar \<and> parts IP = Some ip \<and>
        find (\<lambda>c. cookie_name c = ''deflect'') (parse_jar jar) = Some c \<and>
        challenge_prevailed L C ch (cookie_value c) = Inr True \<and>
        ValidateCookie (hmac_sha1 L) answer (hashed_key C) now ip (take COOKIE_B64_LENGTH (cookie_value c)) = Inr 1)"

lemma check_cookie_passes:
  "check_cookie L C answer parts ch st = Inr (ok, st') \<Longrightarrow>
   ok = cookie_passes L C answer parts ch (fst (clock st (tick st))) \<and> reports_only st st'"
  unfolding check_cookie_def cookie_passes_def part_at_def
  by (auto simp: rbind_eq_Inr_iff world_simps Let_def split: option.splits if_splits
      intro: reports_only_trans [OF reports_only_tick report_only(2)])

lemma check_cookie_env:
  "check_cookie L C answer parts ch st = Inr (ok, st') \<Longrightarrow> clock st' = clock st \<and> locks st' = locks st \<and> challenger_ip_db st' = challenger_ip_db st"
  using check_cookie_passes reports_only_env by metis

subsection \<open>No way around the challenges\<close>

text \<open>What it takes to satisfy a challenge without being exempt by its own white list. \<open>clk\<close> is the
  clock.\<close>

definition satisfied :: "challenge_lib \<Rightarrow> challenger \<Rightarrow> transaction_parts \<Rightarrow> string \<Rightarrow> (nat \<Rightarrow> int \<times> int) \<Rightarrow> host_challenge_spec \<Rightarrow> bool" where
  "satisfied L C parts ip clk ch \<longleftrightarrow>
     (case challenge_type ch of
        CHALLENGE_AUTH \<Rightarrow> \<exists>url. parts URL_WITH_HOST = Some url \<and> \<not> needs_authentication L url ch
      | _ \<Rightarrow> is_globally_white_listed C ip \<or> (\<exists>n. cookie_passes L C [] parts ch (fst (clk n))))"

text \<open>The request that gets the page of a challenge: one for the captcha's own urls, or one whose
  cookie does not pass.\<close>

definition challenged :: "challenge_lib \<Rightarrow> challenger \<Rightarrow> transaction_parts \<Rightarrow> string \<Rightarrow> (nat \<Rightarrow> int \<times> int) \<Rightarrow> host_challenge_spec \<Rightarrow> bool" where
  "challenged L C parts ip clk ch \<longleftrightarrow>
     (challenge_type ch \<noteq> CHALLENGE_AUTH \<longrightarrow> \<not> is_globally_white_listed C ip) \<and>
     (challenge_type ch = CHALLENGE_CAPTCHA \<and> (\<exists>url. parts URL_WITH_HOST = Some url \<and> (is_captcha_url url \<or> is_captcha_answer url)) \<or>
      (\<exists>n. \<not> cookie_passes L C [] parts ch (fst (clk n))) \<and>
      (challenge_type ch = CHALLENGE_AUTH \<longrightarrow> (\<exists>url. parts URL_WITH_HOST = Some url \<and> needs_authentication L url ch)))"

definition decision_sound :: "challenge_lib \<Rightarrow> challenger \<Rightarrow> transaction_parts \<Rightarrow> string \<Rightarrow> (nat \<Rightarrow> int \<times> int) \<Rightarrow> host_challenge_spec list \<Rightarrow>
    challenge_response \<Rightarrow> bool" where
  "decision_sound L C parts ip clk chs resp \<longleftrightarrow>
     (case response_type resp of
        GO_AHEAD_NO_COMMENT \<Rightarrow> \<forall>ch\<in>set chs. satisfied L C parts ip clk ch
      | SERVE_IMMIDIATELY_DONT_CACHE \<Rightarrow> \<exists>ch\<in>set chs. \<exists>r\<in>set (white_listed_ips ch). is_match ip r
      | SERVE_FRESH \<Rightarrow> \<exists>ch\<in>set chs. challenge_type ch = CHALLENGE_AUTH \<and> (\<exists>n. cookie_passes L C [] parts ch (fst (clk n)))
      | I_RESPOND \<Rightarrow> \<exists>ch\<in>set chs. \<exists>d. response_data resp = Some d \<and> responding_challenge d = Some ch \<and> challenged L C parts ip clk ch)"

lemma decision_sound_mono:
  "decision_sound L C parts ip clk chs resp \<Longrightarrow> satisfied L C parts ip clk ch \<Longrightarrow> decision_sound L C parts ip clk (ch # chs) resp"
  by (auto simp: decision_sound_def split: ResponseType.splits)

lemma failure_response_challenged:
  "failure_response ch ck parts st = Inr (resp, st') \<Longrightarrow> challenged L C parts ip clk ch \<Longrightarrow> decision_sound L C parts ip clk (ch # chs) resp"
  by (auto simp: failure_response_def rbind_eq_Inr_iff decision_sound_def new_extended_response_def)

lemma part_at_Inr_iff [simp]: "part_at parts p = Inr s \<longleftrightarrow> parts p = Some s"
  by (auto simp: part_at_def split: option.splits)

lemma run_challenges_sound:
  "run_challenges L C parts host ip chs st = Inr (resp, st') \<Longrightarrow> decision_sound L C parts ip (clock st) chs resp"
proof (induction chs arbitrary: st)
  case Nil
  then show ?case by (auto simp: decision_sound_def)
next
  case (Cons ch chs)
  show ?case
  proof (cases "\<exists>r\<in>set (white_listed_ips ch). is_match ip r")
    case True
    with Cons.prems show ?thesis by (auto simp: decision_sound_def)
  next
    case nwl: False
    have check: "(ok \<longrightarrow> (\<exists>n. cookie_passes L C [] parts ch (fst (clock st n)))) \<and>
        (\<not> ok \<longrightarrow> (\<exists>n. \<not> cookie_passes L C [] parts ch (fst (clock st n)))) \<and> clock st1 = clock st"
      if "check_cookie L C [] parts ch st = Inr (ok, st1)" for ok st1
      using check_cookie_passes [OF that] check_cookie_env [OF that] by blast
    have next_challenge: ?thesis
      if "run_challenges L C parts host ip chs st2 = Inr (resp, st')" "clock st2 = clock st"
        "satisfied L C parts ip (clock st) ch" for st2
      using decision_sound_mono Cons.IH [OF that(1)] that(2,3) by simp
    have page: ?thesis
      if "failure_response ch ck parts st2 = Inr (resp, st')" "challenged L C parts ip (clock st) ch" for ck st2
      using failure_response_challenged [OF that] .
    show ?thesis
    proof (cases "challenge_type ch \<noteq> CHALLENGE_AUTH \<and> is_globally_white_listed C ip")
      case True
      then show ?thesis
        using Cons.prems nwl by (cases "challenge_type ch") (auto intro!: next_challenge simp: satisfied_def)
    next
      case ngw: False
      show ?thesis
      proof (cases "challenge_type ch = CHALLENGE_CAPTCHA \<and>
          (\<exists>url. parts URL_WITH_HOST = Some url \<and> (is_captcha_url url \<or> is_captcha_answer url))")
        case True
        with ngw Cons.prems nwl have "resp = custom_response ch" by (auto simp: rbind_eq_Inr_iff)
        with True ngw show ?thesis
          by (simp add: decision_sound_def custom_response_def new_extended_response_def challenged_def)
      next
        case ncu: False
        from Cons.prems nwl ngw ncu obtain ok st1 where chk: "check_cookie L C [] parts ch st = Inr (ok, st1)"
          by (cases "challenge_type ch") (auto simp: rbind_eq_Inr_iff split: if_splits)
        note env = check [OF chk]
        show ?thesis
        proof (cases ok)
          case True
          show ?thesis
          proof (cases "challenge_type ch = CHALLENGE_AUTH")
            case True
            with \<open>ok\<close> Cons.prems nwl chk have "resp = plain_response SERVE_FRESH" by auto
            with True \<open>ok\<close> env show ?thesis by (auto simp: decision_sound_def)
          next
            case False
            with \<open>ok\<close> Cons.prems nwl ngw ncu chk obtain st2 where
              "run_challenges L C parts host ip chs st2 = Inr (resp, st')" "clock st2 = clock st1"
              by (cases "challenge_type ch") (auto simp: rbind_eq_Inr_iff)
            moreover have "satisfied L C parts ip (clock st) ch"
              using \<open>ok\<close> env False by (cases "challenge_type ch") (auto simp: satisfied_def)
            ultimately show ?thesis using next_challenge [of st2] env by simp
          qed
        next
          case False
          then have "\<exists>n. \<not> cookie_passes L C [] parts ch (fst (clock st n))" "clock st1 = clock st" using env by auto
          note npass = this
          have "(\<exists>ck st2. failure_response ch ck parts st2 = Inr (resp, st') \<and> challenged L C parts ip (clock st) ch) \<or>
              (\<exists>st2. run_challenges L C parts host ip chs st2 = Inr (resp, st') \<and> clock st2 = clock st \<and>
                 satisfied L C parts ip (clock st) ch)"
          proof (cases "challenge_type ch")
            case CHALLENGE_AUTH
            with Cons.prems nwl chk False obtain url where url: "parts URL_WITH_HOST = Some url"
              by (auto simp: rbind_eq_Inr_iff Let_def)
            show ?thesis
            proof (cases "needs_authentication L url ch")
              case True
              with CHALLENGE_AUTH url npass have "challenged L C parts ip (clock st) ch" by (auto simp: challenged_def)
              moreover have "failure_response ch delete_cookie_header parts (report_if C host ip False st1) = Inr (resp, st')"
                using Cons.prems nwl chk False CHALLENGE_AUTH url True by (simp add: part_at_def Let_def)
              ultimately show ?thesis by blast
            next
              case noauth: False
              then have "satisfied L C parts ip (clock st) ch" using CHALLENGE_AUTH url by (simp add: satisfied_def)
              moreover have "run_challenges L C parts host ip chs (report_if C host ip False st1) = Inr (resp, st')"
                using Cons.prems nwl chk False CHALLENGE_AUTH url noauth by (simp add: part_at_def Let_def)
              ultimately show ?thesis using npass by fastforce
            qed
          next
            case CHALLENGE_SHA_INVERSE
            with ngw npass have "challenged L C parts ip (clock st) ch" by (simp add: challenged_def)
            moreover have "failure_response ch delete_cookie_header parts (report_if C host ip False st1) = Inr (resp, st')"
              using Cons.prems nwl ngw chk False CHALLENGE_SHA_INVERSE by simp
            ultimately show ?thesis by blast
          next
            case CHALLENGE_CAPTCHA
            with ngw npass have "challenged L C parts ip (clock st) ch" by (simp add: challenged_def)
            moreover have "failure_response ch [] parts (report_if C host ip False st1) = Inr (resp, st')"
              using Cons.prems nwl ngw ncu chk False CHALLENGE_CAPTCHA by (auto simp: rbind_eq_Inr_iff)
            ultimately show ?thesis by blast
          qed
          then show ?thesis using page next_challenge by blast
        qed
      qed
    qed
  qed
qed

lemma on_http_request_sound:
  assumes "Challenger_on_http_request L C parts st = Inr (resp, st')"
    and "parts HOST = Some host" and "parts IP = Some ip" and "host_challenges_static C host = Some chs"
  shows "decision_sound L C parts ip (clock st) chs resp"
  using assms
  by (auto simp: Challenger_on_http_request_def select_challenges_def part_at_def rbind_eq_Inr_iff
      intro: run_challenges_sound split: option.splits)

text \<open>C1: The challenges of a host cannot be got around. For a host with configured challenges,
  whatever the request contains: it goes on to the next filter only if it satisfies every challenge
  of the host (for a captcha or a proof of work, a \<open>deflect\<close> cookie that proves it and validates
  for the client's address now, or an address on the global white list; for a login, a url that
  needs none); it is served at once only for an address on a challenge's own white list; it is served
  fresh only with a cookie that passes a login challenge; and otherwise it gets the page of a
  challenge of the host that it does not pass.\<close>

theorem challenges_cannot_be_bypassed:
  assumes "Challenger_on_http_request L C parts st = Inr (resp, st')"
    and "parts HOST = Some host" and "parts IP = Some ip" and "host_challenges_static C host = Some chs"
  shows "decision_sound L C parts ip (clock st) chs resp"
  using assms by (rule on_http_request_sound)

definition sample_spec :: host_challenge_spec where
  "sample_spec =
     \<lparr>name = ''n'', challenge_type = CHALLENGE_CAPTCHA, challenge_stream = ''<$token>'', fail_tolerance_threshold = 3,
      challenge_validity_period = 60, password_hash = [], magic_words = [], magic_word_exceptions = [],
      white_listed_ips = [], time_added = 0\<rparr>"

definition sample_challenger :: challenger where
  "sample_challenger =
     \<lparr>ch_cfg = YNull, hashed_key = ''key'', number_of_trailing_zeros = 0, dynamic_expiry_seconds = Some 100,
      host_challenges_static = [''h'' \<mapsto> [sample_spec]], banjax_dir = [], ch_white_list = None, banjax = True\<rparr>"

definition sample_state :: challenger_state where
  "sample_state =
     \<lparr>tick = 0, locks = (\<lambda>_. True), clock = (\<lambda>_. (5, 0)), binds = (\<lambda>_. True),
      local_endpoint = ''tcp://*:22620'', socket = Some new_socket, swabber_server = ''*'', swabber_port = ''22620'',
      grace_period = 0, swabber_ip_db = [], ban_ip_list = [], zmq_sent = [],
      regex_manager_ip_db = [], challenger_ip_db = [], kafka_producer = True, host_name = ''edge'', kafka_sent = [],
      produce_ok = (\<lambda>_. True), host_to_challenge_dynamic = [], ip_to_challenge_dynamic = []\<rparr>"

definition sample_parts :: "string \<Rightarrow> transaction_parts" where
  "sample_parts jar = [HOST \<mapsto> ''h'', IP \<mapsto> ''1.2.3.4'', COOKIE \<mapsto> jar, URL_WITH_HOST \<mapsto> ''http://h/'', URL \<mapsto> ''/'', UA \<mapsto> ''ua'']"

lemma sample_parts_sel [simp]:
  "sample_parts jar HOST = Some ''h''" "sample_parts jar IP = Some ''1.2.3.4''" "sample_parts jar COOKIE = Some jar"
  "sample_parts jar URL_WITH_HOST = Some ''http://h/''" "sample_parts jar URL = Some ''/''" "sample_parts jar UA = Some ''ua''"
  by (simp_all add: sample_parts_def part_numbers)

definition sample_jar :: string where
  "sample_jar = ''deflect='' @ sample_cookie"

lemma parse_sample_jar: "parse_jar sample_jar = [\<lparr>cookie_name = ''deflect'', cookie_value = sample_cookie\<rparr>]"
  by code_simp

lemma sample_check:
  "check_cookie sample_lib sample_challenger [] (sample_parts sample_jar) sample_spec sample_state =
     Inr (True, snd (report_pass_or_failure2 ''h'' ''1.2.3.4'' True (sample_state\<lparr>tick := 1\<rparr>)))"
proof -
  have "take COOKIE_B64_LENGTH sample_cookie = sample_cookie" by (simp add: cookie_sizes sample_cookie_def)
  then show ?thesis
    using sample_cookie_valid
    by (simp add: check_cookie_def part_at_def parse_sample_jar challenge_prevailed_def sample_spec_def world_simps
        sample_lib_def sample_challenger_def sample_state_def)
qed

theorem challenges_cannot_be_bypassed_witness:
  "\<exists>resp st'. Challenger_on_http_request sample_lib sample_challenger (sample_parts sample_jar) sample_state =
     Inr (resp, st') \<and> response_type resp = GO_AHEAD_NO_COMMENT \<and>
     satisfied sample_lib sample_challenger (sample_parts sample_jar) ''1.2.3.4'' (clock sample_state) sample_spec"
proof -
  have "\<not> is_captcha_url ''http://h/''" "\<not> is_captcha_answer ''http://h/''"
    by (simp_all add: is_captcha_url_def is_captcha_answer_def starts_with_def)
  then obtain resp st' where r: "Challenger_on_http_request sample_lib sample_challenger
      (sample_parts sample_jar) sample_state = Inr (resp, st')"
    and go: "response_type resp = GO_AHEAD_NO_COMMENT"
    using sample_check
    by (simp add: Challenger_on_http_request_def part_at_def select_challenges_def)
       (simp add: sample_challenger_def sample_spec_def is_globally_white_listed_def part_at_def)
  have "decision_sound sample_lib sample_challenger (sample_parts sample_jar) ''1.2.3.4''
      (clock sample_state) [sample_spec] resp"
    by (rule challenges_cannot_be_bypassed [OF r, where host = "''h''"]) (simp_all add: sample_challenger_def)
  with r go show ?thesis by (auto simp: decision_sound_def)
qed

end
