(* ===== verification/CaptchaFlow.thy ===== *)
theory CaptchaFlow
  imports Challenger
begin

text \<open>
  The challenges from the client's side: a captcha from its image to the page it protects, what a
  wrong answer can achieve, and what the token on a challenge page is good for.
\<close>

section \<open>Cookies on their way through the browser\<close>

lemma cstr_append: "NUL \<notin> set s \<Longrightarrow> cstr (s @ t) = s @ cstr t"
  by (auto simp: cstr_def takeWhile_append)

lemma issued_cookie_token:
  assumes "\<forall>k m. length (hmac k m) = HASH_LENGTH" and "GenerateCookie hmac answer secret t ip = Inr c"
  shows "well_formed_cookie \<lparr>cookie_name = ''deflect'', cookie_value = c\<rparr>"
proof -
  from assms(2) obtain h co where co: "Encode (take HASH_LENGTH h @ time_bytes t) = Inr co" "c = cstr co"
    by (auto simp: GenerateCookie_def rbind_eq_Inr_iff)
  have c: "c = co" using co by (simp add: b64.enc_cstr)
  have ne: "take HASH_LENGTH h @ time_bytes t \<noteq> []" by (metis append_is_Nil_conv length_0_conv length_time_bytes zero_neq_numeral)
  have alpha: "set c \<subseteq> set b64_table \<union> {CHR ''=''}" using Encode_length_and_alphabet(2) [OF co(1)] c by simp
  have hd: "c \<noteq> []" "hd c \<in> set b64_table" using Encode_hd [OF co(1) ne] c by auto
  have bad: "CHR '';'' \<notin> set b64_table" "CHR ''='' \<notin> set b64_table" "CHR 0x0D \<notin> set b64_table"
    by (simp_all add: b64_table_def)
  have space: "\<not> isspace x" if "x \<in> set b64_table \<union> {CHR ''=''}" for x
  proof -
    have "list_all (\<lambda>x. \<not> isspace x) (b64_table @ ''='')" by code_simp
    with that show ?thesis by (auto simp: list_all_iff)
  qed
  have "\<not> occurs CRLF c" using alpha bad by (auto simp: occurs_def)
  moreover have "NUL \<notin> set c" using co(2) by simp
  moreover have "CHR '';'' \<notin> set c" using alpha bad by auto
  moreover have "hd c \<in> set c" "last c \<in> set c" using hd(1) by simp_all
  ultimately have "value_token c" using alpha space unfolding value_token_def by blast
  moreover have "hd c \<noteq> CHR ''=''" using hd(2) bad by metis
  ultimately show ?thesis by (simp add: well_formed_cookie_def name_char_def isspace_def)
qed

definition deflect_jar :: "string \<Rightarrow> string" where
  "deflect_jar c = ''deflect='' @ c"

lemma parse_deflect_jar:
  assumes "\<forall>k m. length (hmac k m) = HASH_LENGTH" and "GenerateCookie hmac answer secret t ip = Inr c"
  shows "parse_jar (deflect_jar c) = [\<lparr>cookie_name = ''deflect'', cookie_value = c\<rparr>]"
  using parse_jar_render [of "[\<lparr>cookie_name = ''deflect'', cookie_value = c\<rparr>]"] issued_cookie_token [OF assms]
  by (simp add: deflect_jar_def render_cookie_def)

text \<open>A request of the client \<open>ip\<close>.\<close>

definition request :: "string \<Rightarrow> string \<Rightarrow> string \<Rightarrow> string \<Rightarrow> transaction_parts" where
  "request ip host url jar = [IP \<mapsto> ip, HOST \<mapsto> host, URL_WITH_HOST \<mapsto> url, COOKIE \<mapsto> jar]"

lemma request_sel [simp]:
  "request ip host url jar IP = Some ip" "request ip host url jar HOST = Some host"
  "request ip host url jar URL_WITH_HOST = Some url" "request ip host url jar COOKIE = Some jar"
  by (simp_all add: request_def part_numbers)

text \<open>A cookie issued for an answer passes the check with that answer until it expires.\<close>

lemma issued_cookie_passes:
  assumes "\<forall>k m. length (hmac_sha1 L k m) = HASH_LENGTH" and "time_range t"
    and "GenerateCookie (hmac_sha1 L) answer (hashed_key C) t ip = Inr c"
    and "challenge_prevailed L C ch c = Inr True" and "banjax C" and "fst (clock st (tick st)) \<le> t"
  shows "check_cookie L C answer (request ip host url (deflect_jar c)) ch st =
    Inr (True, snd (report_pass_or_failure2 host ip True (st\<lparr>tick := Suc (tick st)\<rparr>)))"
proof -
  have fits: "fits_ibuf answer ip"
    using assms(3) by (auto simp: GenerateCookie_def GenerateCookieHash_eq split: if_splits)
  obtain c' where "GenerateCookie (hmac_sha1 L) answer (hashed_key C) t ip = Inr c'" "length c' = COOKIE_B64_LENGTH" "cstr c' = c'"
    "Decode c' = Inr (hmac_sha1 L (hashed_key C) (hash_message answer t ip) @ time_bytes t)"
    using GenerateCookie_image [OF assms(1) fits] .
  with assms(1-3,6) fits have len: "length c = COOKIE_B64_LENGTH"
    and val: "ValidateCookie (hmac_sha1 L) answer (hashed_key C) (fst (clock st (tick st))) ip c = Inr 1"
    by (simp_all add: ValidateCookie_image)
  from assms(4,5) parse_deflect_jar [OF assms(1,3)] len val show ?thesis
    by (simp add: check_cookie_def part_at_def world_simps)
qed

section \<open>Solving a captcha\<close>

lemma generate_captcha_page:
  assumes "\<forall>k m. length (hmac_sha1 L k m) = HASH_LENGTH" and "is_captcha_url url"
    and "captcha_image (urandom L (Suc (tick st))) (replicate 6 0) = Inr (im, txt)" and "makegif im (replicate gifsize 0) = Inr g"
    and "fits_ibuf txt ip"
  defines "t \<equiv> fst (clock st (Suc (tick st))) + 120"
  shows "\<exists>c r st'. GenerateCookie (hmac_sha1 L) txt (hashed_key C) t ip = Inr c \<and>
    Challenger_generate_response L C (request ip host url jar) (new_extended_response gen (Some ch)) st = Inr (bytes_to_string g, r, st') \<and>
    set_cookie_header r = cookie_header c \<and> response_code r = 200 \<and> content_type r = Some ''image/gif''"
proof -
  obtain c where "GenerateCookie (hmac_sha1 L) txt (hashed_key C) t ip = Inr c"
    using GenerateCookie_image [OF assms(1,5)] .
  with assms(2-4) show ?thesis
    by (simp add: Challenger_generate_response_def new_extended_response_def part_at_def world_simps generate_html_def
        t_def set_content_type_def Let_def cstr_id)
qed

lemma srfind_answer:
  assumes "\<not> occurs ''__validate/'' txt" and "CHR ''_'' \<notin> set txt"
  shows "srfind ''__validate/'' (base @ ''__validate/'' @ txt) = Some (length base)"
proof -
  have "srfind ''__validate/'' (''__validate/'' @ txt) = Some 0"
  proof -
    have "srfind ''__validate/'' txt = None" using assms(1) by (simp add: srfind_None_iff)
    then show ?thesis by (simp add: starts_with_def)
  qed
  then show ?thesis by (induction base) (auto split: option.splits)
qed

text \<open>The right answer, in time, gets a solved-challenge cookie.\<close>

lemma right_answer_page:
  assumes "\<forall>k m. length (hmac_sha1 L k m) = HASH_LENGTH" and "challenge_type ch = CHALLENGE_CAPTCHA" and "banjax C"
    and "\<not> is_captcha_url (base @ ''__validate/'' @ txt)" and "CHR ''_'' \<notin> set txt"
    and "GenerateCookie (hmac_sha1 L) txt (hashed_key C) t1 ip = Inr c1" and "time_range t1"
    and "fst (clock st (Suc (tick st))) \<le> t1" and "fits_ibuf [] ip"
  defines "t2 \<equiv> fst (clock st (tick st)) + challenge_validity_period ch"
  shows "\<exists>c2 r st'. GenerateCookie (hmac_sha1 L) [] (hashed_key C) t2 ip = Inr c2 \<and>
    Challenger_generate_response L C (request ip host (base @ ''__validate/'' @ txt) (deflect_jar c1))
      (new_extended_response gen (Some ch)) st = Inr (''OK'', r, st') \<and>
    set_cookie_header r = cookie_header c2 \<and> response_code r = 200"
proof -
  let ?url = "base @ ''__validate/'' @ txt"
  have no: "\<not> occurs ''__validate/'' txt" using assms(5) by (auto simp: occurs_def)
  have find: "srfind ''__validate/'' ?url = Some (length base)" by (rule srfind_answer [OF no assms(5)])
  then have ans: "is_captcha_answer ?url" by (simp add: is_captcha_answer_def)
  have dr: "drop (length base + 11) ?url = txt" by simp
  obtain c2 where c2: "GenerateCookie (hmac_sha1 L) [] (hashed_key C) t2 ip = Inr c2"
    using GenerateCookie_image [OF assms(1,9)] .
  have prev: "challenge_prevailed L C ch c1 = Inr True" using assms(2) by (simp add: challenge_prevailed_def)
  have check: "\<exists>st'. check_cookie L C txt (request ip host ?url (deflect_jar c1)) ch (st\<lparr>tick := Suc (tick st)\<rparr>) = Inr (True, st')"
    using issued_cookie_passes [OF assms(1,7,6) prev assms(3), of "st\<lparr>tick := Suc (tick st)\<rparr>" host ?url] assms(8) by simp
  have gen: "Challenger_generate_response L C (request ip host ?url (deflect_jar c1)) (new_extended_response gen (Some ch)) st =
      generate_html L C ip t2 ?url (request ip host ?url (deflect_jar c1)) ch (new_extended_response gen (Some ch)) (st\<lparr>tick := Suc (tick st)\<rparr>)"
    by (simp add: Challenger_generate_response_def new_extended_response_def part_at_def world_simps t2_def)
  show ?thesis
    unfolding gen using c2 check find ans dr assms(4)
    by (auto simp: generate_html_def part_at_def set_content_type_def new_extended_response_def Let_def
        simp del: append_Cons append_assoc)
qed

lemma solved_cookie_goes_on:
  assumes "\<forall>k m. length (hmac_sha1 L k m) = HASH_LENGTH" and "challenge_type ch = CHALLENGE_CAPTCHA" and "banjax C"
    and "white_listed_ips ch = []"
    and "\<not> is_captcha_url url" and "\<not> is_captcha_answer url"
    and "GenerateCookie (hmac_sha1 L) [] (hashed_key C) t ip = Inr c" and "time_range t" and "fst (clock st (tick st)) \<le> t"
  shows "\<exists>st'. run_challenges L C (request ip host url (deflect_jar c)) host ip [ch] st =
    Inr (plain_response GO_AHEAD_NO_COMMENT, st')"
proof -
  have "challenge_prevailed L C ch c = Inr True" using assms(2) by (simp add: challenge_prevailed_def)
  from issued_cookie_passes [OF assms(1,8,7) this assms(3,9)] assms(2-6) show ?thesis
    by (simp add: part_at_def)
qed

text \<open>C4: A captcha can be solved. A client that asks for the captcha image gets a GIF that shows it and a cookie, if the
  random word fits;
  if it sends the text of the image back with that cookie within 120 seconds, from the same address,
  it is told OK and given a second cookie; and with that one its requests for ordinary urls of the host
  go on to the next filter until the challenge's validity period is over. The three requests may
  find the server in any state, with any time in between that keeps these limits.\<close>

theorem captcha_can_be_solved:
  assumes "\<forall>k m. length (hmac_sha1 L k m) = HASH_LENGTH" and "challenge_type ch = CHALLENGE_CAPTCHA" and "banjax C"
    and "white_listed_ips ch = []" and "random_ok (urandom L (Suc (tick st1)))"
    and "word_width (random_word (urandom L (Suc (tick st1)))) < 170"
    and "txt = captcha_text (urandom L (Suc (tick st1)))" and "fits_ibuf txt ip"
    and "is_captcha_url image_url" and "\<not> is_captcha_url (base @ ''__validate/'' @ txt)"
    and "\<not> is_captcha_url url" and "\<not> is_captcha_answer url"
    and "time_range (fst (clock st1 (Suc (tick st1))) + 120)"
    and "time_range (fst (clock st2 (tick st2)) + challenge_validity_period ch)"
  shows "\<exists>im g c1 r1 st1'.
    captcha_image (urandom L (Suc (tick st1))) (replicate 6 0) = Inr (im, txt) \<and> shows_image g im \<and>
    Challenger_generate_response L C (request ip host image_url jar) (new_extended_response gen (Some ch)) st1 =
      Inr (bytes_to_string g, r1, st1') \<and>
    set_cookie_header r1 = cookie_header c1 \<and>
    (fst (clock st2 (Suc (tick st2))) \<le> fst (clock st1 (Suc (tick st1))) + 120 \<longrightarrow>
      (\<exists>c2 r2 st2'.
        Challenger_generate_response L C (request ip host (base @ ''__validate/'' @ txt) (deflect_jar c1))
          (new_extended_response gen (Some ch)) st2 = Inr (''OK'', r2, st2') \<and>
        set_cookie_header r2 = cookie_header c2 \<and>
        (fst (clock st3 (tick st3)) \<le> fst (clock st2 (tick st2)) + challenge_validity_period ch \<longrightarrow>
          (\<exists>st3'. run_challenges L C (request ip host url (deflect_jar c2)) host ip [ch] st3 =
             Inr (plain_response GO_AHEAD_NO_COMMENT, st3')))))"
proof -
  have fits: "fits_ibuf [] ip" using assms(8) by (auto simp: fits_ibuf_def cstr_def)
  have "CHR ''_'' \<notin> set ''abcdefghijklmnopqrstuvwxyz''" by simp
  then have plain: "CHR ''_'' \<notin> set txt" using assms(7) captcha_text_letters by blast
  obtain im g where img: "captcha_image (urandom L (Suc (tick st1))) (replicate 6 0) = Inr (im, txt)"
      "makegif im (replicate gifsize 0) = Inr g" "shows_image g im"
    using captcha_served [OF assms(5,6), of "replicate gifsize 0"] assms(7) by auto
  obtain c1 r1 st1' where one:
    "GenerateCookie (hmac_sha1 L) txt (hashed_key C) (fst (clock st1 (Suc (tick st1))) + 120) ip = Inr c1"
    "Challenger_generate_response L C (request ip host image_url jar) (new_extended_response gen (Some ch)) st1 =
      Inr (bytes_to_string g, r1, st1')"
    "set_cookie_header r1 = cookie_header c1"
    using generate_captcha_page [OF assms(1,9) img(1,2) assms(8), of C host jar gen ch] by blast
  moreover have "\<exists>c2 r2 st2'.
        Challenger_generate_response L C (request ip host (base @ ''__validate/'' @ txt) (deflect_jar c1))
          (new_extended_response gen (Some ch)) st2 = Inr (''OK'', r2, st2') \<and>
        set_cookie_header r2 = cookie_header c2 \<and>
        (fst (clock st3 (tick st3)) \<le> fst (clock st2 (tick st2)) + challenge_validity_period ch \<longrightarrow>
          (\<exists>st3'. run_challenges L C (request ip host url (deflect_jar c2)) host ip [ch] st3 =
             Inr (plain_response GO_AHEAD_NO_COMMENT, st3')))"
    if "fst (clock st2 (Suc (tick st2))) \<le> fst (clock st1 (Suc (tick st1))) + 120"
  proof -
    from right_answer_page [OF assms(1-3,10) plain one(1) assms(13) that fits, of host gen]
    obtain c2 r2 st2' where two:
      "GenerateCookie (hmac_sha1 L) [] (hashed_key C) (fst (clock st2 (tick st2)) + challenge_validity_period ch) ip = Inr c2"
      "Challenger_generate_response L C (request ip host (base @ ''__validate/'' @ txt) (deflect_jar c1))
          (new_extended_response gen (Some ch)) st2 = Inr (''OK'', r2, st2')"
      "set_cookie_header r2 = cookie_header c2"
      by blast
    with solved_cookie_goes_on [OF assms(1-4,11,12) two(1) assms(14), of st3 host] show ?thesis by blast
  qed
  ultimately show ?thesis using img(1,3) by blast
qed

text \<open>The host of the sample configuration, a captcha with the text \<open>aaaaa\<close>, all three requests at
  time 5.\<close>

theorem captcha_can_be_solved_witness:
  "\<exists>im g c1 r1 st1' c2 r2 st2' st3'. shows_image g im \<and>
    Challenger_generate_response sample_lib sample_challenger
      (request ''1.2.3.4'' ''h'' ''http://h/__captcha'' []) (new_extended_response None (Some sample_spec)) sample_state =
      Inr (bytes_to_string g, r1, st1') \<and> set_cookie_header r1 = cookie_header c1 \<and>
    Challenger_generate_response sample_lib sample_challenger
      (request ''1.2.3.4'' ''h'' (''http://h/'' @ ''__validate/'' @ ''aaaaa'') (deflect_jar c1))
      (new_extended_response None (Some sample_spec)) sample_state = Inr (''OK'', r2, st2') \<and>
    set_cookie_header r2 = cookie_header c2 \<and>
    run_challenges sample_lib sample_challenger
      (request ''1.2.3.4'' ''h'' ''http://h/'' (deflect_jar c2)) ''h'' ''1.2.3.4'' [sample_spec] sample_state =
      Inr (plain_response GO_AHEAD_NO_COMMENT, st3')"
proof -
  have "\<forall>k m. length (hmac_sha1 sample_lib k m) = HASH_LENGTH" using sample_hmac_length by (simp add: sample_lib_def)
  moreover have "challenge_type sample_spec = CHALLENGE_CAPTCHA" "white_listed_ips sample_spec = []"
    "challenge_validity_period sample_spec = 60" by (simp_all add: sample_spec_def)
  moreover have "banjax sample_challenger" by (simp add: sample_challenger_def)
  moreover have "urandom sample_lib n = sample_random 0" for n by (simp add: sample_lib_def)
  moreover have "random_ok (sample_random 0)" by (rule sample_random_ok)
  moreover have "word_width (random_word (sample_random 0)) < 170" "captcha_text (sample_random 0) = ''aaaaa''"
    using sample_widths(1) by (simp_all add: sample_word captcha_text_def letters_def numeral_eq_Suc)
  moreover have "fits_ibuf ''aaaaa'' ''1.2.3.4''" by (simp add: fits_ibuf_def cstr_def cookie_sizes)
  moreover have "is_captcha_url ''http://h/__captcha''" "\<not> is_captcha_url (''http://h/'' @ ''__validate/'' @ ''aaaaa'')"
    "\<not> is_captcha_url ''http://h/''" "\<not> is_captcha_answer ''http://h/''"
    by (simp_all add: is_captcha_url_def is_captcha_answer_def starts_with_def)
  moreover have "clock sample_state n = (5, 0)" for n by (simp add: sample_state_def)
  moreover have "time_range (5 + 120)" "time_range (5 + 60)" by (simp_all add: time_range_def)
  ultimately show ?thesis
    using captcha_can_be_solved [of sample_lib sample_spec sample_challenger sample_state "''aaaaa''" "''1.2.3.4''"
        "''http://h/__captcha''" "''http://h/''" "''http://h/''" sample_state "''h''" "[]" None sample_state]
    by (simp del: run_challenges.simps) blast
qed

section \<open>Passing a captcha without solving one\<close>

lemma generate_challenge_page:
  assumes "\<forall>k m. length (hmac_sha1 L k m) = HASH_LENGTH" and "\<not> is_captcha_url url" and "\<not> is_captcha_answer url"
    and "fits_ibuf [] ip"
    and "t = fst (clock st (tick st)) + challenge_validity_period ch" and "format_validity_time_for_cookie t = Inr t_str"
  shows "\<exists>c r st'. GenerateCookie (hmac_sha1 L) [] (hashed_key C) t ip = Inr c \<and>
    Challenger_generate_response L C (request ip host url jar) (new_extended_response gen (Some ch)) st =
      Inr (replace_first (replace_first (replace_first (replace_first (challenge_stream ch) SUB_TIME t_str) SUB_TOKEN c) SUB_URL url)
             SUB_ZEROS (decimal_nat (number_of_trailing_zeros C)), r, st')"
proof -
  obtain c where "GenerateCookie (hmac_sha1 L) [] (hashed_key C) t ip = Inr c"
    using GenerateCookie_image [OF assms(1,4)] .
  with assms(2,3,5,6) show ?thesis
    by (simp add: Challenger_generate_response_def new_extended_response_def part_at_def world_simps generate_html_def Let_def)
qed

text \<open>C9: The token on a challenge page passes for a solved captcha. The page of any challenge is made with a token
  that needs no solution, and this token is what the cookie of a solved captcha would be: sent back as the
  \<open>deflect\<close> cookie it satisfies every captcha challenge of the same challenger, for whatever host, until the
  validity period of the first challenge is over. (The page of the proof of work shows the token; a client who
  can get that page for one host need not solve the captcha of another.)\<close>

theorem page_token_passes_for_captcha:
  assumes "\<forall>k m. length (hmac_sha1 L k m) = HASH_LENGTH" and "\<not> is_captcha_url url1" and "\<not> is_captcha_answer url1"
    and "fits_ibuf [] ip" and "time_range (fst (clock st1 (tick st1)) + challenge_validity_period ch1)"
    and "format_validity_time_for_cookie (fst (clock st1 (tick st1)) + challenge_validity_period ch1) = Inr t_str"
    and "challenge_type ch2 = CHALLENGE_CAPTCHA" and "banjax C" and "white_listed_ips ch2 = []"
    and "\<not> is_captcha_url url2" and "\<not> is_captcha_answer url2"
    and "fst (clock st2 (tick st2)) \<le> fst (clock st1 (tick st1)) + challenge_validity_period ch1"
  shows "\<exists>token r st1' st2'.
    Challenger_generate_response L C (request ip host1 url1 jar) (new_extended_response gen (Some ch1)) st1 =
      Inr (replace_first (replace_first (replace_first (replace_first (challenge_stream ch1) SUB_TIME t_str) SUB_TOKEN token)
             SUB_URL url1) SUB_ZEROS (decimal_nat (number_of_trailing_zeros C)), r, st1') \<and>
    run_challenges L C (request ip host2 url2 (deflect_jar token)) host2 ip [ch2] st2 =
      Inr (plain_response GO_AHEAD_NO_COMMENT, st2')"
proof -
  obtain token r st1' where token:
    "GenerateCookie (hmac_sha1 L) [] (hashed_key C) (fst (clock st1 (tick st1)) + challenge_validity_period ch1) ip = Inr token"
    "Challenger_generate_response L C (request ip host1 url1 jar) (new_extended_response gen (Some ch1)) st1 =
      Inr (replace_first (replace_first (replace_first (replace_first (challenge_stream ch1) SUB_TIME t_str) SUB_TOKEN token)
             SUB_URL url1) SUB_ZEROS (decimal_nat (number_of_trailing_zeros C)), r, st1')"
    using generate_challenge_page [OF assms(1-4) refl assms(6), of C host1 jar gen] by blast
  from solved_cookie_goes_on [OF assms(1,7-11) token(1) assms(5,12), of host2] token(2) show ?thesis by blast
qed

text \<open>A proof of work on one host whose page is nothing but the token, and the captcha of the sample
  configuration on another.\<close>

theorem page_token_passes_for_captcha_witness:
  "\<exists>token r st1' st2'.
    Challenger_generate_response sample_lib sample_challenger (request ''1.2.3.4'' ''a'' ''http://a/'' [])
      (new_extended_response None (Some (sample_spec\<lparr>challenge_type := CHALLENGE_SHA_INVERSE, challenge_stream := ''$token''\<rparr>))) sample_state =
      Inr (replace_first (replace_first token SUB_URL ''http://a/'')
             SUB_ZEROS (decimal_nat (number_of_trailing_zeros sample_challenger)), r, st1') \<and>
    run_challenges sample_lib sample_challenger (request ''1.2.3.4'' ''h'' ''http://h/'' (deflect_jar token)) ''h'' ''1.2.3.4''
      [sample_spec] sample_state = Inr (plain_response GO_AHEAD_NO_COMMENT, st2')"
proof -
  let ?ch = "sample_spec\<lparr>challenge_type := CHALLENGE_SHA_INVERSE, challenge_stream := ''$token''\<rparr>"
  have page: "replace_first (replace_first ''$token'' SUB_TIME ts) SUB_TOKEN tok = tok" for ts tok
    by (simp add: replace_first_def SUB_TIME_def SUB_TOKEN_def starts_with_def)
  have "\<forall>k m. length (hmac_sha1 sample_lib k m) = HASH_LENGTH" using sample_hmac_length by (simp add: sample_lib_def)
  moreover have "challenge_type sample_spec = CHALLENGE_CAPTCHA" "white_listed_ips sample_spec = []"
    "challenge_validity_period sample_spec = 60" by (simp_all add: sample_spec_def)
  moreover have "banjax sample_challenger" by (simp add: sample_challenger_def)
  moreover have "fits_ibuf [] ''1.2.3.4''" by (simp add: fits_ibuf_def cstr_def cookie_sizes)
  moreover have "\<not> is_captcha_url ''http://a/''" "\<not> is_captcha_answer ''http://a/''"
    "\<not> is_captcha_url ''http://h/''" "\<not> is_captcha_answer ''http://h/''"
    by (simp_all add: is_captcha_url_def is_captcha_answer_def starts_with_def)
  moreover have "clock sample_state n = (5, 0)" for n by (simp add: sample_state_def)
  moreover have "time_range (5 + 60)" by (simp add: time_range_def)
  moreover have "format_validity_time_for_cookie (5 + 60) = Inr ''Thu, 01 Jan 1970 00:01:05 GMT''" by code_simp
  ultimately show ?thesis
    using page_token_passes_for_captcha [of sample_lib "''http://a/''" "''1.2.3.4''" sample_state ?ch "''Thu, 01 Jan 1970 00:01:05 GMT''" sample_spec sample_challenger
        "''http://h/''" sample_state "''a''" "[]" None "''h''"]
    by (simp add: page del: run_challenges.simps)
qed

end
