(* ===== verification/FailureCounting.thy ===== *)
theory FailureCounting
  imports Challenger
begin

text \<open>
  The challenger's count of failed challenges per address: how many failures lead to a ban, and
  what a solved challenge does to the count.
\<close>

lemma drop_count_db:
  assumes "db_inv (challenger_ip_db st)"
  shows "db_inv (challenger_ip_db (drop_count ip st)) \<and>
    db_view 0 (challenger_ip_db (drop_count ip st)) =
      (if locks st (tick st) then (db_view 0 (challenger_ip_db st))(ip := 0) else db_view 0 (challenger_ip_db st))"
proof -
  obtain e db st1 where d: "drop_ip ip (challenger_ip_db st) st = (e, db, st1)" by (metis prod_cases3)
  from ipdb.del_law [OF assms d, of 0] d show ?thesis by (simp add: drop_count_def world_simps)
qed

lemma set_count_db:
  assumes "db_inv (challenger_ip_db st)"
  shows "db_inv (challenger_ip_db (set_count ip n st)) \<and>
    db_view 0 (challenger_ip_db (set_count ip n st)) =
      (if locks st (tick st) then (db_view 0 (challenger_ip_db st))(ip := n) else db_view 0 (challenger_ip_db st))"
proof -
  obtain e db st1 where d: "set_ip_state ip n (challenger_ip_db st) st = (e, db, st1)" by (metis prod_cases3)
  from ipdb.put_law [OF assms d, of 0] d show ?thesis by (simp add: set_count_def world_simps)
qed

text \<open>One failure, when every lock is free: below the threshold only the count changes; at it the address is banned and the
  count forgotten.\<close>

lemma report_failure_effect:
  assumes "parts IP = Some ip" and "parts HOST = Some host" and "\<forall>n. locks st n" and "db_inv (challenger_ip_db st)"
  defines "n \<equiv> db_view 0 (challenger_ip_db st) ip + 1"
  shows "report_failure ch parts st =
    (if n \<ge> ucast (fail_tolerance_threshold ch)
     then Inr (True, drop_count ip (ban (cstr ip) (challenge_banning_reason ch host n parts) (st\<lparr>tick := Suc (tick st)\<rparr>)))
     else Inr (False, set_count ip n (st\<lparr>tick := Suc (tick st)\<rparr>)))"
proof -
  have "get_ip_state 0 ip (challenger_ip_db st) st = (Some (db_view 0 (challenger_ip_db st) ip), st\<lparr>tick := Suc (tick st)\<rparr>)"
    using ipdb.get_law [OF assms(4), of 0 ip st] assms(3) by (simp add: world_simps after_lock_def)
  then show ?thesis using assms(1,2) by (simp add: report_failure_def part_at_def n_def Let_def)
qed

text \<open>Counting changes nothing but the table of counts (and takes locks).\<close>

lemma set_count_only: "\<exists>t db. set_count ip n st = st\<lparr>tick := t, challenger_ip_db := db\<rparr>"
proof -
  have "set_count ip n st = st\<lparr>tick := tick (set_count ip n st), challenger_ip_db := challenger_ip_db (set_count ip n st)\<rparr>"
    by (simp add: set_count_def set_ip_state_def world_simps Let_def)
  then show ?thesis by blast
qed

text \<open>Failures of one address one after the other, with the answers.\<close>

fun failures :: "nat \<Rightarrow> host_challenge_spec \<Rightarrow> transaction_parts \<Rightarrow> 's challenger_state_scheme \<Rightarrow>
    (bool list \<times> 's challenger_state_scheme) result" where
  "failures 0 ch parts st = Inr ([], st)"
| "failures (Suc k) ch parts st =
     rbind (report_failure ch parts st) (\<lambda>(b, st1).
     rbind (failures k ch parts st1) (\<lambda>(bs, st2). Inr (b # bs, st2)))"

lemma threshold_reached:
  fixes T :: "32 word"
  assumes "c < unat T"
  shows "(of_nat c + 1 :: 64 word) \<ge> ucast T \<longleftrightarrow> Suc c = unat T"
proof -
  have "unat T < 2 ^ 32" using unsigned_less [where 'a = nat, of T] by simp
  then have "unat (ucast T :: 64 word) = unat T"
    unfolding unsigned_ucast_eq by (intro take_bit_nat_eq_self) simp
  moreover have "unat (of_nat c + 1 :: 64 word) = Suc c"
  proof -
    have "of_nat c + 1 = (of_nat (Suc c) :: 64 word)" by (simp add: add.commute)
    moreover have "Suc c < 2 ^ LENGTH(64)" using assms \<open>unat T < 2 ^ 32\<close> by simp
    ultimately show ?thesis by (metis unat_of_nat mod_less)
  qed
  ultimately have "unat (of_nat c + 1 :: 64 word) = Suc c" "unat (ucast T :: 64 word) = unat T" by auto
  with assms show ?thesis by (auto simp: word_le_nat_alt)
qed

text \<open>The failures before the threshold only count.\<close>

lemma failures_below:
  assumes "parts IP = Some ip" and "parts HOST = Some host"
    and "\<forall>n. locks st n" and "db_inv (challenger_ip_db st)"
    and "db_view 0 (challenger_ip_db st) ip = of_nat c" and "c + k < unat (fail_tolerance_threshold ch)"
  shows "\<exists>t db. failures k ch parts st = Inr (replicate k False, st\<lparr>tick := t, challenger_ip_db := db\<rparr>) \<and> db_inv db \<and>
    db_view 0 db = (db_view 0 (challenger_ip_db st))(ip := of_nat (c + k))"
  using assms(3-6)
proof (induction k arbitrary: st c)
  case 0
  have "st = st\<lparr>tick := tick st, challenger_ip_db := challenger_ip_db st\<rparr>" by simp
  with 0 show ?case by (intro exI [of _ "tick st"] exI [of _ "challenger_ip_db st"]) auto
next
  case (Suc k)
  let ?T = "fail_tolerance_threshold ch" and ?st0 = "st\<lparr>tick := Suc (tick st)\<rparr>"
  have "\<not> (of_nat c + 1 :: 64 word) \<ge> ucast ?T" using threshold_reached [of c ?T] Suc.prems(4) by auto
  then have f: "report_failure ch parts st = Inr (False, set_count ip (of_nat c + 1) ?st0)"
    using report_failure_effect [OF assms(1,2) Suc.prems(1,2), of ch] unfolding Suc.prems(3) by simp
  obtain t1 db1 where st1: "set_count ip (of_nat c + 1) ?st0 = st\<lparr>tick := t1, challenger_ip_db := db1\<rparr>"
    using set_count_only [of ip "of_nat c + 1" ?st0] by auto
  have db1: "db_inv db1" "db_view 0 db1 = (db_view 0 (challenger_ip_db st))(ip := of_nat (Suc c))"
    using set_count_db [of ?st0 ip "of_nat c + 1"] Suc.prems(1,2) unfolding st1 by (simp_all add: add.commute)
  let ?st1 = "st\<lparr>tick := t1, challenger_ip_db := db1\<rparr>"
  have "\<exists>t db. failures k ch parts ?st1 = Inr (replicate k False, ?st1\<lparr>tick := t, challenger_ip_db := db\<rparr>) \<and> db_inv db \<and>
      db_view 0 db = (db_view 0 (challenger_ip_db ?st1))(ip := of_nat (Suc c + k))"
    by (rule Suc.IH) (use Suc.prems db1 in simp_all)
  then obtain t db where "failures k ch parts ?st1 = Inr (replicate k False, st\<lparr>tick := t, challenger_ip_db := db\<rparr>)" "db_inv db"
    "db_view 0 db = (db_view 0 (challenger_ip_db st))(ip := of_nat (c + Suc k))"
    using db1(2) by (auto simp del: of_nat_Suc of_nat_add)
  moreover from this(1) have "failures (Suc k) ch parts st = Inr (replicate (Suc k) False, st\<lparr>tick := t, challenger_ip_db := db\<rparr>)"
    by (simp add: f st1)
  ultimately show ?case by blast
qed

text \<open>C13: The failure threshold is exact. When the locks of the tables are free, an address with \<open>c\<close> counted
  failures, fewer than the challenge's \<open>no_of_fails_to_ban\<close>, is banned at the failure that brings the count to this number and
  not before: the failures before it are answered with the challenge again and change nothing but the count of this address,
  in particular nothing of the ban interface; that one asks the ban interface to ban the address, and the count is forgotten.
  (The comments in challenger.h speak of a number of failures greater than the threshold.)\<close>

theorem failure_threshold_is_exact:
  assumes "parts IP = Some ip" and "parts HOST = Some host"
    and "\<forall>n. locks st n" and "db_inv (challenger_ip_db st)"
    and "db_view 0 (challenger_ip_db st) ip = of_nat c" and "c < unat (fail_tolerance_threshold ch)"
  shows "\<exists>t db st'. failures (unat (fail_tolerance_threshold ch) - c - 1) ch parts st =
      Inr (replicate (unat (fail_tolerance_threshold ch) - c - 1) False, st\<lparr>tick := t, challenger_ip_db := db\<rparr>) \<and>
    db_view 0 db = (db_view 0 (challenger_ip_db st))(ip := of_nat (unat (fail_tolerance_threshold ch) - 1)) \<and>
    report_failure ch parts (st\<lparr>tick := t, challenger_ip_db := db\<rparr>) = Inr (True, st') \<and>
    st' = drop_count ip (ban (cstr ip) (challenge_banning_reason ch host (of_nat (unat (fail_tolerance_threshold ch))) parts)
      (st\<lparr>tick := Suc t, challenger_ip_db := db\<rparr>)) \<and>
    db_view 0 (challenger_ip_db st') = (db_view 0 (challenger_ip_db st))(ip := 0)"
proof -
  let ?T = "fail_tolerance_threshold ch"
  obtain t db where f: "failures (unat ?T - c - 1) ch parts st = Inr (replicate (unat ?T - c - 1) False, st\<lparr>tick := t, challenger_ip_db := db\<rparr>)"
    "db_inv db" and v: "db_view 0 db = (db_view 0 (challenger_ip_db st))(ip := of_nat (c + (unat ?T - c - 1)))"
    using failures_below [OF assms(1-5), of "unat ?T - c - 1" ch] assms(6) by (auto simp del: of_nat_add)
  have T: "c + (unat ?T - c - 1) = unat ?T - 1" "Suc (unat ?T - 1) = unat ?T" using assms(6) by simp_all
  note v = v [unfolded T(1)]
  let ?st1 = "st\<lparr>tick := t, challenger_ip_db := db\<rparr>"
  have n: "of_nat (unat ?T - 1) + 1 = (of_nat (unat ?T) :: 64 word)" using T(2) by (metis add.commute of_nat_Suc)
  have "(of_nat (unat ?T - 1) + 1 :: 64 word) \<ge> ucast ?T" using threshold_reached [of "unat ?T - 1" ?T] T(2) by simp
  then have r: "report_failure ch parts ?st1 = Inr (True, drop_count ip (ban (cstr ip)
      (challenge_banning_reason ch host (of_nat (unat ?T)) parts) (?st1\<lparr>tick := Suc t\<rparr>)))"
    using report_failure_effect [OF assms(1,2), of ?st1 ch] assms(3) f(2) v n by simp
  have "db_view 0 (challenger_ip_db (drop_count ip (ban (cstr ip) reason (?st1\<lparr>tick := Suc t\<rparr>)))) =
      (db_view 0 (challenger_ip_db st))(ip := 0)" for reason
    using drop_count_db [of "ban (cstr ip) reason (?st1\<lparr>tick := Suc t\<rparr>)" ip] f(2) assms(3) v by simp
  moreover have e: "?st1\<lparr>tick := Suc t\<rparr> = st\<lparr>tick := Suc t, challenger_ip_db := db\<rparr>" by simp
  ultimately show ?thesis using f(1) v r [unfolded e] unfolding e by blast
qed

text \<open>Two failures that only count, and a third that bans.\<close>

theorem failure_threshold_is_exact_witness:
  "\<exists>t db st'. failures 2 sample_spec (sample_parts []) sample_state = Inr ([False, False], sample_state\<lparr>tick := t, challenger_ip_db := db\<rparr>) \<and>
     report_failure sample_spec (sample_parts []) (sample_state\<lparr>tick := t, challenger_ip_db := db\<rparr>) = Inr (True, st')"
proof -
  have "db_inv (challenger_ip_db sample_state)" "\<forall>n. locks sample_state n"
    "db_view 0 (challenger_ip_db sample_state) ''1.2.3.4'' = of_nat 0"
    by (simp_all add: sample_state_def db_inv_def db_view_def)
  moreover have "unat (fail_tolerance_threshold sample_spec) = 3" by (simp add: sample_spec_def)
  ultimately show ?thesis
    using failure_threshold_is_exact [of "sample_parts []" "''1.2.3.4''" "''h''" sample_state 0 sample_spec]
    by (auto simp: numeral_2_eq_2 numeral_3_eq_3)
qed

text \<open>A solved challenge does not wipe the failure record, it leaves one failure on it: after
  \<open>report_success\<close> the address is banned one failure earlier than an unknown address, at the
  (threshold - 1)-th failure; and with a threshold of 1 the next failure bans in either case.\<close>

theorem success_leaves_one_failure:
  assumes "parts IP = Some ip" and "parts HOST = Some host"
    and "\<forall>n. locks st n" and "db_inv (challenger_ip_db st)" and "1 < unat (fail_tolerance_threshold ch)"
  shows "db_view 0 (challenger_ip_db (report_success ip st)) ip = 1 \<and>
    (\<exists>t db. failures (unat (fail_tolerance_threshold ch) - 2) ch parts (report_success ip st) =
       Inr (replicate (unat (fail_tolerance_threshold ch) - 2) False, (report_success ip st)\<lparr>tick := t, challenger_ip_db := db\<rparr>) \<and>
       (\<exists>st'. report_failure ch parts ((report_success ip st)\<lparr>tick := t, challenger_ip_db := db\<rparr>) = Inr (True, st')))"
proof -
  let ?T = "fail_tolerance_threshold ch" and ?s = "report_success ip st"
  have db: "db_inv (challenger_ip_db ?s)" "db_view 0 (challenger_ip_db ?s) ip = of_nat 1" "\<forall>n. locks ?s n"
    using set_count_db [OF assms(4), of ip 1] assms(3) by (simp_all add: report_success_def)
  obtain t db where f: "failures (unat ?T - 2) ch parts ?s = Inr (replicate (unat ?T - 2) False, ?s\<lparr>tick := t, challenger_ip_db := db\<rparr>)"
    "db_inv db" "db_view 0 db ip = of_nat (unat ?T - 1)"
    using failures_below [OF assms(1,2) db(3,1,2), of "unat ?T - 2" ch] assms(5) by (auto simp: numeral_2_eq_2 Suc_diff_Suc)
  have "(of_nat (unat ?T - 1) + 1 :: 64 word) \<ge> ucast ?T" using threshold_reached [of "unat ?T - 1" ?T] assms(5) by simp
  then have "\<exists>st'. report_failure ch parts (?s\<lparr>tick := t, challenger_ip_db := db\<rparr>) = Inr (True, st')"
    using report_failure_effect [OF assms(1,2), of "?s\<lparr>tick := t, challenger_ip_db := db\<rparr>" ch] db(3) f(2,3) by simp
  with db(2) f(1) show ?thesis by auto
qed

theorem success_leaves_one_failure_witness:
  "\<exists>t db st'. failures 1 sample_spec (sample_parts []) (report_success ''1.2.3.4'' sample_state) =
       Inr ([False], (report_success ''1.2.3.4'' sample_state)\<lparr>tick := t, challenger_ip_db := db\<rparr>) \<and>
     report_failure sample_spec (sample_parts []) ((report_success ''1.2.3.4'' sample_state)\<lparr>tick := t, challenger_ip_db := db\<rparr>) = Inr (True, st')"
proof -
  have "db_inv (challenger_ip_db sample_state)" "\<forall>n. locks sample_state n"
    by (simp_all add: sample_state_def db_inv_def)
  moreover have "unat (fail_tolerance_threshold sample_spec) = 3" by (simp add: sample_spec_def)
  ultimately show ?thesis
    using success_leaves_one_failure [of "sample_parts []" "''1.2.3.4''" "''h''" sample_state sample_spec]
    by (auto simp del: failures.simps)
qed

end
