(* ===== verification/WhiteLister.thy ===== *)
theory WhiteLister
  imports BanjaxFilter
begin

text \<open>
  The white lister (white_lister.h, white_lister.cpp): reads address ranges into the global white
  list, and lets the requests of a white-listed client pass unchecked and uncached.
\<close>

definition WhiteLister_requested_info :: "64 word" where
  "WhiteLister_requested_info = IP OR HOST"

text \<open>The loop over \<open>cfg["white_listed_ips"]\<close>.\<close>

fun load_white_listed_ips :: "yaml_lib \<Rightarrow> yaml list \<Rightarrow> global_white_list \<Rightarrow> global_white_list result" where
  "load_white_listed_ips Y [] wl = Inr wl"
| "load_white_listed_ips Y (entry # es) wl =
     (if IsMap entry then
        rbind (ysub entry ''host'') (\<lambda>h.
        rbind (as_string Y h) (\<lambda>host.
        rbind (ysub entry ''ip_range'') (\<lambda>i.
        rbind (as_string Y i) (\<lambda>ip_range.
        rbind (make_mask_for_range ip_range) (\<lambda>r.
        load_white_listed_ips Y es (insert_host_range host r wl))))))
      else
        rbind (as_string Y entry) (\<lambda>ip_range.
        rbind (make_mask_for_range ip_range) (\<lambda>r.
        load_white_listed_ips Y es (insert_range r wl))))"

definition WhiteLister_load_config :: "yaml_lib \<Rightarrow> yaml \<Rightarrow> global_white_list \<Rightarrow> global_white_list result" where
  "WhiteLister_load_config Y cfg wl =
     rbind (ysub cfg ''white_listed_ips'') (\<lambda>ips. load_white_listed_ips Y (yelems ips) wl)"

definition WhiteLister_on_http_request ::
    "global_white_list \<Rightarrow> transaction_parts \<Rightarrow> 'c filter_response result" where
  "WhiteLister_on_http_request wl parts =
     rbind (part_at parts IP) (\<lambda>ip.
     rbind (part_at parts HOST) (\<lambda>host.
     case is_white_listed wl host ip of
       Some _ \<Rightarrow> Inr (plain_response SERVE_IMMIDIATELY_DONT_CACHE)
     | None \<Rightarrow> Inr (plain_response GO_AHEAD_NO_COMMENT)))"

section \<open>Properties\<close>

text \<open>What a configuration entry exempts: a range for one host or for all hosts.\<close>

definition entry_range :: "yaml_lib \<Rightarrow> yaml \<Rightarrow> (string option \<times> subnet_range) result" where
  "entry_range Y entry =
     (if IsMap entry then
        rbind (ysub entry ''host'') (\<lambda>h. rbind (as_string Y h) (\<lambda>host.
        rbind (ysub entry ''ip_range'') (\<lambda>i. rbind (as_string Y i) (\<lambda>s.
        rbind (make_mask_for_range s) (\<lambda>r. Inr (Some host, r))))))
      else rbind (as_string Y entry) (\<lambda>s. rbind (make_mask_for_range s) (\<lambda>r. Inr (None, r))))"

abbreviation insert_entry :: "string option \<times> subnet_range \<Rightarrow> global_white_list \<Rightarrow> global_white_list" where
  "insert_entry e \<equiv> (case e of (None, r) \<Rightarrow> insert_range r | (Some h, r) \<Rightarrow> insert_host_range h r)"

fun entry_ranges :: "yaml_lib \<Rightarrow> yaml list \<Rightarrow> (string option \<times> subnet_range) list result" where
  "entry_ranges Y [] = Inr []"
| "entry_ranges Y (e # es) = rbind (entry_range Y e) (\<lambda>r. rbind (entry_ranges Y es) (\<lambda>rs. Inr (r # rs)))"

lemma load_white_listed_ips_fold:
  "load_white_listed_ips Y es wl = rbind (entry_ranges Y es) (\<lambda>rs. Inr (fold insert_entry rs wl))"
proof (induction es arbitrary: wl)
  case (Cons e es)
  show ?case
    by (auto simp: entry_range_def Cons.IH split: rbind_splits)
qed simp

text \<open>C30: The white lister exempts exactly what the configuration lists. After loading, a request is
  served immediately iff its client address lies in a range that was exempt before, in a range
  listed for all hosts, or in a range listed for the host of the request; every other request goes
  on to the next filter. No listed range is lost and none is added.\<close>

theorem white_lister_exempts_exactly_the_listed:
  assumes "ysub cfg ''white_listed_ips'' = Inr ips"
    and "WhiteLister_load_config Y cfg wl = Inr wl'"
    and "parts IP = Some ip" and "parts HOST = Some host"
  shows "\<exists>ranges. entry_ranges Y (yelems ips) = Inr ranges \<and>
    WhiteLister_on_http_request wl' parts =
      Inr (plain_response
        (if is_white_listed wl host ip \<noteq> None \<or>
            (\<exists>(h, r) \<in> set ranges. (h = None \<or> h = Some host) \<and> is_match ip r)
         then SERVE_IMMIDIATELY_DONT_CACHE else GO_AHEAD_NO_COMMENT))"
proof -
  from assms(1,2) obtain ranges where rs: "entry_ranges Y (yelems ips) = Inr ranges"
    and wl': "wl' = fold insert_entry ranges wl"
    by (auto simp: WhiteLister_load_config_def load_white_listed_ips_fold rbind_eq_Inr_iff)
  have "is_white_listed wl' host ip \<noteq> None \<longleftrightarrow> is_white_listed wl host ip \<noteq> None \<or>
      (\<exists>(h, r) \<in> set ranges. (h = None \<or> h = Some host) \<and> is_match ip r)"
    unfolding wl' by (rule wlist.exempt_fold)
  with rs assms(3,4) show ?thesis
    by (auto simp: WhiteLister_on_http_request_def part_at_def split: option.splits)
qed

definition sample_ranges :: "yaml" where
  "sample_ranges = YSequence [YScalar ''127.0.0.1'',
     YMap [(''host'', YScalar ''a.com''), (''ip_range'', YScalar ''10.0.0.0/8'')]]"

lemma sample_ranges_loaded:
  "entry_ranges sample_yaml (yelems sample_ranges) =
     Inr [(None, (0x7f000001, 0xffffffff)), (Some ''a.com'', (0x0a000000, 0xff000000))]"
  by code_simp

theorem white_lister_exempts_exactly_the_listed_witness:
  "\<exists>wl'. WhiteLister_load_config sample_yaml (YMap [(''white_listed_ips'', sample_ranges)]) empty_white_list = Inr wl' \<and>
     WhiteLister_on_http_request wl' [IP \<mapsto> ''10.1.2.3'', HOST \<mapsto> ''a.com''] =
       (Inr (plain_response SERVE_IMMIDIATELY_DONT_CACHE) :: unit filter_response result)"
proof -
  have sub: "ysub (YMap [(''white_listed_ips'', sample_ranges)]) ''white_listed_ips'' = Inr sample_ranges"
    by (simp add: ysub_def to_map_def)
  obtain wl' where wl': "WhiteLister_load_config sample_yaml (YMap [(''white_listed_ips'', sample_ranges)]) empty_white_list = Inr wl'"
    by (simp add: WhiteLister_load_config_def sub load_white_listed_ips_fold sample_ranges_loaded)
  have "is_match ''10.1.2.3'' (0x0a000000, 0xff000000)" by code_simp
  moreover have "[IP \<mapsto> ''10.1.2.3'', HOST \<mapsto> ''a.com''] IP = Some ''10.1.2.3''"
    by (simp add: part_numbers)
  ultimately show ?thesis
    using white_lister_exempts_exactly_the_listed
      [OF sub wl', where parts = "[IP \<mapsto> ''10.1.2.3'', HOST \<mapsto> ''a.com'']" and ip = "''10.1.2.3''"
        and host = "''a.com''" and 'a = unit] wl'
    by (simp add: sample_ranges_loaded)
qed

end
