(* ===== verification/Denialator.thy ===== *)
theory Denialator
  imports Swabber WhiteLister
begin

text \<open>
  The denialator (denialator.h, denialator.cpp): denies the requests of an address that is flagged
  in the table of the ban interface, and asks for its ban again once the grace period is over.
\<close>

definition Denialator_requested_info :: "64 word" where
  "Denialator_requested_info = IP"

text \<open>The grace period is read once, when the filter is made. The pointer to the global white list
  may be null.\<close>

record denialator =
  banning_grace_period :: int
  dn_white_list :: "global_white_list option"

definition new_denialator :: "global_white_list option \<Rightarrow> 's swabber_state_scheme \<Rightarrow> denialator" where
  "new_denialator wl st = \<lparr>banning_grace_period = grace_period st, dn_white_list = wl\<rparr>"

definition Denialator_on_http_request ::
    "denialator \<Rightarrow> transaction_parts \<Rightarrow> 's swabber_state_scheme \<Rightarrow> ('c filter_response \<times> 's swabber_state_scheme) result" where
  "Denialator_on_http_request d parts st =
     rbind (part_at parts IP) (\<lambda>cur_ip.
     if (case dn_white_list d of None \<Rightarrow> False | Some wl \<Rightarrow> ip_white_listed wl cur_ip \<noteq> None)
     then Inr (plain_response GO_AHEAD_NO_COMMENT, st)
     else
       let (ip_state, st1) = get_ip_state 0 cur_ip (swabber_ip_db st) st in
       case ip_state of
         None \<Rightarrow> Inr (plain_response GO_AHEAD_NO_COMMENT, st1)
       | Some flag \<Rightarrow>
           if flag \<noteq> 0 then
             let ((now, _), st2) = gettimeofday st1;
                 st3 = (if now - flag \<ge> banning_grace_period d
                        then ban cur_ip (''flagged on '' @ to_string flag @ '', grace period passed. reported by denialator'') st2
                        else st2)
             in Inr (generator_response DENIALATOR_FILTER_ID, st3)
           else Inr (plain_response GO_AHEAD_NO_COMMENT, st1))"

definition Denialator_generate_response :: string where
  "Denialator_generate_response =
     ''<html><header></header><body>you've been temporarily banned by deflect</body></html>''"

section \<open>Properties\<close>

text \<open>C35: Whom the denialator denies: exactly the addresses that are flagged in the ban interface's
  table, provided the table can be locked and the address is not on the global white list. Denying
  a request never clears a flag before the grace period is over, and every other request goes on
  unchanged.\<close>

theorem denialator_denies_flagged_addresses:
  assumes "parts IP = Some ip" and "db_inv (swabber_ip_db st)"
  shows "\<exists>resp st'. Denialator_on_http_request d parts st = Inr (resp, st') \<and>
    response_type resp =
      (if (case dn_white_list d of None \<Rightarrow> True | Some wl \<Rightarrow> ip_white_listed wl ip = None) \<and>
          locks st (tick st) \<and> db_view 0 (swabber_ip_db st) ip \<noteq> 0
       then I_RESPOND else GO_AHEAD_NO_COMMENT) \<and>
    (fst (clock st (Suc (tick st))) - db_view 0 (swabber_ip_db st) ip < banning_grace_period d \<longrightarrow>
       swabber_ip_db st' = swabber_ip_db st \<and> zmq_sent st' = zmq_sent st)"
proof -
  have get: "get_ip_state 0 ip (swabber_ip_db st) st =
      (if locks st (tick st) then Some (db_view 0 (swabber_ip_db st) ip) else None, st\<lparr>tick := Suc (tick st)\<rparr>)"
    using ipdb.get_law [OF assms(2), of 0 ip st] by (simp add: world_simps after_lock_def)
  show ?thesis
    using assms(1)
    by (auto simp: Denialator_on_http_request_def part_at_def get case_prod_beta Let_def world_simps split: option.splits)
qed

theorem denialator_denies_flagged_addresses_witness:
  "\<exists>resp st'. Denialator_on_http_request \<lparr>banning_grace_period = 10, dn_white_list = None\<rparr> [IP \<mapsto> ''1.2.3.4'']
       (sample_swabber\<lparr>swabber_ip_db := [(''1.2.3.4'', 100)]\<rparr>) = Inr (resp :: unit filter_response, st') \<and>
     response_type resp = I_RESPOND \<and> zmq_sent st' = []"
proof -
  let ?d = "\<lparr>banning_grace_period = 10, dn_white_list = None\<rparr> :: denialator"
  have "[IP \<mapsto> ''1.2.3.4''] IP = Some ''1.2.3.4''" by simp
  moreover have "db_inv (swabber_ip_db (sample_swabber\<lparr>swabber_ip_db := [(''1.2.3.4'', 100)]\<rparr>))"
    by (simp add: db_inv_def)
  ultimately show ?thesis
    using denialator_denies_flagged_addresses
      [of "[IP \<mapsto> ''1.2.3.4'']" "''1.2.3.4''" "sample_swabber\<lparr>swabber_ip_db := [(''1.2.3.4'', 100)]\<rparr>" ?d, where 'b = unit]
    by (auto simp: sample_swabber_def db_view_def)
qed

text \<open>Without a grace period nothing is ever flagged.\<close>

definition no_flags :: "'s swabber_state_scheme \<Rightarrow> bool" where
  "no_flags s \<longleftrightarrow> grace_period s \<le> 0 \<and> swabber_ip_db s = []"

lemma send_ban_no_flags: "swabber_ip_db st = [] \<Longrightarrow> swabber_ip_db (send_ban ip r st) = []"
  by (auto simp: send_ban_def world_simps drop_ip_def Let_def bind_socket_sel
      split: option.splits prod.splits if_splits)

interpretation unflagged: trace_invariant "swabber_step :: 's swabber_state_scheme \<Rightarrow> _" "\<lambda>_. no_flags"
proof unfold_locales
  fix s :: "'s swabber_state_scheme" and e s'
  assume inv: "no_flags s" and step: "swabber_step s e s'"
  from step show "no_flags s'"
    by (cases rule: swabber_step.cases)
      (use inv in \<open>auto simp: no_flags_def ban_no_grace send_ban_grace send_ban_no_flags release_socket_def\<close>)
qed

text \<open>With the default grace period of 0 the denialator does nothing: after any sequence of ban
  requests, whatever was banned, it lets every request of every address go on, because an address
  is only recorded in the table while a grace period is counted.\<close>

theorem denialator_inert_without_grace_period:
  fixes s s' :: "'s swabber_state_scheme"
  assumes "run swabber_step s es s'" and "grace_period s = DEFAULT_GRACE_PERIOD" and "swabber_ip_db s = []"
    and "parts IP = Some ip"
  shows "\<exists>s''. Denialator_on_http_request d parts s' = Inr (plain_response GO_AHEAD_NO_COMMENT, s'')"
proof -
  have "no_flags s" using assms(2,3) by (simp add: no_flags_def DEFAULT_GRACE_PERIOD_def)
  then have "no_flags s'" using unflagged.inv_run [OF assms(1)] by simp
  then show ?thesis
    using assms(4)
    by (auto simp: Denialator_on_http_request_def part_at_def no_flags_def get_ip_state_def world_simps
        split: option.splits)
qed

theorem denialator_inert_without_grace_period_witness:
  "\<exists>s' s''. run swabber_step (sample_swabber\<lparr>grace_period := 0\<rparr>) [Ban_Request ''1.2.3.4'' 100 True] s' \<and>
     zmq_sent s' = [[SWABBER_BAN, ''1.2.3.4'']] \<and>
     Denialator_on_http_request \<lparr>banning_grace_period = 0, dn_white_list = None\<rparr> [IP \<mapsto> ''1.2.3.4''] s' =
       Inr (plain_response GO_AHEAD_NO_COMMENT :: unit filter_response, s'')"
proof -
  let ?s = "sample_swabber\<lparr>grace_period := 0\<rparr>"
  let ?s' = "ban ''1.2.3.4'' ''r'' ?s"
  have sent: "zmq_sent ?s' = [[SWABBER_BAN, ''1.2.3.4'']]"
    by (simp add: ban_no_grace send_ban_sent sample_swabber_def can_send_def ready_def after_lock_def world_simps
        is_bound_def new_socket_def bind_socket_def)
  have "swabber_step ?s (Ban_Request ''1.2.3.4'' 100 True) ?s'"
    using step_ban [of ?s' "''1.2.3.4''" "''r''" ?s] by (simp add: sent) (simp add: sample_swabber_def)
  then have "run swabber_step ?s ([] @ [Ban_Request ''1.2.3.4'' 100 True]) ?s'"
    by (rule run_snoc [OF run_nil])
  then have run: "run swabber_step ?s [Ban_Request ''1.2.3.4'' 100 True] ?s'" by simp
  have "\<exists>s''. Denialator_on_http_request \<lparr>banning_grace_period = 0, dn_white_list = None\<rparr> [IP \<mapsto> ''1.2.3.4''] ?s' =
       Inr (plain_response GO_AHEAD_NO_COMMENT :: unit filter_response, s'')"
    by (rule denialator_inert_without_grace_period [OF run])
      (simp_all add: sample_swabber_def DEFAULT_GRACE_PERIOD_def)
  with run sent show ?thesis by blast
qed

end
