(* ===== verification/BanFlow.thy ===== *)
theory BanFlow
  imports RegexManager Denialator
begin

text \<open>
  Bans across components: what the ban interface does with the requests to ban an address, as a ledger without
  locks, sockets and logs; and the way of an address from a hit of the regex filter over its flag in the interface's
  table to the denials of the denialator.
\<close>

section \<open>The ledger\<close>

text \<open>The times at which addresses were flagged, 0 for the others, and the messages sent. \<open>g\<close> is the grace period.\<close>

record ledger =
  flagged :: "string \<Rightarrow> int"
  reported :: "string list list"

definition ledger_ban :: "int \<Rightarrow> int \<Rightarrow> string \<Rightarrow> ledger \<Rightarrow> ledger" where
  "ledger_ban g now ip l =
     (if 0 < g \<and> flagged l ip = 0 then l\<lparr>flagged := (flagged l)(ip := now)\<rparr>
      else if 0 < g \<and> now - flagged l ip < g then l
      else l\<lparr>flagged := (flagged l)(ip := 0), reported := reported l @ [[SWABBER_BAN, ip]]\<rparr>)"

definition ledger_of :: "'s swabber_state_scheme \<Rightarrow> ledger" where
  "ledger_of s = \<lparr>flagged = db_view 0 (swabber_ip_db s), reported = zmq_sent s\<rparr>"

text \<open>Nothing hinders the interface: every lock is free, and its socket is bound.\<close>

definition unhindered :: "'s swabber_state_scheme \<Rightarrow> bool" where
  "unhindered s \<longleftrightarrow> (\<forall>n. locks s n) \<and> db_inv (swabber_ip_db s) \<and> (\<exists>sk. socket s = Some sk \<and> is_bound sk)"

lemma unhindered_tick [simp]: "unhindered (s\<lparr>tick := n\<rparr>) = unhindered s" "ledger_of (s\<lparr>tick := n\<rparr>) = ledger_of s"
  by (simp_all add: unhindered_def ledger_of_def)

lemma send_ban_ledger:
  assumes "unhindered s"
  shows "unhindered (send_ban ip r s)"
    and "ledger_of (send_ban ip r s) = (ledger_of s)\<lparr>flagged := (flagged (ledger_of s))(ip := 0), reported := zmq_sent s @ [[SWABBER_BAN, ip]]\<rparr>"
  using assms
  by (auto simp: unhindered_def ledger_of_def send_ban_def world_simps drop_ip_def Let_def)

text \<open>A first request flags the address if the locks it tries are free.\<close>

lemma first_request_flag:
  assumes "\<forall>n<tick (ban ip r s). locks s n" and "db_inv (swabber_ip_db s)" and "0 < grace_period s" and "db_view 0 (swabber_ip_db s) ip = 0"
  shows "db_view 0 (swabber_ip_db (ban ip r s)) = (db_view 0 (swabber_ip_db s))(ip := fst (clock s (tick s)))"
proof -
  let ?s1 = "s\<lparr>tick := Suc (tick s)\<rparr>" and ?s2 = "s\<lparr>tick := Suc (Suc (tick s))\<rparr>" and ?now = "fst (clock s (tick s))"
  have "Suc (tick s) < tick (ban ip r s)" if "\<not> locks s (Suc (tick s))"
    using that assms(3) by (simp add: ban_def case_prod_beta world_simps get_ip_state_def)
  with assms(1) have "locks s (Suc (tick s))" by blast
  then have get: "get_ip_state 0 ip (swabber_ip_db ?s1) ?s1 = (Some 0, ?s2)"
    using ipdb.get_law [of "swabber_ip_db ?s1" 0 ip ?s1] assms by (simp add: world_simps after_lock_def)
  obtain ok db s3 where set3: "set_ip_state ip ?now (swabber_ip_db ?s2) ?s2 = (ok, db, s3)" by (metis prod_cases3)
  have ban: "ban ip r s = write_log ip r ''flagged'' (s3\<lparr>swabber_ip_db := db\<rparr>)" "tick s3 = Suc (Suc (Suc (tick s)))"
    using get set3 assms(3) by (auto simp: ban_def case_prod_beta world_simps flag_time_def Let_def set_ip_state_def split: prod.splits if_splits)
  moreover have "tick s3 \<le> tick (ban ip r s)" unfolding ban(1) by (simp add: write_log_def world_simps case_prod_beta Let_def)
  ultimately have "locks s (Suc (Suc (tick s)))" using assms(1) by simp
  with ipdb.put_law [OF _ set3, of 0] assms(2) ban(1) show ?thesis by (simp add: world_simps)
qed

lemma first_request_ledger:
  assumes "unhindered s" and "0 < grace_period s" and "db_view 0 (swabber_ip_db s) ip = 0"
  shows "unhindered (ban ip r s)" 
    and "ledger_of (ban ip r s) = (ledger_of s)\<lparr>flagged := (flagged (ledger_of s))(ip := fst (clock s (tick s)))\<rparr>"
  using assms
  by (auto simp: unhindered_def ledger_of_def ban_def world_simps get_ip_state_def set_ip_state_def flag_time_def Let_def case_prod_beta
      db_view_def split: option.splits)

lemma later_request_ledger:
  assumes "unhindered s" and "0 < grace_period s" and "db_view 0 (swabber_ip_db s) ip \<noteq> 0"
  shows "ban ip r s = (let s2 = s\<lparr>tick := Suc (Suc (tick s))\<rparr> in
     if fst (clock s (tick s)) - db_view 0 (swabber_ip_db s) ip < grace_period s then s2 else send_ban ip r s2)"
proof -
  let ?s1 = "s\<lparr>tick := Suc (tick s)\<rparr>"
  have "get_ip_state 0 ip (swabber_ip_db ?s1) ?s1 = (Some (db_view 0 (swabber_ip_db s) ip), s\<lparr>tick := Suc (Suc (tick s))\<rparr>)"
    using ipdb.get_law [of "swabber_ip_db ?s1" 0 ip ?s1] assms(1) by (simp add: unhindered_def world_simps after_lock_def)
  with assms show ?thesis by (simp add: ban_def world_simps flag_time_def Let_def case_prod_beta)
qed

text \<open>C29: \<open>SwabberInterface::ban\<close> implements the ledger. When nothing hinders it, each request to ban an address does to the
  table and to the messages what the ledger does: without a grace period the ban is sent at once; with one the
  first request flags the address, requests within the period change nothing, and the first one after it sends the
  ban and clears the flag. The interface stays unhindered, so this is so for every sequence of requests.\<close>

theorem ban_refines_ledger:
  assumes "unhindered s"
  shows "ledger_of (ban ip r s) = ledger_ban (grace_period s) (fst (clock s (tick s))) ip (ledger_of s) \<and> unhindered (ban ip r s)"
proof (cases "0 < grace_period s")
  case False
  then show ?thesis
    using ban_no_grace [of s ip r] send_ban_ledger [of "s\<lparr>tick := Suc (tick s)\<rparr>" ip r] assms
    by (simp add: ledger_ban_def) (simp add: ledger_of_def)
next
  case g: True
  show ?thesis
  proof (cases "db_view 0 (swabber_ip_db s) ip = 0")
    case True
    with first_request_ledger [OF assms g True, of r] g show ?thesis by (simp add: ledger_ban_def ledger_of_def)
  next
    case False
    let ?s2 = "s\<lparr>tick := Suc (Suc (tick s))\<rparr>"
    show ?thesis
      using later_request_ledger [OF assms g False, of r] send_ban_ledger [of ?s2 ip r] assms g False
      by (simp add: ledger_ban_def Let_def) (simp add: ledger_of_def)
  qed
qed

text \<open>A first request at time 100 with a grace period of 10.\<close>

theorem ban_refines_ledger_witness:
  "\<exists>s :: swabber_state. ledger_of (ban ''1.2.3.4'' ''r'' s) = ledger_ban 10 100 ''1.2.3.4'' \<lparr>flagged = \<lambda>_. 0, reported = []\<rparr> \<and>
     unhindered (ban ''1.2.3.4'' ''r'' s)"
proof -
  let ?s = "sample_swabber\<lparr>socket := Some \<lparr>zmq_endpoint = Some ''e'', local_endpoint_s = ''e''\<rparr>\<rparr>"
  have "unhindered ?s" by (simp add: unhindered_def sample_swabber_def is_bound_def db_inv_def)
  moreover have "grace_period ?s = 10" "fst (clock ?s (tick ?s)) = 100" "ledger_of ?s = \<lparr>flagged = \<lambda>_. 0, reported = []\<rparr>"
    by (auto simp: sample_swabber_def ledger_of_def db_view_def)
  ultimately show ?thesis using ban_refines_ledger [of ?s "''1.2.3.4''" "''r''"] by auto
qed

section \<open>From a hit to the denials\<close>

text \<open>Counting hits does not touch what the ban interface keeps.\<close>

definition swabber_part :: "'s swabber_state_scheme \<Rightarrow> int ip_table \<times> int \<times> (nat \<Rightarrow> bool) \<times> (nat \<Rightarrow> int \<times> int) \<times> string list list" where
  "swabber_part s = (swabber_ip_db s, grace_period s, locks s, clock s, zmq_sent s)"

lemma swabber_part_tick [simp]: "swabber_part (st\<lparr>tick := n\<rparr>) = swabber_part st"
  by (simp add: swabber_part_def)

lemma swabber_part_regex [simp]: "swabber_part (st\<lparr>regex_manager_ip_db := db\<rparr>) = swabber_part st"
  by (simp add: swabber_part_def)

lemma get_ip_state_swabber: "swabber_part (snd (get_ip_state d ip db st)) = swabber_part st"
  by (simp add: get_ip_state_def world_simps split: option.split)

lemma store_state_swabber [simp]: "swabber_part (store_state ip v st) = swabber_part st"
  by (simp add: store_state_def set_ip_state_def world_simps Let_def)

lemma try_match_loop_swabber:
  "try_match_loop fm n ip rec host rules ip_state st = Inr (r, st') \<Longrightarrow> swabber_part st' = swabber_part st"
proof (induction fm n ip rec host rules ip_state st rule: try_match_loop.induct)
  case (2 fm n ip rec host rule rules ip_state st)
  let ?st1 = "st\<lparr>tick := Suc (tick st)\<rparr>"
  obtain s2 st2 where q: "(if ip_state = None \<or> ip_state = Some []
      then get_ip_state [] ip (regex_manager_ip_db ?st1) ?st1 else (ip_state, ?st1)) = (s2, st2)" by (metis surj_pair)
  then have "swabber_part st2 = swabber_part st"
    using get_ip_state_swabber [of "[]" ip "regex_manager_ip_db ?st1" ?st1] by (auto split: if_splits)
  with 2 q show ?case
    by (auto simp: world_simps Let_def split: if_splits option.splits)
qed (auto split: option.splits if_splits)

text \<open>An address is flagged, and stays so until a ban for it is sent.\<close>

definition stays_flagged :: "string \<Rightarrow> swabber_event list \<Rightarrow> 's swabber_state_scheme \<Rightarrow> bool" where
  "stays_flagged ip es s \<longleftrightarrow>
     0 < grace_period s \<and> db_inv (swabber_ip_db s) \<and>
     ((\<forall>t. Ban_Request ip t True \<notin> set es) \<longrightarrow> db_view 0 (swabber_ip_db s) ip \<noteq> 0)"

lemma ban_keeps_flag:
  assumes "0 < grace_period s" and "db_inv (swabber_ip_db s)" and "db_view 0 (swabber_ip_db s) ip \<noteq> 0"
    and "ip' = ip \<longrightarrow> zmq_sent (ban ip' r s) = zmq_sent s"
  shows "db_view 0 (swabber_ip_db (ban ip' r s)) ip \<noteq> 0"
proof -
  let ?s1 = "s\<lparr>tick := Suc (tick s)\<rparr>" and ?s2 = "s\<lparr>tick := Suc (Suc (tick s))\<rparr>" and ?now = "fst (clock s (tick s))"
  have get: "get_ip_state 0 ip' (swabber_ip_db ?s1) ?s1 =
      (if locks s (Suc (tick s)) then Some (db_view 0 (swabber_ip_db s) ip') else None, ?s2)"
    using ipdb.get_law [of "swabber_ip_db ?s1" 0 ip' ?s1] assms(2) by (simp add: world_simps after_lock_def)
  show ?thesis
  proof (cases "locks s (Suc (tick s)) \<and> db_view 0 (swabber_ip_db s) ip' = 0")
    case True
    obtain ok db s3 where set3: "set_ip_state ip' ?now (swabber_ip_db ?s2) ?s2 = (ok, db, s3)" by (metis prod_cases3)
    have "swabber_ip_db (ban ip' r s) = db" using True get set3 assms(1)
      by (auto simp: ban_def case_prod_beta world_simps flag_time_def Let_def set_ip_state_def split: prod.splits if_splits)
    moreover have "db_view 0 db = (if ok then (db_view 0 (swabber_ip_db s))(ip' := ?now) else db_view 0 (swabber_ip_db s))"
      using ipdb.put_law [OF _ set3, of 0] assms(2) by simp
    ultimately show ?thesis using True assms(3) by (cases "ip' = ip") auto
  next
    case False
    then have "ban ip' r s = ?s2 \<or> ban ip' r s = send_ban ip' r ?s2"
      using get assms(1) by (auto simp: ban_def case_prod_beta world_simps flag_time_def)
    then show ?thesis
      using send_ban_db [of ?s2 ip' r] send_ban_sent [of ip' r ?s2] assms(2-4) by (cases "ip' = ip") auto
  qed
qed

interpretation denied: trace_invariant "swabber_step :: 's swabber_state_scheme \<Rightarrow> _" "stays_flagged ip" for ip
proof unfold_locales
  fix es and s :: "'s swabber_state_scheme" and e s'
  assume inv: "stays_flagged ip es s" and step: "swabber_step s e s'"
  from step show "stays_flagged ip (es @ [e]) s'"
  proof (cases rule: swabber_step.cases)
    case (step_ban ip' reason)
    have "grace_period s' = grace_period s \<and> db_inv (swabber_ip_db s')"
      using inv ban_grace_effect [of s ip' reason] step_ban(2) by (simp add: stays_flagged_def)
    moreover have "db_view 0 (swabber_ip_db s') ip \<noteq> 0" if "\<forall>t. Ban_Request ip t True \<notin> set (es @ [e])"
      using inv that step_ban ban_keeps_flag [of s ip ip' reason] by (auto simp: stays_flagged_def)
    ultimately show ?thesis using inv step_ban(2) by (auto simp: stays_flagged_def)
  qed (use inv in \<open>auto simp: stays_flagged_def release_socket_def\<close>)
qed

text \<open>C11: A hit of the regex filter keeps the address out. Let there be a grace period, and the locks that are tried while the
  hit is handled be free. If a request that the regex filter answers does not at once send the ban of its address,
  the address is flagged: from then on, whatever is asked of the ban interface, for this address or others, and
  whichever locks are free meanwhile, until a ban for the address is sent the denialator answers every request of the address
  itself, if it can lock the table of flags and the address is not on the global white list. (When the table is locked, the
  denialator lets the request go on.)\<close>

theorem regex_hit_is_denied_until_banned:
  fixes st st1 st2 :: "'s regex_state_scheme"
  assumes "RegexManager_on_http_request fm rules parts st = Inr (resp, parts1, st1)" and "response_type resp = I_RESPOND"
    and "parts IP = Some ip" and "0 < grace_period st" and "db_inv (swabber_ip_db st)" and "\<forall>n<tick st1. locks st n"
    and "\<forall>n. fst (clock st n) \<noteq> 0" and "zmq_sent st1 = zmq_sent st"
    and "run swabber_step st1 es st2" and "\<forall>t. Ban_Request ip t True \<notin> set es"
    and "parts2 IP = Some ip" and "locks st2 (tick st2)"
    and "case dn_white_list d of None \<Rightarrow> True | Some wl \<Rightarrow> ip_white_listed wl ip = None"
  shows "\<exists>resp2 st3. Denialator_on_http_request d parts2 st2 = Inr (resp2, st3) \<and> response_type resp2 = I_RESPOND"
proof -
  let ?p = "regex_parts parts"
  have "?p IP = Some ip" using assms(3) by (simp add: regex_parts_def part_index_def part_numbers split: option.split)
  with assms(1,2) obtain rule s0 where m: "try_match fm rules ip (make_ats_record ?p) (get_part ?p HOST) st = Inr (Some rule, s0)"
    and st1: "st1 = ban ip (regex_banning_reason rule ?p) s0"
    by (auto simp: RegexManager_on_http_request_def Let_def rbind_eq_Inr_iff split: option.splits)
  have "swabber_part s0 = swabber_part st" using m try_match_loop_swabber unfolding try_match_def by blast
  then have s0: "swabber_ip_db s0 = swabber_ip_db st" "grace_period s0 = grace_period st" "locks s0 = locks st" "clock s0 = clock st"
    "zmq_sent s0 = zmq_sent st" by (simp_all add: swabber_part_def)
  have "db_view 0 (swabber_ip_db st1) ip \<noteq> 0"
  proof (cases "db_view 0 (swabber_ip_db st) ip = 0")
    case True
    then show ?thesis using first_request_flag [of ip "regex_banning_reason rule ?p" s0] assms(4-7) s0 by (simp add: st1)
  next
    case False
    then show ?thesis using ban_keeps_flag [of s0 ip ip "regex_banning_reason rule ?p"] assms(4,5,8) s0 by (simp add: st1)
  qed
  moreover have "grace_period st1 = grace_period s0 \<and> db_inv (swabber_ip_db st1)"
    unfolding st1 using ban_grace_effect [of s0 ip "regex_banning_reason rule ?p"] assms(4,5) s0 by simp
  ultimately have "stays_flagged ip [] st1" using assms(4) s0 by (simp add: stays_flagged_def)
  then have "stays_flagged ip es st2" by (rule denied.inv_run [OF assms(9)])
  then have "db_view 0 (swabber_ip_db st2) ip \<noteq> 0" "db_inv (swabber_ip_db st2)"
    using assms(10) by (simp_all add: stays_flagged_def)
  moreover from this have "get_ip_state 0 ip (swabber_ip_db st2) st2 = (Some (db_view 0 (swabber_ip_db st2) ip), st2\<lparr>tick := Suc (tick st2)\<rparr>)"
    using ipdb.get_law [of "swabber_ip_db st2" 0 ip st2] assms(12) by (simp add: world_simps after_lock_def)
  ultimately show ?thesis
    using assms(11,13) by (auto simp: Denialator_on_http_request_def part_at_def case_prod_beta Let_def split: option.splits)
qed

theorem regex_hit_is_denied_until_banned_witness:
  "\<exists>(resp :: unit filter_response) parts1 st1 (resp2 :: unit filter_response) st2.
     RegexManager_on_http_request (\<lambda>p _. p = ''bad'') [sample_rule, make_rule 1 ''b'' ''bad'' 5 0 []] [IP \<mapsto> ''1.2.3.4''] sample_regex_state =
       Inr (resp, parts1, st1) \<and>
     Denialator_on_http_request \<lparr>banning_grace_period = 10, dn_white_list = None\<rparr> [IP \<mapsto> ''1.2.3.4''] st1 = Inr (resp2, st2) \<and>
     response_type resp2 = I_RESPOND"
proof -
  let ?d = "\<lparr>banning_grace_period = 10, dn_white_list = None\<rparr> :: denialator"
  let ?st1 = "ban ''1.2.3.4'' (regex_banning_reason (make_rule 1 ''b'' ''bad'' 5 0 []) (regex_parts [IP \<mapsto> ''1.2.3.4''])) sample_regex_state"
  have "0 < grace_period sample_regex_state" "db_inv (swabber_ip_db sample_regex_state)" "\<forall>n. locks sample_regex_state n"
    "\<forall>n. fst (clock sample_regex_state n) \<noteq> 0" "db_view 0 (swabber_ip_db sample_regex_state) ''1.2.3.4'' = 0"
    by (simp_all add: sample_regex_state_def swabber_state.defs sample_swabber_def db_inv_def db_view_def)
  moreover have "zmq_sent ?st1 = zmq_sent sample_regex_state"
    by (simp add: ban_def case_prod_beta world_simps get_ip_state_def flag_time_def set_ip_state_def Let_def sample_regex_state_def
        swabber_state.defs sample_swabber_def)
  ultimately have "\<exists>(resp2 :: unit filter_response) st2. Denialator_on_http_request ?d [IP \<mapsto> ''1.2.3.4''] ?st1 = Inr (resp2, st2) \<and> response_type resp2 = I_RESPOND"
    by (intro regex_hit_is_denied_until_banned [OF simple_rule_bans_at_once_witness, where es = "[]" and ip = "''1.2.3.4''"]) (simp_all add: run_nil)
  then show ?thesis using simple_rule_bans_at_once_witness by blast
qed

end
