(* ===== verification/Kafka.thy ===== *)
theory Kafka
  imports Challenger
begin

text \<open>
  Kafka (kafka.h, kafka.cpp): the producer's configuration, the consumer with its thread, and what
  Banjax does with a command (\<open>kafka_message_consume\<close> of banjax.cpp). librdkafka and the JSON parser
  are parameters, collected in \<open>kafka_lib\<close>; an \<open>RdKafka::Conf\<close> is the list of what was set in it.

  The thread of the consumer is an automaton: \<open>kc_pc\<close> says where it stands between two pieces of code
  that touch shared data, and \<open>consumer_step\<close> runs one piece. A reload of the configuration may come
  between any two of them.

  A message is read through \<open>(char*) message->payload()\<close>, up to the first NUL, while librdkafka gives
  its bytes with a length. \<open>behind\<close> is what memory holds after the payload.
\<close>

record kafka_lib =
  conf_set :: "string \<Rightarrow> string \<Rightarrow> bool"
  producer_create :: "(string \<times> string) list \<Rightarrow> bool"
  consumer_create :: "(string \<times> string) list \<Rightarrow> bool"
  consumer_subscribe :: "string list \<Rightarrow> bool"
  json_parse :: "string \<Rightarrow> json option"

section \<open>Configuration\<close>

definition set_single_config_field :: "yaml_lib \<Rightarrow> kafka_lib \<Rightarrow> yaml \<Rightarrow> string \<Rightarrow> (string \<times> string) list \<Rightarrow> (string \<times> string) list result" where
  "set_single_config_field Y K yaml_conf fld rd_conf =
     rbind (ysub yaml_conf fld) (\<lambda>n.
     if \<not> IsDefined n then Inl Terminate
     else if n = YNull then Inr rd_conf
     else rbind (as_string Y n) (\<lambda>v.
       if conf_set K fld v then Inr (rd_conf @ [(fld, v)]) else Inl Terminate))"

definition kafka_fields :: "string list" where
  "kafka_fields =
     [''metadata.broker.list'', ''security.protocol'', ''ssl.ca.location'', ''ssl.certificate.location'',
      ''ssl.key.location'', ''ssl.key.password'']"

fun set_config_fields :: "yaml_lib \<Rightarrow> kafka_lib \<Rightarrow> yaml \<Rightarrow> string list \<Rightarrow> (string \<times> string) list \<Rightarrow> (string \<times> string) list result" where
  "set_config_fields Y K yaml_conf [] rd_conf = Inr rd_conf"
| "set_config_fields Y K yaml_conf (f # fs) rd_conf =
     rbind (set_single_config_field Y K yaml_conf f rd_conf) (set_config_fields Y K yaml_conf fs)"

text \<open>The producer: its topic, and the settings it was made with.\<close>

definition new_kafka_producer :: "yaml_lib \<Rightarrow> kafka_lib \<Rightarrow> yaml \<Rightarrow> (string \<times> (string \<times> string) list) result" where
  "new_kafka_producer Y K config =
     (if \<not> IsMap config then Inl Terminate
      else
        rbind (set_config_fields Y K config kafka_fields []) (\<lambda>conf.
        rbind (field config ''report_topic'' (as_string Y)) (\<lambda>topic.
        if producer_create K conf then Inr (topic, conf) else Inl Terminate)))"

section \<open>Commands\<close>

text \<open>\<open>from_json\<close> for \<open>name_value\<close>; None when it throws.\<close>

definition name_value :: "json \<Rightarrow> (string \<times> string) option" where
  "name_value j =
     (case j of
        JObject kvs \<Rightarrow>
          (case (map_of kvs ''name'', map_of kvs ''value'') of
             (Some (JString n), Some (JString v)) \<Rightarrow> Some (n, v)
           | _ \<Rightarrow> None)
      | _ \<Rightarrow> None)"

definition kafka_message_consume :: "yaml_lib \<Rightarrow> challenge_lib \<Rightarrow> challenger option \<Rightarrow> json \<Rightarrow>
    's challenger_state_scheme \<Rightarrow> 's challenger_state_scheme result" where
  "kafka_message_consume Y L challenger message st =
     (case name_value message of
        None \<Rightarrow> Inr st
      | Some (nm, v) \<Rightarrow>
          (case challenger of
             None \<Rightarrow> Inr st
           | Some C \<Rightarrow>
               if nm = ''challenge_host'' then load_single_host_challenge Y L C v st
               else if nm = ''challenge_ip'' then
                 let (_, st1) = report_if_ip_in_database v st in load_single_ip_challenge Y L C v st1
               else Inr st))"

datatype kafka_error =
    ERR_NO_ERROR | ERR__TIMED_OUT | ERR__PARTITION_EOF | ERR__UNKNOWN_TOPIC | ERR__UNKNOWN_PARTITION | ERR_OTHER

record kafka_message =
  msg_err :: kafka_error
  payload :: "string option"
  behind :: string

definition payload_text :: "kafka_message \<Rightarrow> string result" where
  "payload_text m =
     (case payload m of
        None \<Rightarrow> Inl NullDereference
      | Some p \<Rightarrow> if NUL \<in> set (p @ behind m) then Inr (cstr (p @ behind m)) else Inl OutOfBoundsRead)"

definition msg_consume :: "yaml_lib \<Rightarrow> kafka_lib \<Rightarrow> challenge_lib \<Rightarrow> challenger option \<Rightarrow> kafka_message \<Rightarrow>
    's challenger_state_scheme \<Rightarrow> 's challenger_state_scheme result" where
  "msg_consume Y K L challenger m st =
     (let (locked, st1) = try_lock st in
      if \<not> locked then Inr st1
      else case msg_err m of
        ERR_NO_ERROR \<Rightarrow>
          rbind (payload_text m) (\<lambda>text.
          case json_parse K text of
            None \<Rightarrow> Inr st1
          | Some j \<Rightarrow> kafka_message_consume Y L challenger j st1)
      | _ \<Rightarrow> Inr st1)"

section \<open>The consumer\<close>

text \<open>Where the thread stands: before the outer loop's test and the reading of the configuration, before the connection is made,
  before the inner loop's test, before \<open>consume\<close>, before \<open>msg_consume\<close>, at its end.\<close>

datatype consumer_pc = Configure | Subscribe | Poll | Fetch | Consume | Stopped

text \<open>\<open>config_valid\<close> is not initialized (None). \<open>kc_banjax\<close> identifies the Banjax object that is told
  of the messages, \<open>kc_message\<close> is the message (or error) that \<open>consume\<close> returned.\<close>

record kafka_consumer =
  config_valid :: "bool option"
  shutting_down :: bool
  stored_config :: yaml
  kc_banjax :: nat
  kc_pc :: consumer_pc
  kc_topics :: "string list"
  kc_conf :: "(string \<times> string) list"
  kc_message :: "kafka_message option"

definition new_kafka_consumer :: "yaml \<Rightarrow> nat \<Rightarrow> kafka_consumer" where
  "new_kafka_consumer new_config new_banjax =
     \<lparr>config_valid = None, shutting_down = False, stored_config = new_config, kc_banjax = new_banjax,
      kc_pc = Configure, kc_topics = [], kc_conf = [], kc_message = None\<rparr>"

definition KafkaConsumer_reload_config :: "yaml \<Rightarrow> nat \<Rightarrow> kafka_consumer \<Rightarrow> kafka_consumer" where
  "KafkaConsumer_reload_config config new_banjax kc =
     kc\<lparr>stored_config := config, kc_banjax := new_banjax, config_valid := Some False\<rparr>"

text \<open>\<open>shutdown\<close> sets the flag and waits for the thread.\<close>

definition KafkaConsumer_shutdown :: "kafka_consumer \<Rightarrow> kafka_consumer" where
  "KafkaConsumer_shutdown kc = kc\<lparr>shutting_down := True\<rparr>"

text \<open>What the thread reads under the lock: the topics and the settings.\<close>

definition read_consumer_config :: "yaml_lib \<Rightarrow> kafka_lib \<Rightarrow> string \<Rightarrow> yaml \<Rightarrow> (string list \<times> (string \<times> string) list) result" where
  "read_consumer_config Y K host config =
     (if \<not> IsMap config then Inl Terminate
      else
        rbind (field config ''command_topic'' (as_string Y)) (\<lambda>topic.
        rbind (set_config_fields Y K config kafka_fields []) (\<lambda>conf.
        if conf_set K ''group.id'' host then Inr ([topic], conf @ [(''group.id'', host)]) else Inl Terminate)))"

text \<open>One piece of the thread. \<open>challenger\<close> is the challenger of the Banjax the consumer knows at that
  moment, \<open>m\<close> the message (or error) that \<open>consume\<close> returns if it is called.\<close>

definition consumer_step :: "yaml_lib \<Rightarrow> kafka_lib \<Rightarrow> challenge_lib \<Rightarrow> string \<Rightarrow> challenger option \<Rightarrow> kafka_message \<Rightarrow>
    kafka_consumer \<Rightarrow> 's challenger_state_scheme \<Rightarrow> (kafka_consumer \<times> 's challenger_state_scheme) result" where
  "consumer_step Y K L host challenger m kc st =
     (case kc_pc kc of
        Configure \<Rightarrow>
          if shutting_down kc then Inr (kc\<lparr>kc_pc := Stopped\<rparr>, st)
          else
            rbind (read_consumer_config Y K host (stored_config kc)) (\<lambda>(topics, conf).
            Inr (kc\<lparr>kc_pc := Subscribe, config_valid := Some True, kc_topics := topics, kc_conf := conf\<rparr>, st))
      | Subscribe \<Rightarrow>
          if consumer_create K (kc_conf kc) \<and> consumer_subscribe K (kc_topics kc)
          then Inr (kc\<lparr>kc_pc := Poll\<rparr>, st) else Inl Terminate
      | Poll \<Rightarrow>
          if config_valid kc = Some True \<and> \<not> shutting_down kc
          then Inr (kc\<lparr>kc_pc := Fetch\<rparr>, st) else Inr (kc\<lparr>kc_pc := Configure\<rparr>, st)
      | Fetch \<Rightarrow> Inr (kc\<lparr>kc_pc := Consume, kc_message := Some m\<rparr>, st)
      | Consume \<Rightarrow>
          (case kc_message kc of
             None \<Rightarrow> Inl NullDereference
           | Some msg \<Rightarrow>
               rbind (msg_consume Y K L challenger msg st) (\<lambda>st1. Inr (kc\<lparr>kc_pc := Poll, kc_message := None\<rparr>, st1)))
      | Stopped \<Rightarrow> Inr (kc, st))"

fun consumer_steps :: "yaml_lib \<Rightarrow> kafka_lib \<Rightarrow> challenge_lib \<Rightarrow> string \<Rightarrow> challenger option \<Rightarrow> kafka_message list \<Rightarrow>
    kafka_consumer \<Rightarrow> 's challenger_state_scheme \<Rightarrow> (kafka_consumer \<times> 's challenger_state_scheme) result" where
  "consumer_steps Y K L host challenger [] kc st = Inr (kc, st)"
| "consumer_steps Y K L host challenger (m # ms) kc st =
     rbind (consumer_step Y K L host challenger m kc st) (\<lambda>(kc1, st1). consumer_steps Y K L host challenger ms kc1 st1)"

text \<open>The thread, reloads and the request to stop, in any order. A reload makes the consumer report to
  another Banjax, with a state of its own. A fetch is an event that tells topics and settings of the connection.\<close>

datatype consumer_event = ThreadRuns | Fetches "string list \<times> (string \<times> string) list" | Reloads yaml nat | ShutsDown

inductive consumer_move :: "yaml_lib \<Rightarrow> kafka_lib \<Rightarrow> challenge_lib \<Rightarrow> string \<Rightarrow>
    kafka_consumer \<times> 's challenger_state_scheme \<Rightarrow> consumer_event \<Rightarrow> kafka_consumer \<times> 's challenger_state_scheme \<Rightarrow> bool"
  for Y K L host where
  thread_runs: "consumer_step Y K L host challenger m kc st = Inr (kc', st') \<Longrightarrow> kc_pc kc \<noteq> Fetch \<Longrightarrow>
    consumer_move Y K L host (kc, st) ThreadRuns (kc', st')"
| fetches: "consumer_step Y K L host challenger m kc st = Inr (kc', st') \<Longrightarrow> kc_pc kc = Fetch \<Longrightarrow>
    consumer_move Y K L host (kc, st) (Fetches (kc_topics kc, kc_conf kc)) (kc', st')"
| reloads: "consumer_move Y K L host (kc, st) (Reloads cfg b) (KafkaConsumer_reload_config cfg b kc, st')"
| shuts_down: "consumer_move Y K L host (kc, st) ShutsDown (KafkaConsumer_shutdown kc, st)"

inductive_cases consumer_moveE: "consumer_move Y K L host s e s'"

section \<open>Properties of the consumer\<close>

text \<open>What a history of events says: the configuration stored last, the events since then, and the connections that
  messages were fetched through.\<close>

fun is_reload :: "consumer_event \<Rightarrow> bool" where
  "is_reload (Reloads _ _) = True"
| "is_reload _ = False"

definition last_stored :: "yaml \<Rightarrow> consumer_event list \<Rightarrow> yaml" where
  "last_stored cfg es = foldl (\<lambda>c e. case e of Reloads c' _ \<Rightarrow> c' | _ \<Rightarrow> c) cfg es"

definition since_reload :: "consumer_event list \<Rightarrow> consumer_event list" where
  "since_reload es = rev (takeWhile (\<lambda>e. \<not> is_reload e) (rev es))"

definition since_stop :: "consumer_event list \<Rightarrow> consumer_event list" where
  "since_stop es = tl (dropWhile (\<lambda>e. e \<noteq> ShutsDown) es)"

definition fetches_of :: "consumer_event list \<Rightarrow> (string list \<times> (string \<times> string) list) list" where
  "fetches_of es = concat (map (\<lambda>e. case e of Fetches f \<Rightarrow> [f] | _ \<Rightarrow> []) es)"

lemma history_snoc [simp]:
  "last_stored cfg (es @ [e]) = (case e of Reloads c' _ \<Rightarrow> c' | _ \<Rightarrow> last_stored cfg es)"
  "since_reload (es @ [e]) = (if is_reload e then [] else since_reload es @ [e])"
  "since_stop (es @ [e]) = (if ShutsDown \<in> set es then since_stop es @ [e] else [])"
  "fetches_of (es @ [e]) = fetches_of es @ (case e of Fetches f \<Rightarrow> [f] | _ \<Rightarrow> [])"
proof -
  show "since_stop (es @ [e]) = (if ShutsDown \<in> set es then since_stop es @ [e] else [])"
  proof (cases "ShutsDown \<in> set es")
    case True
    then have "dropWhile (\<lambda>e. e \<noteq> ShutsDown) es \<noteq> []" by (auto simp: dropWhile_eq_Nil_conv)
    with True show ?thesis by (auto simp: since_stop_def dropWhile_append1)
  next
    case False
    then have "dropWhile (\<lambda>e. e \<noteq> ShutsDown) (es @ [e]) = dropWhile (\<lambda>e. e \<noteq> ShutsDown) [e]"
      by (intro dropWhile_append2) auto
    with False show ?thesis by (simp add: since_stop_def)
  qed
qed (auto simp: last_stored_def since_reload_def fetches_of_def split: consumer_event.split)

lemma history_nil [simp]: "last_stored cfg [] = cfg" "since_reload [] = []" "since_stop [] = []" "fetches_of [] = []"
  by (simp_all add: last_stored_def since_reload_def since_stop_def fetches_of_def)

lemma since_reload_all: "\<not> (\<exists>e\<in>set es. is_reload e) \<Longrightarrow> since_reload es = es"
  by (metis since_reload_def rev_rev_ident set_rev takeWhile_eq_all_conv)

text \<open>The fetches since the last reload that must use the configuration stored last: all but the first, which may have been
  under way; all of them if there was no reload.\<close>

definition settled :: "consumer_event list \<Rightarrow> (string list \<times> (string \<times> string) list) list" where
  "settled es = (if \<exists>e\<in>set es. is_reload e then tl (fetches_of (since_reload es)) else fetches_of (since_reload es))"

text \<open>While the flag is set, what the thread uses was read from the stored configuration. Before a fetch with the flag cleared
  there was no fetch since the reload; before a fetch with a request to stop, none since the request.\<close>

definition consumer_inv :: "yaml_lib \<Rightarrow> kafka_lib \<Rightarrow> string \<Rightarrow> yaml \<Rightarrow> consumer_event list \<Rightarrow> kafka_consumer \<Rightarrow> bool" where
  "consumer_inv Y K host cfg es kc \<longleftrightarrow>
     stored_config kc = last_stored cfg es \<and> (shutting_down kc \<longleftrightarrow> ShutsDown \<in> set es) \<and>
     (kc_pc kc \<in> {Subscribe, Poll, Fetch, Consume} \<longrightarrow> config_valid kc \<noteq> None \<and>
       (config_valid kc = Some True \<longrightarrow> read_consumer_config Y K host (last_stored cfg es) = Inr (kc_topics kc, kc_conf kc))) \<and>
     (\<forall>f\<in>set (settled es). read_consumer_config Y K host (last_stored cfg es) = Inr f) \<and>
     (config_valid kc \<noteq> Some True \<and> kc_pc kc = Fetch \<longrightarrow> (\<exists>e\<in>set es. is_reload e) \<and> fetches_of (since_reload es) = []) \<and>
     (\<not> (\<exists>e\<in>set es. is_reload e) \<longrightarrow> config_valid kc = Some True \<or> kc_pc kc \<in> {Configure, Stopped}) \<and>
     length (fetches_of (since_stop es)) \<le> 1 \<and> (shutting_down kc \<and> kc_pc kc = Fetch \<longrightarrow> fetches_of (since_stop es) = [])"

lemma fetch_settled:
  assumes "\<forall>f\<in>set (settled es). P f" and "P f \<or> (\<exists>e\<in>set es. is_reload e) \<and> fetches_of (since_reload es) = []"
  shows "\<forall>g\<in>set (settled (es @ [Fetches f])). P g"
  using assms by (cases "fetches_of (since_reload es)") (auto simp: settled_def split: if_splits)

lemma settled_other:
  "(case e of Fetches _ \<Rightarrow> False | _ \<Rightarrow> True) \<Longrightarrow> settled (es @ [e]) = (if is_reload e then [] else settled es)"
  by (cases e) (auto simp: settled_def)

lemma thread_keeps_consumer_inv:
  assumes "consumer_inv Y K host cfg es kc" and "consumer_step Y K L host ch m kc st = Inr (kc', st')" and "kc_pc kc \<noteq> Fetch"
  shows "consumer_inv Y K host cfg (es @ [ThreadRuns]) kc'"
  using assms
  by (cases "kc_pc kc")
    (auto simp: consumer_step_def consumer_inv_def settled_other rbind_eq_Inr_iff split: if_splits option.splits)

lemma fetch_keeps_consumer_inv:
  assumes inv: "consumer_inv Y K host cfg es kc" and step: "consumer_step Y K L host ch m kc st = Inr (kc', st')" and pc: "kc_pc kc = Fetch"
  shows "consumer_inv Y K host cfg (es @ [Fetches (kc_topics kc, kc_conf kc)]) kc'"
proof -
  let ?f = "(kc_topics kc, kc_conf kc)"
  have "read_consumer_config Y K host (last_stored cfg es) = Inr ?f \<or> (\<exists>e\<in>set es. is_reload e) \<and> fetches_of (since_reload es) = []"
    using inv pc by (auto simp: consumer_inv_def)
  then have "\<forall>g\<in>set (settled (es @ [Fetches ?f])). read_consumer_config Y K host (last_stored cfg es) = Inr g"
    using inv by (intro fetch_settled) (auto simp: consumer_inv_def)
  then show ?thesis using inv step pc by (auto simp: consumer_step_def consumer_inv_def)
qed

interpretation consumer: trace_invariant "consumer_move Y K L host" "\<lambda>es s. consumer_inv Y K host cfg es (fst s)" for Y K L host cfg
proof
  fix es s e s'
  assume inv: "consumer_inv Y K host cfg es (fst s)" and step: "consumer_move Y K L host s e s'"
  from step show "consumer_inv Y K host cfg (es @ [e]) (fst s')"
  proof cases
    case thread_runs
    with inv show ?thesis by (simp add: thread_keeps_consumer_inv)
  next
    case fetches
    with inv show ?thesis by (simp add: fetch_keeps_consumer_inv)
  next
    case (reloads kc st c b st1)
    with inv show ?thesis by (simp add: consumer_inv_def settled_other KafkaConsumer_reload_config_def)
  next
    case (shuts_down kc st)
    with inv show ?thesis
      by (cases "ShutsDown \<in> set es") (simp_all add: consumer_inv_def settled_other KafkaConsumer_shutdown_def)
  qed
qed

text \<open>C27: The consumer works with the configuration it was last given. At every moment of every interleaving of its
  thread with reloads and the request to stop: every message fetched so far since the last reload came through a connection with the
  topic and the settings of the configuration that was stored then, except possibly the first, whose fetch may have been under way
  when the reload came; before a first reload there is no exception. After the request to stop at most one message is fetched.
  When a message is to be handled the flag the loop tests has been set, although the constructor leaves it undefined.\<close>

theorem consumer_uses_stored_configuration:
  assumes "run (consumer_move Y K L host) (new_kafka_consumer cfg b, st0) es (kc, st)"
  shows "stored_config kc = last_stored cfg es \<and>
    (\<forall>f\<in>set (if \<exists>e\<in>set es. is_reload e then tl (fetches_of (since_reload es)) else fetches_of es).
       read_consumer_config Y K host (last_stored cfg es) = Inr f) \<and>
    length (fetches_of (since_stop es)) \<le> 1 \<and>
    (kc_pc kc \<in> {Poll, Fetch, Consume} \<longrightarrow> config_valid kc \<noteq> None)"
proof -
  have "consumer_inv Y K host cfg es (fst (kc, st))"
    by (rule consumer.inv_run [OF assms]) (simp add: consumer_inv_def new_kafka_consumer_def settled_def)
  then show ?thesis using since_reload_all [of es] by (auto simp: consumer_inv_def settled_def split: if_splits)
qed

text \<open>C28: The consumer's thread reacts. Wherever the thread stands when the configuration is reloaded, whatever messages arrive, if
  handling them does not end the process and the library accepts the new configuration (and the one with which the thread is just about to
  connect), after five of its steps it is subscribed according to the new configuration and reports to the new Banjax.
  Wherever it stands when it is told to stop, it has ended after five steps, so that \<open>shutdown\<close> returns.\<close>

theorem consumer_reacts_within_five_steps:
  fixes st :: "'s challenger_state_scheme"
  assumes "kc_pc kc \<noteq> Stopped" and "\<not> shutting_down kc"
    and "read_consumer_config Y K host cfg = Inr (topics, conf)"
    and "consumer_create K conf" "consumer_subscribe K topics"
    and "kc_pc kc = Subscribe \<longrightarrow> consumer_create K (kc_conf kc) \<and> consumer_subscribe K (kc_topics kc)"
    and "kc_pc kc = Consume \<longrightarrow> kc_message kc = Some m" and "length ms = 5"
    and "\<forall>m\<in>insert m (set ms). \<forall>s :: 's challenger_state_scheme. \<exists>s'. msg_consume Y K L challenger m s = Inr s'"
  shows "(\<exists>kc' st'. consumer_steps Y K L host challenger ms (KafkaConsumer_reload_config cfg b kc) st = Inr (kc', st') \<and>
      kc_pc kc' \<in> {Poll, Fetch, Consume} \<and> kc_topics kc' = topics \<and> kc_conf kc' = conf \<and> kc_banjax kc' = b \<and> config_valid kc' = Some True) \<and>
    (\<exists>kc' st'. consumer_steps Y K L host challenger ms (KafkaConsumer_shutdown kc) st = Inr (kc', st') \<and>
      kc_pc kc' = Stopped)"
proof -
  from assms(8) obtain m1 m2 m3 m4 m5 where ms: "ms = [m1, m2, m3, m4, m5]"
    by (auto simp: length_Suc_conv numeral_eq_Suc)
  obtain h where "\<forall>m\<in>insert m (set ms). \<forall>s :: 's challenger_state_scheme. msg_consume Y K L challenger m s = Inr (h m s)"
    using assms(9) by metis
  then have "msg_consume Y K L challenger m s = Inr (h m s)" "msg_consume Y K L challenger m1 s = Inr (h m1 s)"
    "msg_consume Y K L challenger m2 s = Inr (h m2 s)" "msg_consume Y K L challenger m3 s = Inr (h m3 s)"
    "msg_consume Y K L challenger m4 s = Inr (h m4 s)" "msg_consume Y K L challenger m5 s = Inr (h m5 s)" for s by (simp_all add: ms)
  then show ?thesis
    using assms(1-7)
    by (cases "kc_pc kc")
      (simp_all add: consumer_step_def KafkaConsumer_reload_config_def KafkaConsumer_shutdown_def ms)
qed

section \<open>Properties of the commands\<close>

lemma drop_expired_eq:
  "drop_expired (Some secs) now m = Inr (filter (\<lambda>(k, c). \<not> now - time_added c > secs) m)"
  by (induction m) auto

lemma map_of_filter_value:
  "distinct (map fst m) \<Longrightarrow> map_of (filter (\<lambda>(k, c). P c) m) k = (case map_of m k of Some c \<Rightarrow> if P c then Some c else None | None \<Rightarrow> None)"
  by (induction m) (auto simp: map_of_eq_None_iff image_iff split: option.splits)

lemma parse_single_challenge_time:
  "parse_single_challenge Y L dir ch w = Inr (spec, w') \<Longrightarrow> time_added spec = fst (clock w (tick w)) \<and> w' = w\<lparr>tick := Suc (tick w)\<rparr>"
  by (auto simp: parse_single_challenge_def world_simps Let_def rbind_eq_Inr_iff)

text \<open>The request to challenge a host, as it arrives.\<close>

definition commands :: "kafka_lib \<Rightarrow> kafka_message \<Rightarrow> string \<Rightarrow> string \<Rightarrow> bool" where
  "commands K m nm v \<longleftrightarrow>
     msg_err m = ERR_NO_ERROR \<and>
     (case payload_text m of
        Inr text \<Rightarrow> (case json_parse K text of Some j \<Rightarrow> name_value j = Some (nm, v) | None \<Rightarrow> False)
      | Inl _ \<Rightarrow> False)"

lemma msg_consume_command:
  assumes "commands K m nm v" and "locks st (tick st)"
  shows "\<exists>j. name_value j = Some (nm, v) \<and>
    msg_consume Y K L ch m st = kafka_message_consume Y L ch j (st\<lparr>tick := Suc (tick st)\<rparr>)"
  using assms by (auto simp: commands_def msg_consume_def world_simps split: sum.splits option.splits)

text \<open>A command can end the process. A challenger without a section for dynamic challenges is an
  accepted configuration; yet the first well-formed command to challenge a host, or an address, that
  the consumer handles makes the thread read the missing section, and the exception leaves the thread,
  which nothing catches.\<close>

theorem command_without_dynamic_section_ends_the_process:
  assumes "Challenger_load_config Y L dir wl b cfg w = Inr (C, w')"
    and "ysub cfg ''dynamic_challenger_config'' = Inr YUndefined"
    and "as_string Y YUndefined = Inl YamlRepresentation"
    and "commands K m nm v" and "nm \<in> {''challenge_host'', ''challenge_ip''}"
    and "locks st (tick st)" and "kc_pc kc = Consume" and "kc_message kc = Some m"
  shows "consumer_step Y K L host (Some C) m' kc st = Inl YamlRepresentation"
proof -
  from assms(1) have cfg: "ch_cfg C = cfg"
    by (auto simp: Challenger_load_config_def rbind_eq_Inr_iff)
  have "parse_single_challenge Y L (banjax_dir C) YUndefined st' = Inl YamlRepresentation" for st' :: "'b challenger_state_scheme"
    using assms(3) by (simp add: parse_single_challenge_def field_def ysub_def to_map_def world_simps)
  with cfg assms(2) have load: "load_single_host_challenge Y L C v st' = Inl YamlRepresentation"
    "load_single_ip_challenge Y L C v st' = Inl YamlRepresentation" for st' :: "'b challenger_state_scheme"
    by (simp_all add: load_single_host_challenge_def load_single_ip_challenge_def)
  from msg_consume_command [OF assms(4,6)] obtain j where "name_value j = Some (nm, v)"
    "msg_consume Y K L (Some C) m st = kafka_message_consume Y L (Some C) j (st\<lparr>tick := Suc (tick st)\<rparr>)" by metis
  with assms(5) load have "msg_consume Y K L (Some C) m st = Inl YamlRepresentation"
    by (auto simp: kafka_message_consume_def case_prod_beta)
  with assms(7,8) show ?thesis by (simp add: consumer_step_def)
qed

section \<open>Examples\<close>

definition sample_kafka :: kafka_lib where
  "sample_kafka =
     \<lparr>conf_set = (\<lambda>_ _. True), producer_create = (\<lambda>_. True), consumer_create = (\<lambda>_. True), consumer_subscribe = (\<lambda>_. True),
      json_parse = (\<lambda>s. Some (JObject [(''name'', JString ''challenge_host''), (''value'', JString s)]))\<rparr>"

definition sample_message :: "kafka_error \<Rightarrow> kafka_message" where
  "sample_message e = \<lparr>msg_err = e, payload = Some ''d'', behind = [NUL]\<rparr>"

definition sample_kafka_conf :: yaml where
  "sample_kafka_conf = YMap ((''command_topic'', YScalar ''t'') # (''report_topic'', YScalar ''r'') # map (\<lambda>f. (f, YNull)) kafka_fields)"

definition sample_dynamic :: yaml where
  "sample_dynamic = YMap [(''name'', YScalar ''n''), (''challenge_type'', YScalar ''captcha''), (''validity_period'', YScalar ''60'')]"

lemma sample_commands: "commands sample_kafka (sample_message ERR_NO_ERROR) ''challenge_host'' ''d''"
  by (simp add: commands_def sample_kafka_def sample_message_def payload_text_def name_value_def cstr_def)

lemma sample_read_consumer_config:
  "read_consumer_config sample_yaml sample_kafka ''edge'' sample_kafka_conf = Inr ([''t''], [(''group.id'', ''edge'')])"
  by (simp add: read_consumer_config_def sample_kafka_conf_def kafka_fields_def set_single_config_field_def field_def ysub_def
      to_map_def IsMap_def IsDefined_def sample_yaml_def sample_kafka_def)

lemma run_thread:
  assumes "run (consumer_move Y K L host) s es (kc, st)" and "consumer_step Y K L host ch m kc st = Inr (kc', st')"
  shows "run (consumer_move Y K L host) s (es @ [if kc_pc kc = Fetch then Fetches (kc_topics kc, kc_conf kc) else ThreadRuns]) (kc', st')"
  by (rule run_snoc [where step = "consumer_move Y K L host", OF assms(1)])
    (auto intro: consumer_move.thread_runs [OF assms(2)] consumer_move.fetches [OF assms(2)])

text \<open>A thread that fetches a message.\<close>

theorem consumer_uses_stored_configuration_witness:
  "\<exists>es kc. run (consumer_move sample_yaml sample_kafka sample_lib ''edge'') (new_kafka_consumer sample_kafka_conf 1, sample_state)
       es (kc, sample_state) \<and> fetches_of es = [([''t''], [(''group.id'', ''edge'')])] \<and>
     (\<forall>f\<in>set (fetches_of es). read_consumer_config sample_yaml sample_kafka ''edge'' sample_kafka_conf = Inr f)"
proof -
  let ?kc0 = "new_kafka_consumer sample_kafka_conf 1" and ?m = "sample_message ERR__TIMED_OUT"
  let ?kc1 = "?kc0\<lparr>kc_pc := Subscribe, config_valid := Some True, kc_topics := [''t''], kc_conf := [(''group.id'', ''edge'')]\<rparr>"
  let ?kc2 = "?kc1\<lparr>kc_pc := Poll\<rparr>" let ?kc3 = "?kc1\<lparr>kc_pc := Fetch\<rparr>" let ?kc4 = "?kc1\<lparr>kc_pc := Consume, kc_message := Some ?m\<rparr>"
  let ?step = "consumer_step sample_yaml sample_kafka sample_lib ''edge'' None ?m"
  have s: "?step ?kc0 sample_state = Inr (?kc1, sample_state)" "?step ?kc1 sample_state = Inr (?kc2, sample_state)"
    "?step ?kc2 sample_state = Inr (?kc3, sample_state)" "?step ?kc3 sample_state = Inr (?kc4, sample_state)"
    by (simp_all add: consumer_step_def new_kafka_consumer_def sample_read_consumer_config) (simp add: sample_kafka_def)
  let ?R = "run (consumer_move sample_yaml sample_kafka sample_lib ''edge'') (?kc0, sample_state)"
  let ?es = "[ThreadRuns, ThreadRuns, ThreadRuns, Fetches ([''t''], [(''group.id'', ''edge'')])]"
  have "?R [] (?kc0, sample_state)" by (rule run_nil)
  from run_thread [OF run_thread [OF run_thread [OF run_thread [OF this s(1)] s(2)] s(3)] s(4)]
  have r: "?R ?es (?kc4, sample_state)" by (simp add: new_kafka_consumer_def)
  have f: "fetches_of ?es = [([''t''], [(''group.id'', ''edge'')])]" and l: "last_stored sample_kafka_conf ?es = sample_kafka_conf"
    and n: "\<not> (\<exists>e\<in>set ?es. is_reload e)"
    by (simp_all add: fetches_of_def last_stored_def)
  from consumer_uses_stored_configuration [OF r, unfolded l if_not_P [OF n]]
  have "\<forall>f\<in>set (fetches_of ?es). read_consumer_config sample_yaml sample_kafka ''edge'' sample_kafka_conf = Inr f" by (elim conjE)
  with r f show ?thesis by (intro exI conjI)
qed

text \<open>A reload that finds the thread about to fetch, while commands arrive.\<close>

theorem consumer_reacts_within_five_steps_witness:
  "\<exists>kc' st'. consumer_steps sample_yaml sample_kafka sample_lib ''edge'' None (replicate 5 (sample_message ERR_NO_ERROR))
       (KafkaConsumer_reload_config sample_kafka_conf 2 ((new_kafka_consumer YNull 1)\<lparr>kc_pc := Fetch\<rparr>)) sample_state = Inr (kc', st') \<and>
     kc_topics kc' = [''t''] \<and> kc_banjax kc' = 2"
proof -
  let ?m = "sample_message ERR_NO_ERROR" and ?kc = "(new_kafka_consumer YNull 1)\<lparr>kc_pc := Fetch\<rparr>"
  have "\<exists>s'. msg_consume sample_yaml sample_kafka sample_lib None ?m s = Inr s'" for s :: challenger_state
    by (simp add: msg_consume_def world_simps sample_message_def payload_text_def sample_kafka_def kafka_message_consume_def
        split: option.split)
  then have "\<forall>m\<in>insert ?m (set (replicate 5 ?m)). \<forall>s :: challenger_state. \<exists>s'. msg_consume sample_yaml sample_kafka sample_lib None m s = Inr s'"
    by simp
  then show ?thesis
    using consumer_reacts_within_five_steps [OF _ _ sample_read_consumer_config, where kc = ?kc and m = ?m and ms = "replicate 5 ?m"
        and L = sample_lib and challenger = None and st = sample_state and b = 2]
    by (auto simp: new_kafka_consumer_def sample_kafka_def simp del: consumer_steps.simps)
qed

definition sample_dynamic_challenger :: challenger where
  "sample_dynamic_challenger = sample_challenger\<lparr>ch_cfg := YMap [(''dynamic_challenger_config'', sample_dynamic)]\<rparr>"

definition sample_dynamic_spec :: host_challenge_spec where
  "sample_dynamic_spec =
     sample_spec\<lparr>challenge_stream := ''$token $time $url $zeros'', fail_tolerance_threshold := 0, time_added := 5\<rparr>"

lemma sample_dynamic_parsed:
  "parse_single_challenge sample_yaml sample_lib [] sample_dynamic (sample_state\<lparr>tick := Suc (tick sample_state)\<rparr>) =
     Inr (sample_dynamic_spec, sample_state\<lparr>tick := 2\<rparr>)"
proof -
  have "stoi ''60'' = Inr 60" by code_simp
  then show ?thesis
    by (simp add: parse_single_challenge_def sample_dynamic_def field_def field_or_def ysub_def to_map_def IsDefined_def sample_yaml_def
        sample_lib_def sample_state_def world_simps challenge_type_of_def sample_dynamic_spec_def sample_spec_def numeral_2_eq_2)
qed

theorem command_without_dynamic_section_ends_the_process_witness:
  "\<exists>C. Challenger_load_config sample_yaml sample_lib [] None True (YMap [(''key'', YScalar ''k''), (''difficulty'', YScalar ''8'')]) sample_state =
       Inr (C, sample_state) \<and>
     consumer_step sample_yaml sample_kafka sample_lib ''edge'' (Some C) (sample_message ERR__TIMED_OUT)
       ((new_kafka_consumer YNull 1)\<lparr>kc_pc := Consume, kc_message := Some (sample_message ERR_NO_ERROR)\<rparr>) sample_state = Inl YamlRepresentation"
proof -
  let ?cfg = "YMap [(''key'', YScalar ''k''), (''difficulty'', YScalar ''8'')]"
  have "stoi ''8'' = Inr 8" by code_simp
  then obtain C where C: "Challenger_load_config sample_yaml sample_lib [] None True ?cfg sample_state = Inr (C, sample_state)"
    by (simp add: Challenger_load_config_def ysub_def to_map_def field_def load_dynamic_def sample_yaml_def yelems_def)
  have s: "ysub ?cfg ''dynamic_challenger_config'' = Inr YUndefined" "as_string sample_yaml YUndefined = Inl YamlRepresentation"
    "locks sample_state (tick sample_state)"
    by (simp_all add: ysub_def to_map_def sample_yaml_def sample_state_def)
  show ?thesis
    using command_without_dynamic_section_ends_the_process [OF C s(1,2) sample_commands _ s(3),
        of "(new_kafka_consumer YNull 1)\<lparr>kc_pc := Consume, kc_message := Some (sample_message ERR_NO_ERROR)\<rparr>" "''edge''"
          "sample_message ERR__TIMED_OUT"] C by auto
qed

end
