(* ===== verification/CommandFlow.thy ===== *)
theory CommandFlow
  imports Kafka
begin

text \<open>
  The life of a challenge that a command has asked for: from the message on Kafka over the table of dynamic challenges, which
  requests, clean-ups and other commands use, to the decisions on the requests for the host.
\<close>

section \<open>What keeps the tables of dynamic challenges\<close>

definition challenge_tables ::
    "'s challenger_state_scheme \<Rightarrow> (string \<times> host_challenge_spec) list \<times> (string \<times> host_challenge_spec) list" where
  "challenge_tables st = (host_to_challenge_dynamic st, ip_to_challenge_dynamic st)"

lemma challenge_tables_tick [simp]: "challenge_tables (st\<lparr>tick := n\<rparr>) = challenge_tables st"
  by (simp add: challenge_tables_def)

lemma reports_only_tables: "reports_only st st' \<Longrightarrow> challenge_tables st' = challenge_tables st"
  by (auto simp: reports_only_def challenge_tables_def)

lemma ban_tables [simp]: "challenge_tables (ban ip r st) = challenge_tables st"
proof -
  have "swabber_state.more (ban ip r st) = swabber_state.more st" by simp
  then show ?thesis by (cases "ban ip r st"; cases st) (simp add: challenge_tables_def)
qed

lemma count_tables [simp]:
  "challenge_tables (set_count ip n st) = challenge_tables st" "challenge_tables (drop_count ip st) = challenge_tables st"
  "challenge_tables (report_success ip st) = challenge_tables st"
  by (simp_all add: challenge_tables_def report_success_def set_count_def drop_count_def set_ip_state_def drop_ip_def world_simps Let_def)

lemma report_if_tables [simp]: "challenge_tables (report_if C host ip p st) = challenge_tables st"
  using reports_only_tables [OF report_only(1) [of st host ip p]] by (simp add: report_if_def)

lemma get_ip_state_tables: "get_ip_state d ip db st = (r, st') \<Longrightarrow> challenge_tables st' = challenge_tables st"
  by (auto simp: get_ip_state_def world_simps split: if_splits option.splits)

lemma report_failure_tables:
  assumes "report_failure ch parts st = Inr (b, st')"
  shows "challenge_tables st' = challenge_tables st"
proof -
  from assms obtain ip host where "parts IP = Some ip" "parts HOST = Some host" by (auto simp: report_failure_def rbind_eq_Inr_iff)
  moreover obtain r st1 where g: "get_ip_state 0 ip (challenger_ip_db st) st = (r, st1)" by (cases "get_ip_state 0 ip (challenger_ip_db st) st")
  ultimately show ?thesis
    using assms get_ip_state_tables [OF g] by (cases r) (auto simp: report_failure_def part_at_def Let_def split: if_splits)
qed

lemma failure_response_tables: "failure_response ch ck parts st = Inr (resp, st') \<Longrightarrow> challenge_tables st' = challenge_tables st"
  by (auto simp: failure_response_def rbind_eq_Inr_iff dest!: report_failure_tables split: if_splits)

lemma check_cookie_tables: "check_cookie L C a parts ch st = Inr (ok, st') \<Longrightarrow> challenge_tables st' = challenge_tables st"
  using check_cookie_passes reports_only_tables by metis

lemma run_challenges_tables:
  "run_challenges L C parts host ip chs st = Inr (resp, st') \<Longrightarrow> challenge_tables st' = challenge_tables st"
proof (induction chs arbitrary: st)
  case (Cons ch chs)
  from Cons.prems show ?case
    by (cases "challenge_type ch")
      (auto simp: rbind_eq_Inr_iff Let_def split: if_splits dest!: check_cookie_tables failure_response_tables Cons.IH)
qed auto

lemma on_http_request_tables:
  "Challenger_on_http_request L C parts st = Inr (resp, st') \<Longrightarrow> challenge_tables st' = challenge_tables st"
  by (auto simp: Challenger_on_http_request_def select_challenges_def rbind_eq_Inr_iff world_simps Let_def
      simp del: run_challenges.simps dest!: run_challenges_tables split: option.splits if_splits)

text \<open>A message changes at most one entry, and one of the hosts only if it is a command for that host.\<close>

lemma msg_consume_tables:
  assumes "msg_consume Y K L (Some C) m st = Inr st'"
  shows "challenge_tables st' = challenge_tables st \<or>
    (\<exists>v spec. commands K m ''challenge_host'' v \<and>
       challenge_tables st' = (AList.update v spec (host_to_challenge_dynamic st), ip_to_challenge_dynamic st)) \<or>
    (\<exists>v spec. commands K m ''challenge_ip'' v \<and>
       challenge_tables st' = (host_to_challenge_dynamic st, AList.update v spec (ip_to_challenge_dynamic st)))"
proof (cases "locks st (tick st) \<and> (\<exists>nm v. nm \<in> {''challenge_host'', ''challenge_ip''} \<and> commands K m nm v)")
  case True
  then obtain nm v where nm: "nm \<in> {''challenge_host'', ''challenge_ip''}" and cm: "commands K m nm v" and l: "locks st (tick st)" by blast
  let ?st1 = "st\<lparr>tick := Suc (tick st)\<rparr>"
  from msg_consume_command [OF cm l] obtain j where j: "name_value j = Some (nm, v)"
    and r: "kafka_message_consume Y L (Some C) j ?st1 = Inr st'" using assms by metis
  show ?thesis
  proof (cases "nm = ''challenge_host''")
    case True
    with r j have "load_single_host_challenge Y L C v ?st1 = Inr st'" by (simp add: kafka_message_consume_def)
    then obtain spec where "challenge_tables st' = (AList.update v spec (host_to_challenge_dynamic st), ip_to_challenge_dynamic st)"
      by (auto simp: load_single_host_challenge_def rbind_eq_Inr_iff challenge_tables_def dest!: parse_single_challenge_time)
    with True cm show ?thesis by blast
  next
    case False
    let ?st2 = "snd (report_if_ip_in_database v ?st1)"
    have t2: "challenge_tables ?st2 = challenge_tables st" using reports_only_tables [OF report_only(4) [of ?st1 v]] by simp
    from False nm r j have "load_single_ip_challenge Y L C v ?st2 = Inr st'" by (simp add: kafka_message_consume_def case_prod_beta)
    then obtain spec where "challenge_tables st' = (host_to_challenge_dynamic ?st2, AList.update v spec (ip_to_challenge_dynamic ?st2))"
      by (auto simp: load_single_ip_challenge_def rbind_eq_Inr_iff challenge_tables_def dest!: parse_single_challenge_time)
    with False nm cm t2 show ?thesis by (auto simp: challenge_tables_def)
  qed
next
  case False
  have "st' = st\<lparr>tick := Suc (tick st)\<rparr>"
  proof (cases "locks st (tick st) \<and> msg_err m = ERR_NO_ERROR")
    case True
    with assms obtain s where s: "payload_text m = Inr s"
      and r: "(case json_parse K s of None \<Rightarrow> Inr (st\<lparr>tick := Suc (tick st)\<rparr>)
        | Some j \<Rightarrow> kafka_message_consume Y L (Some C) j (st\<lparr>tick := Suc (tick st)\<rparr>)) = Inr st'"
      by (auto simp: msg_consume_def world_simps rbind_eq_Inr_iff)
    with True False show ?thesis
      by (auto simp: kafka_message_consume_def commands_def split: option.splits if_splits)
  next
    case other: False
    with assms show ?thesis by (cases "msg_err m") (auto simp: msg_consume_def world_simps split: if_splits)
  qed
  then show ?thesis by simp
qed

section \<open>The life of a dynamic challenge\<close>

text \<open>What may happen to the tables: a request is served, the clean-up runs (at the time the event tells), a message is handled, or
  anything else that leaves the tables alone.\<close>

datatype challenge_event = Served | Cleaned int | Received kafka_message | Untouched

inductive challenge_step :: "yaml_lib \<Rightarrow> kafka_lib \<Rightarrow> challenge_lib \<Rightarrow> challenger \<Rightarrow>
    's challenger_state_scheme \<Rightarrow> challenge_event \<Rightarrow> 's challenger_state_scheme \<Rightarrow> bool"
  for Y K L C where
  serves: "Challenger_on_http_request L C parts st = Inr (resp, st') \<Longrightarrow> challenge_step Y K L C st Served st'"
| cleans: "remove_expired_challenges C st = Inr (n, st') \<Longrightarrow> challenge_step Y K L C st (Cleaned (fst (clock st (tick st)))) st'"
| receives: "msg_consume Y K L (Some C) m st = Inr st' \<Longrightarrow> challenge_step Y K L C st (Received m) st'"
| untouched: "challenge_tables st' = challenge_tables st \<Longrightarrow> challenge_step Y K L C st Untouched st'"

inductive_cases challenge_stepE: "challenge_step Y K L C st e st'"

text \<open>The clean-up removes exactly the entries that are older than the configured time.\<close>

definition tables_ok :: "'s challenger_state_scheme \<Rightarrow> bool" where
  "tables_ok st \<longleftrightarrow> distinct (map fst (host_to_challenge_dynamic st)) \<and> distinct (map fst (ip_to_challenge_dynamic st))"

definition unexpired :: "int \<Rightarrow> int \<Rightarrow> host_challenge_spec option \<Rightarrow> host_challenge_spec option" where
  "unexpired secs now e = (case e of Some c \<Rightarrow> if now - time_added c > secs then None else Some c | None \<Rightarrow> None)"

lemma clean_up_effect:
  assumes "tables_ok st" and "dynamic_expiry_seconds C = Some secs"
  shows "\<exists>st'. remove_expired_challenges C st = Inr (0, st') \<and> tables_ok st' \<and>
    map_of (host_to_challenge_dynamic st') = (\<lambda>k. unexpired secs (fst (clock st (tick st))) (map_of (host_to_challenge_dynamic st) k)) \<and>
    map_of (ip_to_challenge_dynamic st') = (\<lambda>k. unexpired secs (fst (clock st (tick st))) (map_of (ip_to_challenge_dynamic st) k))"
proof -
  have d: "distinct (map fst (filter P m))" if "distinct (map fst m)" for P and m :: "(string \<times> host_challenge_spec) list"
    using that by (rule distinct_map_filter)
  have "map_of (filter (\<lambda>(k, c). \<not> secs < now - time_added c) m) = (\<lambda>k. unexpired secs now (map_of m k))"
    if "distinct (map fst m)" for now and m :: "(string \<times> host_challenge_spec) list"
    using map_of_filter_value [OF that, of "\<lambda>c. \<not> secs < now - time_added c"]
    by (auto simp: fun_eq_iff unexpired_def split: option.split)
  with assms d show ?thesis
    by (simp add: remove_expired_challenges_def world_simps drop_expired_eq tables_ok_def)
qed

text \<open>The challenge of a host stays in force until a clean-up after its time or another command for the host.\<close>

definition in_force :: "kafka_lib \<Rightarrow> int \<Rightarrow> string \<Rightarrow> host_challenge_spec \<Rightarrow> challenge_event list \<Rightarrow> 's challenger_state_scheme \<Rightarrow> bool" where
  "in_force K secs h spec es st \<longleftrightarrow> tables_ok st \<and>
     ((\<forall>m. Received m \<in> set es \<longrightarrow> \<not> commands K m ''challenge_host'' h) \<longrightarrow>
      (\<forall>t. Cleaned t \<in> set es \<longrightarrow> t - time_added spec \<le> secs) \<longrightarrow> map_of (host_to_challenge_dynamic st) h = Some spec)"

lemma in_force_tables:
  "challenge_tables st' = challenge_tables st \<Longrightarrow> in_force K secs h spec es st \<Longrightarrow> in_force K secs h spec (es @ [e]) st'"
  by (auto simp: in_force_def tables_ok_def challenge_tables_def)

lemma in_force_step:
  assumes "dynamic_expiry_seconds C = Some secs" and inv: "in_force K secs h spec es st" and step: "challenge_step Y K L C st e st'"
  shows "in_force K secs h spec (es @ [e]) st'"
  using step
proof cases
  case serves
  from in_force_tables [OF on_http_request_tables [OF this(2)] inv] show ?thesis .
next
  case (cleans n)
  from inv have ok: "tables_ok st" by (simp add: in_force_def)
  from clean_up_effect [OF this assms(1)] cleans(2) have t: "tables_ok st'"
    "map_of (host_to_challenge_dynamic st') h = unexpired secs (fst (clock st (tick st))) (map_of (host_to_challenge_dynamic st) h)" by auto
  with inv cleans(1) show ?thesis by (auto simp: in_force_def unexpired_def)
next
  case (receives m)
  from msg_consume_tables [OF receives(2)] inv receives(1) show ?thesis
    by (auto simp: in_force_def tables_ok_def challenge_tables_def distinct_update update_conv')
next
  case untouched
  from in_force_tables [OF this(2) inv] show ?thesis .
qed

text \<open>The dynamic challenge of a host without challenges of its own decides.\<close>

lemma dynamic_challenge_decides:
  assumes "Challenger_on_http_request L C parts st = Inr (resp, st')" and "parts HOST = Some h" and "parts IP = Some ip"
    and "host_challenges_static C h = None" and "locks st (tick st)" and "map_of (host_to_challenge_dynamic st) h = Some spec"
  shows "decision_sound L C parts ip (clock st) [spec] resp"
  using assms
  by (auto simp: Challenger_on_http_request_def select_challenges_def part_at_def rbind_eq_Inr_iff world_simps
      simp del: run_challenges.simps dest!: run_challenges_sound split: option.splits)

text \<open>C15: A command takes effect until it expires. A message that asks to challenge a host without
  challenges of its own in the configuration, received while the lock is free, with a usable section for dynamic challenges and a
  configured expiry, adds a challenge for that host, dated now, and changes no other entry of either table.
  From then on, whatever requests are served, commands for others arrive and clean-ups run, as long as there is no other
  command for the host and no clean-up after the configured time, every request for the host that finds the
  table unlocked is decided by this challenge. Each clean-up removes exactly the entries of both tables that are older than the
  configured time, so the challenge is gone with the first one afterwards.\<close>

theorem command_is_enforced_until_expiry:
  assumes "commands K m ''challenge_host'' h" and "locks st (tick st)"
    and "ysub (ch_cfg C) ''dynamic_challenger_config'' = Inr dyn"
    and "parse_single_challenge Y L (banjax_dir C) dyn (st\<lparr>tick := Suc (tick st)\<rparr>) = Inr (spec, st0)"
    and "tables_ok st" and "host_challenges_static C h = None" and "dynamic_expiry_seconds C = Some secs"
  shows "\<exists>st1. msg_consume Y K L (Some C) m st = Inr st1 \<and> time_added spec = fst (clock st (Suc (tick st))) \<and>
    map_of (host_to_challenge_dynamic st1) = (map_of (host_to_challenge_dynamic st))(h \<mapsto> spec) \<and>
    ip_to_challenge_dynamic st1 = ip_to_challenge_dynamic st \<and>
    (\<forall>es st2. run (challenge_step Y K L C) st1 es st2 \<longrightarrow>
       (\<forall>m'. Received m' \<in> set es \<longrightarrow> \<not> commands K m' ''challenge_host'' h) \<longrightarrow>
       (\<forall>t. Cleaned t \<in> set es \<longrightarrow> t - time_added spec \<le> secs) \<longrightarrow>
       (\<forall>parts ip resp st3. parts HOST = Some h \<longrightarrow> parts IP = Some ip \<longrightarrow> locks st2 (tick st2) \<longrightarrow>
          Challenger_on_http_request L C parts st2 = Inr (resp, st3) \<longrightarrow> decision_sound L C parts ip (clock st2) [spec] resp) \<and>
       (\<exists>st3. remove_expired_challenges C st2 = Inr (0, st3) \<and>
          map_of (host_to_challenge_dynamic st2) h = Some spec \<and>
          (\<forall>k. map_of (host_to_challenge_dynamic st3) k = unexpired secs (fst (clock st2 (tick st2))) (map_of (host_to_challenge_dynamic st2) k)) \<and>
          (\<forall>k. map_of (ip_to_challenge_dynamic st3) k = unexpired secs (fst (clock st2 (tick st2))) (map_of (ip_to_challenge_dynamic st2) k))))"
proof -
  let ?st1 = "st\<lparr>tick := Suc (Suc (tick st)), host_to_challenge_dynamic := AList.update h spec (host_to_challenge_dynamic st)\<rparr>"
  from parse_single_challenge_time [OF assms(4)] have t: "time_added spec = fst (clock st (Suc (tick st)))"
    and st0: "st0 = st\<lparr>tick := Suc (Suc (tick st))\<rparr>" by simp_all
  from msg_consume_command [OF assms(1,2)] obtain j where "name_value j = Some (''challenge_host'', h)"
    "msg_consume Y K L (Some C) m st = kafka_message_consume Y L (Some C) j (st\<lparr>tick := Suc (tick st)\<rparr>)" by metis
  then have c: "msg_consume Y K L (Some C) m st = Inr ?st1"
    using assms(3,4) by (simp add: kafka_message_consume_def load_single_host_challenge_def st0)
  have start: "in_force K secs h spec [] ?st1"
    using assms(5) by (simp add: in_force_def tables_ok_def distinct_update update_conv')
  have "(\<forall>parts ip resp st3. parts HOST = Some h \<longrightarrow> parts IP = Some ip \<longrightarrow> locks st2 (tick st2) \<longrightarrow>
        Challenger_on_http_request L C parts st2 = Inr (resp, st3) \<longrightarrow> decision_sound L C parts ip (clock st2) [spec] resp) \<and>
      (\<exists>st3. remove_expired_challenges C st2 = Inr (0, st3) \<and> map_of (host_to_challenge_dynamic st2) h = Some spec \<and>
        (\<forall>k. map_of (host_to_challenge_dynamic st3) k = unexpired secs (fst (clock st2 (tick st2))) (map_of (host_to_challenge_dynamic st2) k)) \<and>
        (\<forall>k. map_of (ip_to_challenge_dynamic st3) k = unexpired secs (fst (clock st2 (tick st2))) (map_of (ip_to_challenge_dynamic st2) k)))"
    if run: "run (challenge_step Y K L C) ?st1 es st2" and "\<forall>m'. Received m' \<in> set es \<longrightarrow> \<not> commands K m' ''challenge_host'' h"
      and "\<forall>t. Cleaned t \<in> set es \<longrightarrow> t - time_added spec \<le> secs" for es st2
  proof -
    have "in_force K secs h spec es st2"
      using run start by (induction rule: run.induct) (auto intro: in_force_step [OF assms(7)])
    with that have h: "map_of (host_to_challenge_dynamic st2) h = Some spec" and ok: "tables_ok st2" by (auto simp: in_force_def)
    from clean_up_effect [OF ok assms(7)] h dynamic_challenge_decides [OF _ _ _ assms(6) _ h] show ?thesis by auto
  qed
  with c t show ?thesis by (intro exI [of _ ?st1]) (simp add: update_conv')
qed

text \<open>A command at time 5, then some time passes and a clean-up comes.\<close>

theorem command_is_enforced_until_expiry_witness:
  "\<exists>st1 st3. msg_consume sample_yaml sample_kafka sample_lib (Some sample_dynamic_challenger) (sample_message ERR_NO_ERROR) sample_state = Inr st1 \<and>
     map_of (host_to_challenge_dynamic st1) = [''d'' \<mapsto> sample_dynamic_spec] \<and>
     remove_expired_challenges sample_dynamic_challenger (st1\<lparr>tick := 9\<rparr>) = Inr (0, st3) \<and>
     map_of (host_to_challenge_dynamic st3) ''d'' = unexpired 100 (fst (clock st1 9)) (Some sample_dynamic_spec)"
proof -
  have c: "ysub (ch_cfg sample_dynamic_challenger) ''dynamic_challenger_config'' = Inr sample_dynamic"
    "banjax_dir sample_dynamic_challenger = []" "host_challenges_static sample_dynamic_challenger ''d'' = None"
    "dynamic_expiry_seconds sample_dynamic_challenger = Some 100"
    by (simp_all add: sample_dynamic_challenger_def sample_challenger_def ysub_def to_map_def)
  have s: "locks sample_state (tick sample_state)" "tables_ok sample_state" "host_to_challenge_dynamic sample_state = []"
    by (simp_all add: sample_state_def tables_ok_def)
  have m: "map_of (host_to_challenge_dynamic sample_state) = Map.empty" using s(3) by simp
  show ?thesis
    using command_is_enforced_until_expiry [OF sample_commands s(1) c(1), unfolded c(2) m, OF sample_dynamic_parsed s(2) c(3,4)]
  proof (elim exE conjE, goal_cases)
    case (1 st1)
    have step: "challenge_step sample_yaml sample_kafka sample_lib sample_dynamic_challenger st1 Untouched (st1\<lparr>tick := 9\<rparr>)"
      by (rule untouched) simp
    have run: "run (challenge_step sample_yaml sample_kafka sample_lib sample_dynamic_challenger) st1 [Untouched] (st1\<lparr>tick := 9\<rparr>)"
      using run_snoc [where step = "challenge_step sample_yaml sample_kafka sample_lib sample_dynamic_challenger", OF run_nil step] by simp
    from 1(5) [THEN spec, THEN spec, THEN mp, OF run] obtain st3 where
      "remove_expired_challenges sample_dynamic_challenger (st1\<lparr>tick := 9\<rparr>) = Inr (0, st3)"
      "\<forall>k. map_of (host_to_challenge_dynamic st3) k = unexpired 100 (fst (clock st1 9)) (map_of (host_to_challenge_dynamic st1) k)"
      by auto
    with 1(1,3) show ?case by auto
  qed
qed

end
