(* ===== verification/Muncher.thy ===== *)
theory Muncher
  imports BanjaxFilter
begin

text \<open>
  \<open>TransactionMuncher\<close> (transaction_muncher.h, transaction_muncher.cpp): the parts of a request and of
  its response, fetched from the server when a filter first needs them. What the server answers
  about one transaction is the record \<open>txn\<close>: whether a header can be had, the client's address, the
  url, the method and the fields of the request, the status and the fields of the response. The url
  is kept by the server as a parsed object whose host \<open>TSUrlHostSet\<close> changes: \<open>url_host\<close> is the host
  set so far, and \<open>url_string\<close> gives the text of the url with that host. A field is found or not, and
  one that is found has a value or not. A null pointer for the scheme of the url or for the value of the response's Content-Length,
  which the code does not test, comes with the length 0 and makes an empty string: in \<open>url_scheme\<close> and
  \<open>resp_field\<close> it is the empty string.
\<close>

unbundle bit_operations_syntax

record txn =
  req_get :: bool
  client_addr :: "32 word option"
  url_get :: bool
  url_host :: "string option"
  url_host_set :: "string \<Rightarrow> bool"
  url_string :: "string option \<Rightarrow> string option"
  url_scheme :: string
  http_method :: "string option"
  req_field :: "string \<Rightarrow> string option option"
  resp_get :: bool
  resp_status :: int
  resp_reason :: string
  resp_field :: "string \<Rightarrow> string option"
  field_create :: "nat \<Rightarrow> bool"
  fields_created :: nat
  resp_appended :: "(string \<times> string) list"

text \<open>The server's texts for the status codes.\<close>

type_synonym reasons = "int \<Rightarrow> string"

record muncher =
  cur_trans_parts :: transaction_parts
  valid_parts :: "64 word"
  request_header :: bool
  response_header :: bool
  trans_txnp :: txn

definition TS_MIME_FIELD_HOST :: string where "TS_MIME_FIELD_HOST = ''Host''"
definition TS_MIME_FIELD_USER_AGENT :: string where "TS_MIME_FIELD_USER_AGENT = ''User-Agent''"
definition TS_MIME_FIELD_COOKIE :: string where "TS_MIME_FIELD_COOKIE = ''Cookie''"
definition TS_MIME_FIELD_CONTENT_LENGTH :: string where "TS_MIME_FIELD_CONTENT_LENGTH = ''Content-Length''"

section \<open>Parts\<close>

text \<open>\<open>cur_trans_parts[k] = v\<close> replaces, \<open>cur_trans_parts.insert(\<dots>)\<close> keeps an existing part.\<close>

definition put_part :: "64 word \<Rightarrow> string \<Rightarrow> muncher \<Rightarrow> muncher" where
  "put_part k v m = m\<lparr>cur_trans_parts := (cur_trans_parts m)(k \<mapsto> v)\<rparr>"

definition insert_part :: "64 word \<Rightarrow> string \<Rightarrow> muncher \<Rightarrow> muncher" where
  "insert_part k v m = (if cur_trans_parts m k = None then put_part k v m else m)"

definition update_validity_status :: "muncher \<Rightarrow> muncher" where
  "update_validity_status m = put_part VALIDITY_STAT (int_bytes 8 (uint (valid_parts m))) m"

definition new_muncher :: "txn \<Rightarrow> muncher" where
  "new_muncher t = update_validity_status
     \<lparr>cur_trans_parts = Map.empty, valid_parts = 0, request_header = False, response_header = False, trans_txnp = t\<rparr>"

definition miss :: "muncher \<Rightarrow> muncher" where
  "miss m = put_part MISS [] m"

section \<open>The request\<close>

definition retrieve_request_header :: "muncher \<Rightarrow> muncher result" where
  "retrieve_request_header m =
     (if request_header m then Inr m
      else if req_get (trans_txnp m) then Inr (m\<lparr>request_header := True\<rparr>) else Inl HeaderRetrieval)"

definition retrieve_ip :: "muncher \<Rightarrow> muncher" where
  "retrieve_ip m = put_part IP (case client_addr (trans_txnp m) of None \<Rightarrow> [] | Some a \<Rightarrow> inet_ntoa a) m"

definition url_text :: "muncher \<Rightarrow> string option" where
  "url_text m = url_string (trans_txnp m) (url_host (trans_txnp m))"

definition retrieve_url :: "muncher \<Rightarrow> muncher" where
  "retrieve_url m =
     (if \<not> url_get (trans_txnp m) then insert_part PROTOCOL [] (insert_part URL [] m)
      else case url_text m of
        None \<Rightarrow> insert_part PROTOCOL [] (insert_part URL [] m)
      | Some url \<Rightarrow> insert_part PROTOCOL (url_scheme (trans_txnp m)) (insert_part URL url m))"

definition TSUrlHostSet :: "string \<Rightarrow> muncher \<Rightarrow> bool \<times> muncher" where
  "TSUrlHostSet h m =
     (if url_host_set (trans_txnp m) h
      then (True, m\<lparr>trans_txnp := (trans_txnp m)\<lparr>url_host := Some h\<rparr>\<rparr>) else (False, m))"

text \<open>The part \<open>URL_WITH_HOST\<close>, with the host retrieved before. \<open>cur_trans_parts[HOST]\<close> would insert a
  missing host.\<close>

definition retrieve_url_with_host :: "muncher \<Rightarrow> muncher" where
  "retrieve_url_with_host m =
     (if \<not> url_get (trans_txnp m) then insert_part URL_WITH_HOST [] m
      else
        let (host, parts) = part_index (cur_trans_parts m) HOST;
            (ok, m1) = TSUrlHostSet host (m\<lparr>cur_trans_parts := parts\<rparr>) in
        if \<not> ok then m1
        else insert_part URL_WITH_HOST (case url_text m1 of None \<Rightarrow> [] | Some url \<Rightarrow> url) m1)"

definition retrieve_method :: "muncher \<Rightarrow> muncher" where
  "retrieve_method m =
     insert_part METHOD (case http_method (trans_txnp m) of None \<Rightarrow> [] | Some x \<Rightarrow> x) m"

text \<open>A header field as a part: empty if the request does not have it.\<close>

definition field_value :: "string \<Rightarrow> muncher \<Rightarrow> string" where
  "field_value f m = (case req_field (trans_txnp m) f of Some (Some v) \<Rightarrow> v | _ \<Rightarrow> [])"

definition retrieve_host :: "muncher \<Rightarrow> muncher" where
  "retrieve_host m = insert_part HOST (to_lower (field_value TS_MIME_FIELD_HOST m)) m"

definition retrieve_ua :: "muncher \<Rightarrow> muncher" where
  "retrieve_ua m = insert_part UA (field_value TS_MIME_FIELD_USER_AGENT m) m"

definition retrieve_cookie :: "muncher \<Rightarrow> muncher" where
  "retrieve_cookie m = insert_part COOKIE (field_value TS_MIME_FIELD_COOKIE m) m"

text \<open>\<open>retrieve_parts\<close>. The call to itself for the host and the url does not ask for
  \<open>URL_WITH_HOST\<close> again.\<close>

function retrieve_parts :: "64 word \<Rightarrow> muncher \<Rightarrow> muncher result" where
  "retrieve_parts requested m =
     (let parts_to_retrieve = NOT (valid_parts m) AND requested in
      if parts_to_retrieve = 0 then Inr m
      else rbind (retrieve_request_header m) (\<lambda>m0.
        let m1 = (if parts_to_retrieve AND IP \<noteq> 0 then retrieve_ip m0 else m0);
            m2 = (if parts_to_retrieve AND URL \<noteq> 0 \<or> parts_to_retrieve AND PROTOCOL \<noteq> 0 then retrieve_url m1 else m1) in
        rbind (if parts_to_retrieve AND URL_WITH_HOST \<noteq> 0
               then rbind (retrieve_parts (HOST OR URL) m2) (\<lambda>m3. Inr (retrieve_url_with_host m3))
               else Inr m2) (\<lambda>m4.
        let m5 = (if parts_to_retrieve AND METHOD \<noteq> 0 then retrieve_method m4 else m4);
            m6 = (if parts_to_retrieve AND HOST \<noteq> 0 then retrieve_host m5 else m5);
            m7 = (if parts_to_retrieve AND UA \<noteq> 0 then retrieve_ua m6 else m6);
            m8 = (if parts_to_retrieve AND COOKIE \<noteq> 0 then retrieve_cookie m7 else m7)
        in Inr (update_validity_status (m8\<lparr>valid_parts := valid_parts m8 OR requested\<rparr>)))))"
  by pat_completeness auto

lemma and_not_zero: "(NOT v AND r) AND k \<noteq> 0 \<Longrightarrow> r AND k \<noteq> (0 :: 64 word)"
  by (metis and.assoc and.commute and_zero_eq)

termination retrieve_parts
proof (relation "measure (\<lambda>(requested, _). if requested AND URL_WITH_HOST = 0 then 0 else 1)")
qed (auto dest: and_not_zero simp: part_numbers)

declare retrieve_parts.simps [simp del]

section \<open>The response\<close>

definition retrieve_response_header :: "muncher \<Rightarrow> muncher result" where
  "retrieve_response_header m =
     (if resp_get (trans_txnp m) then Inr (m\<lparr>response_header := True\<rparr>) else Inl HeaderRetrieval)"

definition need_response_header :: "muncher \<Rightarrow> muncher result" where
  "need_response_header m = (if response_header m then Inr m else retrieve_response_header m)"

definition retrieve_response_parts :: "64 word \<Rightarrow> muncher \<Rightarrow> muncher result" where
  "retrieve_response_parts requested m =
     (let parts_to_retrieve = NOT (valid_parts m) AND requested in
      if parts_to_retrieve = 0 then Inr m
      else rbind (need_response_header m) (\<lambda>m0.
        let m1 = (if parts_to_retrieve AND STATUS \<noteq> 0
                  then put_part STATUS (to_string (resp_status (trans_txnp m0)))
                         (m0\<lparr>valid_parts := valid_parts m0 OR STATUS\<rparr>)
                  else m0);
            m2 = (if parts_to_retrieve AND CONTENT_LENGTH \<noteq> 0
                  then put_part CONTENT_LENGTH
                         (case resp_field (trans_txnp m1) TS_MIME_FIELD_CONTENT_LENGTH of None \<Rightarrow> ''0'' | Some v \<Rightarrow> v)
                         (m1\<lparr>valid_parts := valid_parts m1 OR CONTENT_LENGTH\<rparr>)
                  else m1)
        in Inr (update_validity_status m2)))"

definition get_response_status :: "muncher \<Rightarrow> (int \<times> muncher) result" where
  "get_response_status m =
     rbind (need_response_header m) (\<lambda>m0. Inr (resp_status (trans_txnp m0), m0))"

definition set_status :: "reasons \<Rightarrow> int \<Rightarrow> muncher \<Rightarrow> muncher result" where
  "set_status reason status m =
     rbind (need_response_header m) (\<lambda>m0.
     Inr (m0\<lparr>trans_txnp := (trans_txnp m0)\<lparr>resp_status := status, resp_reason := reason status\<rparr>\<rparr>))"

definition append_header :: "string \<Rightarrow> string \<Rightarrow> muncher \<Rightarrow> muncher result" where
  "append_header nm v m =
     rbind (need_response_header m) (\<lambda>m0.
     let t = trans_txnp m0; t1 = t\<lparr>fields_created := Suc (fields_created t)\<rparr> in
     Inr (if field_create t (fields_created t)
          then m0\<lparr>trans_txnp := t1\<lparr>resp_appended := resp_appended t @ [(nm, v)]\<rparr>\<rparr>
          else m0\<lparr>trans_txnp := t1\<rparr>))"

text \<open>\<open>set_url_host\<close>: with no name given, the host of the request. The url is inserted, so an url that
  was retrieved before stays as it was.\<close>

definition wanted_host :: "string option \<Rightarrow> muncher \<Rightarrow> (string \<times> muncher) result" where
  "wanted_host hostname m =
     (case hostname of
        Some h \<Rightarrow> Inr (h, m)
      | None \<Rightarrow> rbind (retrieve_parts HOST m) (\<lambda>m1.
          let (h, parts) = part_index (cur_trans_parts m1) HOST in Inr (h, m1\<lparr>cur_trans_parts := parts\<rparr>)))"

definition set_url_host :: "string option \<Rightarrow> muncher \<Rightarrow> muncher result" where
  "set_url_host hostname m =
     rbind (retrieve_request_header m) (\<lambda>m0.
     rbind (wanted_host hostname m0) (\<lambda>(h, m2).
     if \<not> url_get (trans_txnp m2) then Inl HeaderRetrieval
     else
       let (ok, m3) = TSUrlHostSet h m2 in
       if \<not> ok then Inl HeaderRetrieval
       else case url_text m3 of
         None \<Rightarrow> Inl HeaderRetrieval
       | Some url \<Rightarrow> Inr (insert_part URL url m3)))"

section \<open>Properties\<close>

definition request_parts :: "64 word list" where
  "request_parts = [IP, URL, PROTOCOL, URL_WITH_HOST, METHOD, HOST, UA, COOKIE]"

definition response_parts :: "64 word list" where
  "response_parts = [STATUS, CONTENT_LENGTH]"

definition parts_mask :: "64 word list \<Rightarrow> 64 word" where
  "parts_mask ps = fold (OR) ps 0"

text \<open>Every part that is marked valid is in the map, and the map has the marks themselves for the
  filters to read. The server may refuse to set the host of the url: then that one part is missing.\<close>

definition host_settable :: "muncher \<Rightarrow> bool" where
  "host_settable m \<longleftrightarrow> (\<forall>h. url_host_set (trans_txnp m) h)"

definition muncher_inv :: "muncher \<Rightarrow> bool" where
  "muncher_inv m \<longleftrightarrow>
     cur_trans_parts m VALIDITY_STAT = Some (int_bytes 8 (uint (valid_parts m))) \<and>
     (\<forall>k\<in>set (request_parts @ response_parts). valid_parts m AND k \<noteq> 0 \<longrightarrow>
        cur_trans_parts m k \<noteq> None \<or> k = URL_WITH_HOST \<and> \<not> host_settable m) \<and>
     (\<forall>h. cur_trans_parts m HOST = Some h \<longrightarrow> to_lower h = h)"

lemma put_part_sel [simp]:
  "cur_trans_parts (put_part k v m) = (cur_trans_parts m)(k \<mapsto> v)" "valid_parts (put_part k v m) = valid_parts m"
  "trans_txnp (put_part k v m) = trans_txnp m" "request_header (put_part k v m) = request_header m"
  "response_header (put_part k v m) = response_header m"
  by (simp_all add: put_part_def)

lemma insert_part_sel [simp]:
  "cur_trans_parts (insert_part k v m) k' =
     (if k' = k \<and> cur_trans_parts m k = None then Some v else cur_trans_parts m k')"
  "valid_parts (insert_part k v m) = valid_parts m"
  "trans_txnp (insert_part k v m) = trans_txnp m" "request_header (insert_part k v m) = request_header m"
  "response_header (insert_part k v m) = response_header m"
  by (simp_all add: insert_part_def)

lemma marked_or: "(v OR r) AND k = 0 \<longleftrightarrow> v AND k = 0 \<and> r AND k = (0 :: 64 word)"
  by (simp add: bit.conj_disj_distrib2 or_eq_0_iff)

lemma newly_valid:
  fixes v r k :: "64 word"
  assumes "(v OR r) AND k \<noteq> 0" and "v AND k = 0"
  shows "(NOT v AND r) AND k \<noteq> 0"
proof -
  have "(NOT v AND r) AND k = (v OR r) AND k" using assms(2)
    by (auto simp: bit_eq_iff bit_simps)
  with assms(1) show ?thesis by simp
qed

text \<open>How an operation changes the parts: no part is lost, those of the request stay as they are (but for
  the address, which is fetched again when it is not marked valid), and the named ones are there.\<close>

definition kept_parts :: "64 word set" where
  "kept_parts = set request_parts - {IP}"

lemma kept_parts_not [simp]: "IP \<notin> kept_parts" "VALIDITY_STAT \<notin> kept_parts" "STATUS \<notin> kept_parts"
  "CONTENT_LENGTH \<notin> kept_parts" "MISS \<notin> kept_parts"
  by (auto simp: kept_parts_def request_parts_def part_numbers)

definition grows :: "64 word set \<Rightarrow> muncher \<Rightarrow> muncher \<Rightarrow> bool" where
  "grows K m m' \<longleftrightarrow>
     cur_trans_parts m |` kept_parts \<subseteq>\<^sub>m cur_trans_parts m' \<and>
     K \<union> dom (cur_trans_parts m) \<subseteq> dom (cur_trans_parts m') \<and>
     (\<forall>h. cur_trans_parts m' HOST = Some h \<longrightarrow> cur_trans_parts m HOST = Some h \<or> to_lower h = h) \<and>
     url_host_set (trans_txnp m') = url_host_set (trans_txnp m)"

lemma tolower_idem [simp]: "tolower (tolower c) = tolower c"
  by (auto simp: tolower_def Let_def)

lemma to_lower_idem [simp]: "to_lower (to_lower s) = to_lower s"
  by (simp add: to_lower_def)

lemma grows_refl: "grows {} m m"
  by (simp add: grows_def map_le_def)

lemma grows_trans: "grows K m m' \<Longrightarrow> grows K' m' m'' \<Longrightarrow> grows (K \<union> K') m m''"
proof -
  assume a: "grows K m m'" and b: "grows K' m' m''"
  have "cur_trans_parts m'' k = cur_trans_parts m k"
    if "k \<in> kept_parts" "cur_trans_parts m k \<noteq> None" for k
  proof -
    from that a have "cur_trans_parts m' k = cur_trans_parts m k"
      unfolding grows_def map_le_def by (metis domIff restrict_map_def)
    moreover from this that b have "cur_trans_parts m'' k = cur_trans_parts m' k"
      unfolding grows_def map_le_def by (metis domIff restrict_map_def)
    ultimately show ?thesis by simp
  qed
  then have "cur_trans_parts m |` kept_parts \<subseteq>\<^sub>m cur_trans_parts m''"
    by (auto simp: map_le_def restrict_map_def split: if_splits)
  moreover have "K \<union> K' \<union> dom (cur_trans_parts m) \<subseteq> dom (cur_trans_parts m'')"
    using a b unfolding grows_def by blast
  moreover have "cur_trans_parts m HOST = Some h \<or> to_lower h = h" if "cur_trans_parts m'' HOST = Some h" for h
    using a b that unfolding grows_def by blast
  ultimately show ?thesis using a b unfolding grows_def by simp
qed

lemma grows_if: "(c \<Longrightarrow> grows K m m') \<Longrightarrow> grows (if c then K else {}) m (if c then m' else m)"
  by (simp add: grows_refl)

lemma grows_insert: "k \<noteq> HOST \<or> to_lower v = v \<Longrightarrow> grows {k} m (insert_part k v m)"
  by (auto simp: grows_def map_le_def restrict_map_def split: if_splits)

lemma grows_insert2: "k \<noteq> HOST \<Longrightarrow> k' \<noteq> HOST \<Longrightarrow> grows {k', k} m (insert_part k v (insert_part k' v' m))"
  using grows_trans [OF grows_insert grows_insert, of k' v' k v m] by (simp add: insert_commute)

lemma part_distinct [simp]:
  "IP \<noteq> HOST" "URL \<noteq> HOST" "PROTOCOL \<noteq> HOST" "URL_WITH_HOST \<noteq> HOST" "METHOD \<noteq> HOST" "UA \<noteq> HOST" "COOKIE \<noteq> HOST"
  "IP \<noteq> VALIDITY_STAT" "HOST \<noteq> VALIDITY_STAT" "HOST \<noteq> IP" "HOST \<noteq> URL_WITH_HOST"
  "HOST \<noteq> STATUS" "HOST \<noteq> CONTENT_LENGTH" "HOST \<noteq> MISS" "MISS \<noteq> HOST" "VALIDITY_STAT \<noteq> HOST"
  by (simp_all add: part_numbers)

lemma retrieve_grows:
  "grows {IP} m (retrieve_ip m)" "grows {URL, PROTOCOL} m (retrieve_url m)" "grows {METHOD} m (retrieve_method m)"
  "grows {HOST} m (retrieve_host m)" "grows {UA} m (retrieve_ua m)" "grows {COOKIE} m (retrieve_cookie m)"
proof -
  show "grows {IP} m (retrieve_ip m)"
    by (auto simp: retrieve_ip_def grows_def map_le_def restrict_map_def)
  show "grows {URL, PROTOCOL} m (retrieve_url m)"
    by (auto simp: retrieve_url_def intro: grows_insert2 split: option.split)
qed (auto simp: retrieve_method_def retrieve_host_def retrieve_ua_def retrieve_cookie_def intro: grows_insert)

lemma retrieve_url_with_host_grows:
  "cur_trans_parts m HOST \<noteq> None \<Longrightarrow>
   grows (if host_settable m then {URL_WITH_HOST} else {}) m (retrieve_url_with_host m)"
proof -
  assume "cur_trans_parts m HOST \<noteq> None"
  then obtain h where h: "cur_trans_parts m HOST = Some h" by blast
  then have idx: "part_index (cur_trans_parts m) HOST = (h, cur_trans_parts m)" by (simp add: part_index_def)
  show ?thesis
    by (auto simp: retrieve_url_with_host_def idx TSUrlHostSet_def Let_def host_settable_def grows_def map_le_def
        restrict_map_def)
qed

text \<open>The parts that a retrieval with the marks \<open>todo\<close> fetches, and its first half: everything before
  \<open>URL_WITH_HOST\<close>, and everything after it.\<close>

definition fetched :: "64 word \<Rightarrow> 64 word list \<Rightarrow> 64 word set" where
  "fetched todo ks = {k \<in> set ks. todo AND k \<noteq> 0}"

definition retrieve_front :: "64 word \<Rightarrow> muncher \<Rightarrow> muncher" where
  "retrieve_front todo m0 =
     (let m1 = (if todo AND IP \<noteq> 0 then retrieve_ip m0 else m0)
      in if todo AND URL \<noteq> 0 \<or> todo AND PROTOCOL \<noteq> 0 then retrieve_url m1 else m1)"

definition retrieve_back :: "64 word \<Rightarrow> muncher \<Rightarrow> muncher" where
  "retrieve_back todo m4 =
     (let m5 = (if todo AND METHOD \<noteq> 0 then retrieve_method m4 else m4);
          m6 = (if todo AND HOST \<noteq> 0 then retrieve_host m5 else m5);
          m7 = (if todo AND UA \<noteq> 0 then retrieve_ua m6 else m6)
      in if todo AND COOKIE \<noteq> 0 then retrieve_cookie m7 else m7)"

lemma retrieve_parts_unfold:
  "retrieve_parts requested m =
     (let todo = NOT (valid_parts m) AND requested in
      if todo = 0 then Inr m
      else rbind (retrieve_request_header m) (\<lambda>m0.
        rbind (if todo AND URL_WITH_HOST \<noteq> 0
               then rbind (retrieve_parts (HOST OR URL) (retrieve_front todo m0)) (\<lambda>m3. Inr (retrieve_url_with_host m3))
               else Inr (retrieve_front todo m0)) (\<lambda>m4.
        let m8 = retrieve_back todo m4
        in Inr (update_validity_status (m8\<lparr>valid_parts := valid_parts m8 OR requested\<rparr>)))))"
  by (subst retrieve_parts.simps) (simp only: Let_def retrieve_front_def retrieve_back_def)

lemma grows_mono: "grows K m m' \<Longrightarrow> K' \<subseteq> K \<Longrightarrow> grows K' m m'"
  by (auto simp: grows_def)

lemma front_grows: "grows (fetched todo [IP, URL, PROTOCOL]) m (retrieve_front todo m)"
proof -
  let ?m1 = "if todo AND IP \<noteq> 0 then retrieve_ip m else m"
  have "grows (if todo AND IP \<noteq> 0 then {IP} else {}) m ?m1" by (rule grows_if) (rule retrieve_grows)
  moreover have "grows (if todo AND URL \<noteq> 0 \<or> todo AND PROTOCOL \<noteq> 0 then {URL, PROTOCOL} else {}) ?m1 (retrieve_front todo m)"
    unfolding retrieve_front_def Let_def by (rule grows_if) (rule retrieve_grows)
  ultimately show ?thesis
    by (rule grows_mono [OF grows_trans]) (auto simp: fetched_def)
qed

lemma back_grows: "grows (fetched todo [METHOD, HOST, UA, COOKIE]) m (retrieve_back todo m)"
proof -
  let ?m5 = "if todo AND METHOD \<noteq> 0 then retrieve_method m else m"
  let ?m6 = "if todo AND HOST \<noteq> 0 then retrieve_host ?m5 else ?m5"
  let ?m7 = "if todo AND UA \<noteq> 0 then retrieve_ua ?m6 else ?m6"
  have "grows (if todo AND METHOD \<noteq> 0 then {METHOD} else {}) m ?m5" by (rule grows_if) (rule retrieve_grows)
  moreover have "grows (if todo AND HOST \<noteq> 0 then {HOST} else {}) ?m5 ?m6" by (rule grows_if) (rule retrieve_grows)
  moreover have "grows (if todo AND UA \<noteq> 0 then {UA} else {}) ?m6 ?m7" by (rule grows_if) (rule retrieve_grows)
  moreover have "grows (if todo AND COOKIE \<noteq> 0 then {COOKIE} else {}) ?m7 (retrieve_back todo m)"
    unfolding retrieve_back_def Let_def by (rule grows_if) (rule retrieve_grows)
  ultimately show ?thesis
    by (rule grows_mono [OF grows_trans [OF grows_trans [OF grows_trans]]]) (auto simp: fetched_def)
qed

lemma request_header_grows: "retrieve_request_header m = Inr m0 \<Longrightarrow> grows {} m m0"
  by (auto simp: retrieve_request_header_def grows_def map_le_def split: if_splits)

lemma retrieve_valid [simp]:
  "valid_parts (retrieve_front todo m) = valid_parts m" "valid_parts (retrieve_back todo m) = valid_parts m"
  "valid_parts (retrieve_url_with_host m) = valid_parts m"
  by (auto simp: retrieve_front_def retrieve_back_def retrieve_ip_def retrieve_url_def retrieve_method_def retrieve_host_def
      retrieve_ua_def retrieve_cookie_def retrieve_url_with_host_def TSUrlHostSet_def Let_def case_prod_beta split: option.split)

lemma retrieve_request_header_valid: "retrieve_request_header m = Inr m0 \<Longrightarrow> valid_parts m0 = valid_parts m"
  by (auto simp: retrieve_request_header_def split: if_splits)

lemma grows_mark: "grows K m m' \<Longrightarrow> grows K m (update_validity_status (m'\<lparr>valid_parts := v\<rparr>))"
  by (auto simp: grows_def update_validity_status_def map_le_def restrict_map_def split: if_splits)

lemma grows_then: "grows K' m' m'' \<Longrightarrow> grows K m m' \<Longrightarrow> grows (K \<union> K') m m''"
  by (rule grows_trans)

text \<open>A retrieval that does not need the host in the url.\<close>

lemma retrieve_plain:
  assumes "retrieve_parts r m = Inr m'" and "(NOT (valid_parts m) AND r) AND URL_WITH_HOST = 0"
  shows "grows (fetched (NOT (valid_parts m) AND r) request_parts) m m' \<and> valid_parts m' = valid_parts m OR r \<and>
    (m' = m \<or> cur_trans_parts m' VALIDITY_STAT = Some (int_bytes 8 (uint (valid_parts m'))))"
proof (cases "NOT (valid_parts m) AND r = 0")
  case True
  then have "valid_parts m OR r = valid_parts m" by (auto simp: bit_eq_iff bit_simps)
  with True assms(1) show ?thesis
    by (subst (asm) retrieve_parts_unfold) (simp add: fetched_def grows_refl)
next
  case False
  let ?t = "NOT (valid_parts m) AND r"
  from False assms obtain m0 where m0: "retrieve_request_header m = Inr m0"
    and m': "m' = update_validity_status ((retrieve_back ?t (retrieve_front ?t m0))\<lparr>valid_parts := valid_parts m0 OR r\<rparr>)"
    by (subst (asm) retrieve_parts_unfold) (auto simp: rbind_eq_Inr_iff Let_def)
  have v0: "valid_parts m0 = valid_parts m" by (rule retrieve_request_header_valid [OF m0])
  have "grows ({} \<union> fetched ?t [IP, URL, PROTOCOL] \<union> fetched ?t [METHOD, HOST, UA, COOKIE]) m m'"
    unfolding m' by (rule grows_mark, rule grows_trans [OF grows_trans [OF request_header_grows [OF m0] front_grows] back_grows])
  then have "grows (fetched ?t request_parts) m m'"
    by (rule grows_mono) (use assms(2) in \<open>auto simp: fetched_def request_parts_def\<close>)
  with m' v0 show ?thesis by (simp add: update_validity_status_def)
qed

text \<open>Any retrieval of request parts. The host and the url are retrieved as well when the url with its
  host is.\<close>

lemma retrieve_parts_grows:
  assumes "retrieve_parts r m = Inr m'" and inv: "muncher_inv m"
  defines "todo \<equiv> NOT (valid_parts m) AND r"
  defines "both \<equiv> (if todo AND URL_WITH_HOST = 0 then 0 else HOST OR URL)"
  shows "grows (fetched todo request_parts \<union> (if todo AND URL_WITH_HOST = 0 then {} else {HOST, URL}) - (if host_settable m then {} else {URL_WITH_HOST})) m m' \<and>
    valid_parts m' = valid_parts m OR r OR both \<and>
    cur_trans_parts m' VALIDITY_STAT = Some (int_bytes 8 (uint (valid_parts m')))"
proof (cases "todo AND URL_WITH_HOST = 0")
  case True
  with retrieve_plain [OF assms(1)] inv show ?thesis
    by (auto simp: todo_def both_def muncher_inv_def intro: grows_mono)
next
  case False
  then have ne: "todo \<noteq> 0" by auto
  from assms(1) ne False obtain m0 m3 where m0: "retrieve_request_header m = Inr m0"
    and m3: "retrieve_parts (HOST OR URL) (retrieve_front todo m0) = Inr m3"
    and m': "m' = update_validity_status ((retrieve_back todo (retrieve_url_with_host m3))\<lparr>valid_parts := valid_parts m3 OR r\<rparr>)"
    by (subst (asm) retrieve_parts_unfold) (auto simp: rbind_eq_Inr_iff Let_def todo_def)
  let ?f = "retrieve_front todo m0"
  have v: "valid_parts ?f = valid_parts m" using retrieve_request_header_valid [OF m0] by simp
  have f: "grows ({} \<union> fetched todo [IP, URL, PROTOCOL]) m ?f"
    by (rule grows_trans [OF request_header_grows [OF m0] front_grows])
  have "(NOT (valid_parts ?f) AND (HOST OR URL)) AND URL_WITH_HOST = 0"
    by (auto simp: part_numbers and.assoc bit_eq_iff bit_simps)
  note p = retrieve_plain [OF m3 this, unfolded v]
  have both_there: "{HOST, URL} \<subseteq> dom (cur_trans_parts m3)"
  proof -
    have "k \<in> dom (cur_trans_parts m3)" if "k \<in> {HOST, URL}" for k
    proof (cases "valid_parts m AND k = 0")
      case True
      with that have "(NOT (valid_parts m) AND (HOST OR URL)) AND k \<noteq> 0"
        by (intro newly_valid) (auto simp: marked_or part_numbers)
      with that p show ?thesis by (auto simp: grows_def fetched_def request_parts_def)
    next
      case False
      with that inv have "k \<in> dom (cur_trans_parts m)"
        by (auto simp: muncher_inv_def request_parts_def part_numbers)
      with f p show ?thesis unfolding grows_def by blast
    qed
    then show ?thesis by blast
  qed
  then have "grows (if host_settable m3 then {URL_WITH_HOST} else {}) m3 (retrieve_url_with_host m3)"
    by (intro retrieve_url_with_host_grows) blast
  moreover have "host_settable m3 = host_settable m" using f p by (simp add: host_settable_def grows_def)
  ultimately have u: "grows (if host_settable m then {URL_WITH_HOST} else {}) m3 (retrieve_url_with_host m3)" by simp
  have h: "grows {HOST, URL} ?f m3" using p both_there by (auto simp: grows_def)
  have "grows ({} \<union> fetched todo [IP, URL, PROTOCOL] \<union> {HOST, URL} \<union> (if host_settable m then {URL_WITH_HOST} else {}) \<union>
      fetched todo [METHOD, HOST, UA, COOKIE]) m m'"
    unfolding m' by (rule grows_mark, rule grows_trans [OF grows_trans [OF grows_trans [OF f h] u] back_grows])
  then have "grows (fetched todo request_parts \<union> (if todo AND URL_WITH_HOST = 0 then {} else {HOST, URL}) - (if host_settable m then {} else {URL_WITH_HOST})) m m'"
    by (rule grows_mono) (auto simp: fetched_def request_parts_def)
  moreover have "valid_parts m' = valid_parts m OR r OR both"
    using False p unfolding m' by (simp add: update_validity_status_def both_def or.assoc or.commute or.left_commute)
  ultimately show ?thesis by (simp add: m' update_validity_status_def)
qed

lemma grows_kept: "grows K m m' \<Longrightarrow> cur_trans_parts m k = Some v \<Longrightarrow> k \<in> kept_parts \<Longrightarrow> cur_trans_parts m' k = Some v"
  unfolding grows_def map_le_def by (metis domI restrict_map_def)

lemma part_kinds:
  "k \<in> set (request_parts @ response_parts) \<Longrightarrow> k \<noteq> VALIDITY_STAT \<and> k \<noteq> MISS"
  by (auto simp: request_parts_def response_parts_def part_numbers)

text \<open>An operation keeps the invariant if it loses no part, fetches what it newly marks, and writes the
  marks down.\<close>

lemma muncher_invI:
  assumes inv: "muncher_inv m" and grows: "grows K m m'"
    and marks: "cur_trans_parts m' VALIDITY_STAT = Some (int_bytes 8 (uint (valid_parts m')))"
    and new: "\<And>k. k \<in> set (request_parts @ response_parts) \<Longrightarrow> valid_parts m' AND k \<noteq> 0 \<Longrightarrow> valid_parts m AND k = 0 \<Longrightarrow>
        k \<in> K \<or> k = URL_WITH_HOST \<and> \<not> host_settable m"
  shows "muncher_inv m'"
proof -
  have settable: "host_settable m' = host_settable m" using grows by (simp add: grows_def host_settable_def)
  have dom: "K \<union> dom (cur_trans_parts m) \<subseteq> dom (cur_trans_parts m')" using grows by (simp add: grows_def)
  have "cur_trans_parts m' k \<noteq> None \<or> k = URL_WITH_HOST \<and> \<not> host_settable m'"
    if k: "k \<in> set (request_parts @ response_parts)" "valid_parts m' AND k \<noteq> 0" for k
  proof (cases "valid_parts m AND k = 0")
    case True
    with new k dom settable show ?thesis by blast
  next
    case False
    with inv k(1) have "cur_trans_parts m k \<noteq> None \<or> k = URL_WITH_HOST \<and> \<not> host_settable m"
      unfolding muncher_inv_def by blast
    with dom settable show ?thesis by blast
  qed
  moreover have "to_lower h = h" if "cur_trans_parts m' HOST = Some h" for h
    using that inv grows by (auto simp: grows_def muncher_inv_def)
  ultimately show ?thesis using marks by (simp add: muncher_inv_def)
qed

lemma retrieve_parts_inv:
  assumes "muncher_inv m" and "retrieve_parts r m = Inr m'" and "\<forall>k\<in>set response_parts. r AND k = 0"
  shows "muncher_inv m'"
proof -
  note g = retrieve_parts_grows [OF assms(2,1)]
  show ?thesis
  proof (rule muncher_invI [OF assms(1) conjunct1 [OF g]])
    show "cur_trans_parts m' VALIDITY_STAT = Some (int_bytes 8 (uint (valid_parts m')))" using g by blast
    fix k assume k: "k \<in> set (request_parts @ response_parts)" "valid_parts m' AND k \<noteq> 0" "valid_parts m AND k = 0"
    let ?todo = "NOT (valid_parts m) AND r" and ?both = "HOST OR URL"
    have "(r AND k \<noteq> 0) \<or> ?todo AND URL_WITH_HOST \<noteq> 0 \<and> ?both AND k \<noteq> 0"
      using g k(2,3) by (auto simp: marked_or split: if_splits)
    then consider (asked) "r AND k \<noteq> 0" | (implied) "?todo AND URL_WITH_HOST \<noteq> 0" "?both AND k \<noteq> 0" by blast
    then show "k \<in> fetched ?todo request_parts \<union> (if ?todo AND URL_WITH_HOST = 0 then {} else {HOST, URL}) -
        (if host_settable m then {} else {URL_WITH_HOST}) \<or> k = URL_WITH_HOST \<and> \<not> host_settable m"
    proof cases
      case asked
      with assms(3) k(1) have "k \<in> set request_parts" by auto
      moreover have "?todo AND k \<noteq> 0" using asked k(3) by (intro newly_valid) (auto simp: marked_or)
      ultimately show ?thesis by (auto simp: fetched_def)
    next
      case implied
      with k(1) have "k \<in> {HOST, URL}" by (auto simp: request_parts_def response_parts_def part_numbers)
      with implied(1) show ?thesis by (auto simp: part_numbers)
    qed
  qed
qed

lemma need_response_header_frame:
  "need_response_header m = Inr m0 \<Longrightarrow> cur_trans_parts m0 = cur_trans_parts m \<and> valid_parts m0 = valid_parts m \<and> trans_txnp m0 = trans_txnp m"
  by (auto simp: need_response_header_def retrieve_response_header_def split: if_splits)

lemma retrieve_response_parts_inv:
  assumes inv: "muncher_inv m" and r: "retrieve_response_parts r m = Inr m'"
  shows "muncher_inv m'"
proof (cases "NOT (valid_parts m) AND r = 0")
  case True
  with inv r show ?thesis by (simp add: retrieve_response_parts_def)
next
  case False
  with r obtain m0 where m0: "need_response_header m = Inr m0"
    by (auto simp: retrieve_response_parts_def rbind_eq_Inr_iff Let_def)
  note f = need_response_header_frame [OF m0]
  have "grows {k \<in> set response_parts. (NOT (valid_parts m) AND r) AND k \<noteq> 0} m m'"
    using r m0 False f
    by (auto simp: retrieve_response_parts_def grows_def map_le_def restrict_map_def update_validity_status_def Let_def
        response_parts_def part_distinct split: if_splits)
  then show ?thesis
  proof (rule muncher_invI [OF inv])
    show "cur_trans_parts m' VALIDITY_STAT = Some (int_bytes 8 (uint (valid_parts m')))"
      using r m0 False by (auto simp: retrieve_response_parts_def update_validity_status_def Let_def)
  next
    fix k assume k: "k \<in> set (request_parts @ response_parts)" "valid_parts m' AND k \<noteq> 0" "valid_parts m AND k = 0"
    let ?t = "NOT (valid_parts m) AND r"
    have "valid_parts m' = valid_parts m OR (if ?t AND STATUS \<noteq> 0 then STATUS else 0) OR (if ?t AND CONTENT_LENGTH \<noteq> 0 then CONTENT_LENGTH else 0)"
      using r m0 False f by (auto simp: retrieve_response_parts_def update_validity_status_def Let_def or.assoc)
    with k(2,3) have "?t AND STATUS \<noteq> 0 \<and> STATUS AND k \<noteq> 0 \<or> ?t AND CONTENT_LENGTH \<noteq> 0 \<and> CONTENT_LENGTH AND k \<noteq> 0"
      by (auto simp: marked_or split: if_splits)
    with k(1) show "k \<in> {k \<in> set response_parts. ?t AND k \<noteq> 0} \<or> k = URL_WITH_HOST \<and> \<not> host_settable m"
      by (auto simp: request_parts_def response_parts_def part_numbers)
  qed
qed

lemma grows_parts:
  "cur_trans_parts m' = (cur_trans_parts m)(k \<mapsto> v) \<Longrightarrow> url_host_set (trans_txnp m') = url_host_set (trans_txnp m) \<Longrightarrow>
   k \<notin> kept_parts \<or> cur_trans_parts m k = None \<and> k \<noteq> HOST \<Longrightarrow> k \<noteq> HOST \<Longrightarrow> grows {k} m m'"
  by (auto simp: grows_def map_le_def restrict_map_def)

lemma grows_same:
  "cur_trans_parts m' = cur_trans_parts m \<Longrightarrow> url_host_set (trans_txnp m') = url_host_set (trans_txnp m) \<Longrightarrow> grows {} m m'"
  by (auto simp: grows_def map_le_def restrict_map_def)

text \<open>An operation that touches neither the marks nor their record.\<close>

lemma muncher_inv_unmarked:
  assumes "muncher_inv m" and "grows K m m'" and "valid_parts m' = valid_parts m"
    and "cur_trans_parts m' VALIDITY_STAT = cur_trans_parts m VALIDITY_STAT"
  shows "muncher_inv m'"
  using assms by (intro muncher_invI [of m K m']) (simp_all add: muncher_inv_def)

lemma part_read_grows: "grows {} m (m\<lparr>cur_trans_parts := snd (part_index (cur_trans_parts m) k)\<rparr>)"
proof (cases "cur_trans_parts m k")
  case None
  then show ?thesis
    by (auto simp: grows_def part_index_def map_le_def restrict_map_def to_lower_def split: if_splits)
qed (auto simp: part_index_def intro: grows_same)

lemma response_changed_frame:
  "set_status reason s m = Inr m' \<or> append_header n v m = Inr m' \<Longrightarrow>
   cur_trans_parts m' = cur_trans_parts m \<and> valid_parts m' = valid_parts m \<and> url_host_set (trans_txnp m') = url_host_set (trans_txnp m)"
  by (cases "need_response_header m")
     (auto simp: set_status_def append_header_def Let_def dest: need_response_header_frame)

lemma set_url_host_inv:
  assumes inv: "muncher_inv m" and "set_url_host h m = Inr m'"
  shows "muncher_inv m'"
proof -
  from assms(2) obtain m0 hn m2 where m0: "retrieve_request_header m = Inr m0"
    and m2: "wanted_host h m0 = Inr (hn, m2)"
    and m': "\<exists>url. m' = insert_part URL url (snd (TSUrlHostSet hn m2))"
    by (auto simp: set_url_host_def rbind_eq_Inr_iff case_prod_beta Let_def split: if_splits option.splits)
  have inv0: "muncher_inv m0"
    using m0 by (intro muncher_inv_unmarked [OF inv request_header_grows [OF m0]])
      (auto simp: retrieve_request_header_def split: if_splits)
  have inv2: "muncher_inv m2"
  proof (cases h)
    case None
    with m2 obtain m1 where m1: "retrieve_parts HOST m0 = Inr m1"
      and m2': "m2 = m1\<lparr>cur_trans_parts := snd (part_index (cur_trans_parts m1) HOST)\<rparr>"
      by (auto simp: wanted_host_def rbind_eq_Inr_iff case_prod_beta Let_def)
    have inv1: "muncher_inv m1"
      by (rule retrieve_parts_inv [OF inv0 m1]) (simp add: response_parts_def part_numbers)
    have "grows {} m1 m2" unfolding m2' by (rule part_read_grows)
    then show ?thesis
      by (rule muncher_inv_unmarked [OF inv1]) (auto simp: m2' part_index_def split: option.split)
  qed (use m2 inv0 in \<open>simp add: wanted_host_def\<close>)
  have "muncher_inv (snd (TSUrlHostSet hn m2))"
    by (rule muncher_inv_unmarked [OF inv2, of "{}"]) (auto simp: TSUrlHostSet_def intro: grows_same)
  then have "muncher_inv (insert_part URL url (snd (TSUrlHostSet hn m2)))" for url
    by (rule muncher_inv_unmarked [OF _ grows_insert]) (auto simp: part_numbers)
  with m' show ?thesis by blast
qed

text \<open>The life of a muncher: what the transaction and the filters do to it, in any order.\<close>

datatype muncher_event =
    Retrieved "64 word" | Retrieved_Response "64 word" | Missed | Host_Set | Response_Changed | Part_Read "64 word"

inductive muncher_step :: "muncher \<Rightarrow> muncher_event \<Rightarrow> muncher \<Rightarrow> bool" where
  step_retrieve: "retrieve_parts r m = Inr m' \<Longrightarrow> \<forall>k\<in>set response_parts. r AND k = 0 \<Longrightarrow> muncher_step m (Retrieved r) m'"
| step_response: "retrieve_response_parts r m = Inr m' \<Longrightarrow> muncher_step m (Retrieved_Response r) m'"
| step_miss: "muncher_step m Missed (miss m)"
| step_url_host: "set_url_host h m = Inr m' \<Longrightarrow> muncher_step m Host_Set m'"
| step_status: "set_status reason s m = Inr m' \<Longrightarrow> muncher_step m Response_Changed m'"
| step_header: "append_header n v m = Inr m' \<Longrightarrow> muncher_step m Response_Changed m'"
| step_read: "k \<noteq> VALIDITY_STAT \<Longrightarrow> muncher_step m (Part_Read k) (m\<lparr>cur_trans_parts := snd (part_index (cur_trans_parts m) k)\<rparr>)"

inductive_cases muncher_stepE: "muncher_step m e m'"

interpretation munch: trace_invariant muncher_step "\<lambda>_. muncher_inv"
proof unfold_locales
  fix es :: "muncher_event list" and m e m'
  assume inv: "muncher_inv m" and step: "muncher_step m e m'"
  from step show "muncher_inv m'"
  proof (cases rule: muncher_step.cases)
    case (step_retrieve r)
    with inv show ?thesis by (blast intro: retrieve_parts_inv)
  next
    case (step_response r)
    with inv show ?thesis by (blast intro: retrieve_response_parts_inv)
  next
    case step_miss
    have "grows {MISS} m m'" unfolding step_miss by (rule grows_parts) (auto simp: miss_def)
    then show ?thesis by (rule muncher_inv_unmarked [OF inv]) (auto simp: step_miss miss_def part_numbers)
  next
    case (step_url_host h)
    with inv show ?thesis by (blast intro: set_url_host_inv)
  next
    case (step_status reason s)
    then show ?thesis using response_changed_frame [of reason s m m']
      by (intro muncher_inv_unmarked [OF inv, of "{}"] grows_same) simp_all
  next
    case (step_header n v)
    then show ?thesis using response_changed_frame [of _ _ m m' n v]
      by (intro muncher_inv_unmarked [OF inv, of "{}"] grows_same) simp_all
  next
    case (step_read k)
    have "grows {} m m'" unfolding step_read(2) by (rule part_read_grows)
    then show ?thesis
      by (rule muncher_inv_unmarked [OF inv]) (use step_read in \<open>auto simp: part_index_def split: option.split\<close>)
  qed
qed

lemma new_muncher_inv: "muncher_inv (new_muncher t)"
  by (auto simp: muncher_inv_def new_muncher_def update_validity_status_def part_numbers)

lemma retrieve_parts_again:
  assumes "retrieve_parts r m = Inr m'" and "muncher_inv m"
  shows "retrieve_parts r m' = Inr m'"
proof -
  have "NOT (valid_parts m') AND r = 0"
    using retrieve_parts_grows [OF assms] by (auto simp: bit_eq_iff bit_simps)
  then show ?thesis by (subst retrieve_parts_unfold) simp
qed

text \<open>A retrieval fails only when the server does not give the request header.\<close>

lemma front_request_header [simp]: "request_header (retrieve_front todo m) = request_header m"
  by (auto simp: retrieve_front_def retrieve_ip_def retrieve_url_def Let_def split: option.split)

lemma retrieve_request_header_total:
  "request_header m \<or> req_get (trans_txnp m) \<Longrightarrow> \<exists>m0. retrieve_request_header m = Inr m0 \<and> request_header m0"
  by (auto simp: retrieve_request_header_def)

lemma retrieve_plain_total:
  assumes "request_header m" and "r AND URL_WITH_HOST = 0"
  shows "\<exists>m'. retrieve_parts r m = Inr m'"
proof -
  have "(NOT (valid_parts m) AND r) AND URL_WITH_HOST = 0" using assms(2) and_not_zero by blast
  with assms(1) show ?thesis
    by (subst retrieve_parts_unfold) (simp add: Let_def retrieve_request_header_def)
qed

lemma retrieve_parts_total:
  assumes "request_header m \<or> req_get (trans_txnp m)"
  shows "\<exists>m'. retrieve_parts r m = Inr m'"
proof -
  obtain m0 where m0: "retrieve_request_header m = Inr m0" "request_header m0"
    using retrieve_request_header_total [OF assms] by blast
  obtain m3 where "retrieve_parts (HOST OR URL) (retrieve_front (NOT (valid_parts m) AND r) m0) = Inr m3"
    using retrieve_plain_total [of "retrieve_front (NOT (valid_parts m) AND r) m0" "HOST OR URL"] m0(2)
    by (auto simp: part_numbers)
  with m0(1) show ?thesis by (subst retrieve_parts_unfold) (simp add: Let_def)
qed

text \<open>When the server does not let the host of the url be set, the url with its host is missing.\<close>

lemma url_with_host_frame [simp]:
  "cur_trans_parts (retrieve_front todo m) URL_WITH_HOST = cur_trans_parts m URL_WITH_HOST"
  "cur_trans_parts (retrieve_back todo m) URL_WITH_HOST = cur_trans_parts m URL_WITH_HOST"
  "cur_trans_parts (update_validity_status m) URL_WITH_HOST = cur_trans_parts m URL_WITH_HOST"
  "trans_txnp (retrieve_front todo m) = trans_txnp m" "trans_txnp (update_validity_status m) = trans_txnp m"
  by (auto simp: retrieve_front_def retrieve_back_def retrieve_ip_def retrieve_url_def retrieve_method_def retrieve_host_def
      retrieve_ua_def retrieve_cookie_def update_validity_status_def part_numbers Let_def split: option.split)

lemma request_header_frame:
  "retrieve_request_header m = Inr m0 \<Longrightarrow> cur_trans_parts m0 = cur_trans_parts m \<and> trans_txnp m0 = trans_txnp m"
  by (auto simp: retrieve_request_header_def split: if_splits)

lemma retrieve_plain_url_with_host:
  assumes "retrieve_parts r m = Inr m'" and "r AND URL_WITH_HOST = 0"
  shows "cur_trans_parts m' URL_WITH_HOST = cur_trans_parts m URL_WITH_HOST \<and>
    url_host_set (trans_txnp m') = url_host_set (trans_txnp m) \<and> url_get (trans_txnp m') = url_get (trans_txnp m)"
proof -
  have todo: "(NOT (valid_parts m) AND r) AND URL_WITH_HOST = 0" using assms(2) and_not_zero by blast
  have bk: "trans_txnp (retrieve_back todo m) = trans_txnp m" for todo m
    by (auto simp: retrieve_back_def retrieve_method_def retrieve_host_def retrieve_ua_def retrieve_cookie_def Let_def)
  from assms(1) todo show ?thesis
    by (subst (asm) retrieve_parts_unfold)
       (auto simp: Let_def rbind_eq_Inr_iff bk dest: request_header_frame split: if_splits)
qed

lemma unsettable_url_missing:
  assumes "retrieve_parts r m = Inr m'" and "\<forall>h. \<not> url_host_set (trans_txnp m) h" and "url_get (trans_txnp m)"
    and "cur_trans_parts m URL_WITH_HOST = None"
  shows "cur_trans_parts m' URL_WITH_HOST = None"
proof (cases "(NOT (valid_parts m) AND r) AND URL_WITH_HOST = 0")
  case True
  with assms(1,4) show ?thesis
    by (subst (asm) retrieve_parts_unfold) (auto simp: Let_def rbind_eq_Inr_iff dest: request_header_frame split: if_splits)
next
  case False
  let ?t = "NOT (valid_parts m) AND r"
  from False assms(1) obtain m0 m3 where m0: "retrieve_request_header m = Inr m0"
    and m3: "retrieve_parts (HOST OR URL) (retrieve_front ?t m0) = Inr m3"
    and m': "cur_trans_parts m' URL_WITH_HOST = cur_trans_parts (retrieve_url_with_host m3) URL_WITH_HOST"
    by (subst (asm) retrieve_parts_unfold) (auto simp: rbind_eq_Inr_iff Let_def split: if_splits)
  have "(HOST OR URL) AND URL_WITH_HOST = 0" by (simp add: part_numbers)
  from retrieve_plain_url_with_host [OF m3 this] request_header_frame [OF m0] assms(2-4)
  have "cur_trans_parts m3 URL_WITH_HOST = None" "url_get (trans_txnp m3)" "\<forall>h. \<not> url_host_set (trans_txnp m3) h" by auto
  then show ?thesis unfolding m'
    by (auto simp: retrieve_url_with_host_def TSUrlHostSet_def part_index_def part_numbers Let_def split: option.split)
qed

text \<open>Retrieving parts changes nothing of the transaction but the host of its url.\<close>

lemma retrieve_parts_txn: "retrieve_parts r m = Inr m' \<Longrightarrow> \<exists>h. trans_txnp m' = (trans_txnp m)\<lparr>url_host := h\<rparr>"
proof -
  have back_txn: "trans_txnp (retrieve_back todo m) = trans_txnp m" for todo m
    by (auto simp: retrieve_back_def retrieve_method_def retrieve_host_def retrieve_ua_def retrieve_cookie_def Let_def)
  have plain: "trans_txnp m' = trans_txnp m" if "retrieve_parts r m = Inr m'" "r AND URL_WITH_HOST = 0" for r m m'
  proof -
    have "(NOT (valid_parts m) AND r) AND URL_WITH_HOST = 0" using that(2) and_not_zero by blast
    with that(1) show ?thesis
      by (subst (asm) retrieve_parts_unfold)
         (auto simp: Let_def rbind_eq_Inr_iff back_txn dest: request_header_frame split: if_splits)
  qed
  have host: "\<exists>h. trans_txnp (retrieve_url_with_host m) = (trans_txnp m)\<lparr>url_host := h\<rparr>" for m
    by (auto simp: retrieve_url_with_host_def TSUrlHostSet_def Let_def case_prod_beta intro: exI [of _ "url_host (trans_txnp m)"])
  have same: "\<exists>h. t = t\<lparr>url_host := h\<rparr>" for t :: txn by (rule exI [of _ "url_host t"]) simp
  assume r: "retrieve_parts r m = Inr m'"
  have "(HOST OR URL) AND URL_WITH_HOST = 0" by (simp add: part_numbers)
  with r show ?thesis
    by (subst (asm) retrieve_parts_unfold)
       (auto simp: Let_def rbind_eq_Inr_iff back_txn dest!: plain request_header_frame split: if_splits intro: same, (metis host)+)
qed

text \<open>C24: The parts the filters ask for are there. In every life of a transaction's muncher (retrievals
  of request and response parts, a cache miss, changes of the url's host and of the response, reads
  by \<open>operator[]\<close>, in any order), when the server lets the host of the url be set: retrieving request
  parts makes every requested part available, leaves the parts of the request that were there as they
  were (but for the address), keeps the host in lower case, records the marks for the filters to
  read, and retrieving them again changes nothing.\<close>

theorem requested_parts_are_there:
  assumes "run muncher_step (new_muncher t) es m" and "host_settable m"
    and "retrieve_parts r m = Inr m'" and "\<forall>k\<in>set response_parts. r AND k = 0"
  shows "(\<forall>k\<in>set request_parts. r AND k \<noteq> 0 \<longrightarrow> (\<exists>v. part_at (cur_trans_parts m') k = Inr v)) \<and>
    (\<forall>k\<in>set request_parts. \<forall>v. k \<noteq> IP \<longrightarrow> cur_trans_parts m k = Some v \<longrightarrow> cur_trans_parts m' k = Some v) \<and>
    (\<forall>h. cur_trans_parts m' HOST = Some h \<longrightarrow> to_lower h = h) \<and>
    cur_trans_parts m' VALIDITY_STAT = Some (int_bytes 8 (uint (valid_parts m'))) \<and>
    retrieve_parts r m' = Inr m'"
proof -
  have inv: "muncher_inv m" by (rule munch.inv_run [OF assms(1) new_muncher_inv])
  have inv': "muncher_inv m'" by (rule retrieve_parts_inv [OF inv assms(3,4)])
  note g = retrieve_parts_grows [OF assms(3) inv]
  have "host_settable m'" using g assms(2) by (simp add: grows_def host_settable_def)
  moreover have "valid_parts m' AND k \<noteq> 0" if "r AND k \<noteq> 0" for k using g that by (simp add: marked_or)
  ultimately have "\<exists>v. part_at (cur_trans_parts m') k = Inr v" if "k \<in> set request_parts" "r AND k \<noteq> 0" for k
    using inv' that by (auto simp: muncher_inv_def part_at_def split: option.splits)
  moreover have "cur_trans_parts m' k = Some v" if "k \<in> set request_parts" "k \<noteq> IP" "cur_trans_parts m k = Some v" for k v
    using grows_kept [OF conjunct1 [OF g] that(3)] that(1,2) by (simp add: kept_parts_def)
  ultimately show ?thesis
    using inv' retrieve_parts_again [OF assms(3) inv] by (simp add: muncher_inv_def)
qed

text \<open>A request for \<open>http://Example.org/x\<close> from 1.2.3.4.\<close>

definition sample_txn :: txn where
  "sample_txn =
     \<lparr>req_get = True, client_addr = Some 0x01020304, url_get = True, url_host = None, url_host_set = (\<lambda>_. True),
      url_string = (\<lambda>h. Some (case h of None \<Rightarrow> ''/x'' | Some h \<Rightarrow> ''http://'' @ h @ ''/x'')), url_scheme = ''http'',
      http_method = Some ''GET'',
      req_field = (\<lambda>f. if f = TS_MIME_FIELD_HOST then Some (Some ''Example.org'') else None),
      resp_get = True, resp_status = 200, resp_reason = ''OK'', resp_field = (\<lambda>_. None), field_create = (\<lambda>_. True),
      fields_created = 0, resp_appended = []\<rparr>"

theorem requested_parts_are_there_witness:
  "\<exists>m'. retrieve_parts (HOST OR URL_WITH_HOST) (new_muncher sample_txn) = Inr m' \<and>
     (\<exists>v. part_at (cur_trans_parts m') URL_WITH_HOST = Inr v) \<and> retrieve_parts (HOST OR URL_WITH_HOST) m' = Inr m'"
proof -
  have "\<exists>m'. retrieve_parts (HOST OR URL_WITH_HOST) (new_muncher sample_txn) = Inr m'"
    by (rule retrieve_parts_total) (simp add: new_muncher_def update_validity_status_def sample_txn_def)
  then obtain m' where m': "retrieve_parts (HOST OR URL_WITH_HOST) (new_muncher sample_txn) = Inr m'" by blast
  have "(HOST OR URL_WITH_HOST) AND URL_WITH_HOST \<noteq> 0" "URL_WITH_HOST \<in> set request_parts"
    "\<forall>k\<in>set response_parts. (HOST OR URL_WITH_HOST) AND k = 0"
    by (simp_all add: request_parts_def response_parts_def part_numbers)
  moreover have "host_settable (new_muncher sample_txn)"
    by (simp add: host_settable_def new_muncher_def update_validity_status_def sample_txn_def)
  ultimately show ?thesis
    using requested_parts_are_there [OF run_nil _ m'] m' by blast
qed

section \<open>The parts of a request in one piece\<close>

text \<open>What each part of a request is, without fetching, marks or order: the reference for \<open>retrieve_parts\<close>.
  \<open>URL\<close> is the url as it came; \<open>URL_WITH_HOST\<close> has the host of the request in lower case, and is missing
  when the server refuses it.\<close>

definition url_ref :: "txn \<Rightarrow> string option" where
  "url_ref t = (if url_get t then url_string t (url_host t) else None)"

definition field_ref :: "txn \<Rightarrow> string \<Rightarrow> string" where
  "field_ref t f = (case req_field t f of Some (Some v) \<Rightarrow> v | _ \<Rightarrow> [])"

definition host_ref :: "txn \<Rightarrow> string" where
  "host_ref t = to_lower (field_ref t TS_MIME_FIELD_HOST)"

definition part_ref :: "txn \<Rightarrow> 64 word \<Rightarrow> string option" where
  "part_ref t k =
     (if k = IP then Some (case client_addr t of None \<Rightarrow> [] | Some a \<Rightarrow> inet_ntoa a)
      else if k = URL then Some (case url_ref t of None \<Rightarrow> [] | Some u \<Rightarrow> u)
      else if k = PROTOCOL then Some (case url_ref t of None \<Rightarrow> [] | Some u \<Rightarrow> url_scheme t)
      else if k = URL_WITH_HOST then
        (if \<not> url_get t then Some []
         else if \<not> url_host_set t (host_ref t) then None
         else Some (case url_string t (Some (host_ref t)) of None \<Rightarrow> [] | Some u \<Rightarrow> u))
      else if k = METHOD then Some (case http_method t of None \<Rightarrow> [] | Some x \<Rightarrow> x)
      else if k = HOST then Some (host_ref t)
      else if k = UA then Some (field_ref t TS_MIME_FIELD_USER_AGENT)
      else if k = COOKIE then Some (field_ref t TS_MIME_FIELD_COOKIE)
      else None)"

text \<open>The parts a request for \<open>r\<close> brings: url and protocol come together, and the url with its host brings
  the host and the url.\<close>

definition parts_brought :: "64 word \<Rightarrow> 64 word set" where
  "parts_brought r = {k \<in> set request_parts. r AND k \<noteq> 0} \<union>
     (if r AND URL \<noteq> 0 \<or> r AND PROTOCOL \<noteq> 0 then {URL, PROTOCOL} else {}) \<union>
     (if r AND URL_WITH_HOST \<noteq> 0 then {URL, PROTOCOL, HOST} else {})"

text \<open>The muncher of transaction \<open>t\<close> with the parts \<open>K\<close> and the marks \<open>v\<close>, when the host of the url is \<open>h\<close>.\<close>

definition ref_muncher :: "txn \<Rightarrow> string option \<Rightarrow> 64 word set \<Rightarrow> 64 word \<Rightarrow> 64 word \<Rightarrow> muncher" where
  "ref_muncher t h K w v =
     \<lparr>cur_trans_parts = (\<lambda>k. if k = VALIDITY_STAT then Some (int_bytes 8 (uint w)) else if k \<in> K then part_ref t k else None),
      valid_parts = v, request_header = True, response_header = False, trans_txnp = t\<lparr>url_host := h\<rparr>\<rparr>"

definition host_after :: "txn \<Rightarrow> string option" where
  "host_after t = (if url_get t \<and> url_host_set t (host_ref t) then Some (host_ref t) else url_host t)"

definition retrieve_ref :: "64 word \<Rightarrow> txn \<Rightarrow> muncher result" where
  "retrieve_ref r t =
     (if r = 0 then Inr (new_muncher t)
      else if \<not> req_get t then Inl HeaderRetrieval
      else if r AND URL_WITH_HOST = 0 then Inr (ref_muncher t (url_host t) (parts_brought r) r r)
      else let v = HOST OR URL OR r in Inr (ref_muncher t (host_after t) (parts_brought r) v v))"

lemma ref_muncher_sel [simp]:
  "valid_parts (ref_muncher t h K w v) = v" "trans_txnp (ref_muncher t h K w v) = t\<lparr>url_host := h\<rparr>"
  "request_header (ref_muncher t h K w v)"
  "cur_trans_parts (ref_muncher t h K w v) =
     (\<lambda>k. if k = VALIDITY_STAT then Some (int_bytes 8 (uint w)) else if k \<in> K then part_ref t k else None)"
  by (simp_all add: ref_muncher_def)

lemma part_ref_eqs:
  "part_ref t IP = Some (case client_addr t of None \<Rightarrow> [] | Some a \<Rightarrow> inet_ntoa a)"
  "part_ref t URL = Some (case url_ref t of None \<Rightarrow> [] | Some u \<Rightarrow> u)"
  "part_ref t PROTOCOL = Some (case url_ref t of None \<Rightarrow> [] | Some u \<Rightarrow> url_scheme t)"
  "part_ref t URL_WITH_HOST =
     (if \<not> url_get t then Some [] else if \<not> url_host_set t (host_ref t) then None
      else Some (case url_string t (Some (host_ref t)) of None \<Rightarrow> [] | Some u \<Rightarrow> u))"
  "part_ref t METHOD = Some (case http_method t of None \<Rightarrow> [] | Some x \<Rightarrow> x)" "part_ref t HOST = Some (host_ref t)"
  "part_ref t UA = Some (field_ref t TS_MIME_FIELD_USER_AGENT)" "part_ref t COOKIE = Some (field_ref t TS_MIME_FIELD_COOKIE)"
  by (simp_all add: part_ref_def part_numbers)

lemma parts_not_validity:
  "URL \<noteq> VALIDITY_STAT" "PROTOCOL \<noteq> VALIDITY_STAT" "URL_WITH_HOST \<noteq> VALIDITY_STAT" "METHOD \<noteq> VALIDITY_STAT"
  "UA \<noteq> VALIDITY_STAT" "COOKIE \<noteq> VALIDITY_STAT"
  by (simp_all add: part_numbers)

lemma put_ref: "part_ref t k = Some x \<Longrightarrow> k \<noteq> VALIDITY_STAT \<Longrightarrow>
  put_part k x (ref_muncher t h K w v) = ref_muncher t h (insert k K) w v"
  by (auto simp: put_part_def ref_muncher_def)

lemma insert_ref: "part_ref t k = Some x \<Longrightarrow> k \<noteq> VALIDITY_STAT \<Longrightarrow>
  insert_part k x (ref_muncher t h K w v) = ref_muncher t h (insert k K) w v"
  by (auto simp: insert_part_def put_ref insert_absorb)

lemma retrieve_one_ref:
  "retrieve_ip (ref_muncher t h K w v) = ref_muncher t h (insert IP K) w v"
  "retrieve_method (ref_muncher t h K w v) = ref_muncher t h (insert METHOD K) w v"
  "retrieve_host (ref_muncher t h K w v) = ref_muncher t h (insert HOST K) w v"
  "retrieve_ua (ref_muncher t h K w v) = ref_muncher t h (insert UA K) w v"
  "retrieve_cookie (ref_muncher t h K w v) = ref_muncher t h (insert COOKIE K) w v"
  by (simp_all add: retrieve_ip_def retrieve_method_def retrieve_host_def retrieve_ua_def retrieve_cookie_def
      field_value_def put_ref insert_ref part_ref_eqs parts_not_validity host_ref_def field_ref_def)

lemma retrieve_url_ref:
  "retrieve_url (ref_muncher t (url_host t) K w v) = ref_muncher t (url_host t) (insert PROTOCOL (insert URL K)) w v"
  by (auto simp: retrieve_url_def url_text_def insert_ref part_ref_eqs parts_not_validity url_ref_def split: option.split)

lemma retrieve_front_ref:
  "retrieve_front r (ref_muncher t (url_host t) K w v) =
   ref_muncher t (url_host t) (K \<union> (if r AND IP \<noteq> 0 then {IP} else {}) \<union>
     (if r AND URL \<noteq> 0 \<or> r AND PROTOCOL \<noteq> 0 then {URL, PROTOCOL} else {})) w v"
  by (auto simp: retrieve_front_def retrieve_one_ref retrieve_url_ref Un_commute insert_commute)

lemma retrieve_back_ref:
  "retrieve_back r (ref_muncher t h K w v) =
   ref_muncher t h (K \<union> {k \<in> {METHOD, HOST, UA, COOKIE}. r AND k \<noteq> 0}) w v"
  by (auto simp: retrieve_back_def retrieve_one_ref Let_def intro!: arg_cong [of _ _ "\<lambda>K. ref_muncher t h K w v"])

lemma mark_ref: "update_validity_status ((ref_muncher t h K w v)\<lparr>valid_parts := v'\<rparr>) = ref_muncher t h K v' v'"
  by (auto simp: update_validity_status_def put_part_def ref_muncher_def)

lemma fresh_ref: "req_get t \<Longrightarrow> retrieve_request_header (new_muncher t) = Inr (ref_muncher t (url_host t) {} 0 0)"
  by (auto simp: retrieve_request_header_def new_muncher_def update_validity_status_def put_part_def ref_muncher_def)

lemma retrieve_plain_ref:
  assumes "r AND URL_WITH_HOST = 0" and "r \<noteq> 0" and "retrieve_request_header m = Inr (ref_muncher t (url_host t) K w 0)"
  shows "retrieve_parts r m = Inr (ref_muncher t (url_host t) (K \<union> parts_brought r) r r)"
proof -
  have "valid_parts m = 0"
    using assms(3) by (auto simp: retrieve_request_header_def dest!: arg_cong [of _ _ valid_parts] split: if_splits)
  then show ?thesis
    using assms
    by (subst retrieve_parts_unfold)
       (auto simp: retrieve_front_ref retrieve_back_ref mark_ref parts_brought_def request_parts_def Let_def
         intro!: arg_cong [of _ _ "\<lambda>K. ref_muncher t (url_host t) K r r"])
qed

lemma retrieve_url_with_host_ref:
  assumes "HOST \<in> K"
  shows "retrieve_url_with_host (ref_muncher t (url_host t) K w v) = ref_muncher t (host_after t) (insert URL_WITH_HOST K) w v"
proof -
  have idx: "part_index (cur_trans_parts (ref_muncher t h K w v)) HOST = (host_ref t, cur_trans_parts (ref_muncher t h K w v))" for h
    using assms by (simp add: part_index_def part_ref_eqs)
  have same: "(ref_muncher t h K w v)\<lparr>cur_trans_parts := cur_trans_parts (ref_muncher t h K w v)\<rparr> = ref_muncher t h K w v" for h
    by (simp add: ref_muncher_def)
  have set: "(ref_muncher t h K w v)\<lparr>cur_trans_parts := cur_trans_parts (ref_muncher t h K w v), trans_txnp := t\<lparr>url_host := Some h'\<rparr>\<rparr> =
      ref_muncher t (Some h') K w v" for h h'
    by (simp add: ref_muncher_def)
  have none: "part_ref t URL_WITH_HOST = None \<Longrightarrow> ref_muncher t h (insert URL_WITH_HOST K) w v = ref_muncher t h K w v" for h
    by (auto simp: ref_muncher_def)
  show ?thesis
    using none
    by (auto simp: retrieve_url_with_host_def TSUrlHostSet_def host_after_def idx [simplified] same [simplified] set [simplified] url_text_def insert_ref part_ref_eqs
        parts_not_validity Let_def split: option.split)
qed

lemma retrieve_parts_ref: "retrieve_parts r (new_muncher t) = retrieve_ref r t"
proof -
  have v: "valid_parts (new_muncher t) = 0" "\<not> request_header (new_muncher t)" "trans_txnp (new_muncher t) = t"
    by (simp_all add: new_muncher_def update_validity_status_def put_part_def)
  consider "r = 0" | "r \<noteq> 0" "\<not> req_get t" | (plain) "r \<noteq> 0" "req_get t" "r AND URL_WITH_HOST = 0"
    | (with_host) "req_get t" "r AND URL_WITH_HOST \<noteq> 0" by blast
  then show ?thesis
  proof cases
    case plain
    then show ?thesis using retrieve_plain_ref [OF plain(3,1) fresh_ref [OF plain(2)]] by (simp add: retrieve_ref_def)
  next
    case with_host
    let ?K = "(if r AND IP \<noteq> 0 then {IP} else {}) \<union> (if r AND URL \<noteq> 0 \<or> r AND PROTOCOL \<noteq> 0 then {URL, PROTOCOL} else {})"
    let ?m = "ref_muncher t (url_host t) ?K 0 0" and ?hu = "HOST OR URL"
    have "retrieve_parts ?hu ?m = Inr (ref_muncher t (url_host t) (?K \<union> parts_brought ?hu) ?hu ?hu)"
      by (rule retrieve_plain_ref) (simp_all add: part_numbers retrieve_request_header_def)
    moreover have hu: "parts_brought ?hu = {HOST, URL, PROTOCOL}" by (auto simp: parts_brought_def request_parts_def part_numbers)
    moreover have "r \<noteq> 0" using with_host by auto
    ultimately show ?thesis
      using with_host v fresh_ref [of t]
      by (subst retrieve_parts_unfold)
         (auto simp: retrieve_front_ref retrieve_url_with_host_ref retrieve_back_ref mark_ref retrieve_ref_def parts_brought_def
           request_parts_def Let_def or.assoc intro!: arg_cong [of _ _ "\<lambda>K. ref_muncher t _ K _ _"])
  qed (use v fresh_ref [of t] in \<open>auto simp: retrieve_ref_def retrieve_parts_unfold [of _ "new_muncher t"]
      retrieve_request_header_def\<close>)
qed

lemma fresh_part_value:
  assumes "retrieve_parts r (new_muncher t) = Inr m" and "cur_trans_parts m k = Some v" and "k \<noteq> VALIDITY_STAT"
  shows "part_ref t k = Some v"
proof -
  have "cur_trans_parts (new_muncher t) k = None" using assms(3) by (simp add: new_muncher_def update_validity_status_def)
  with assms show ?thesis
    unfolding retrieve_parts_ref retrieve_ref_def by (auto simp: Let_def split: if_splits)
qed

text \<open>C21: \<open>retrieve_parts\<close> computes the parts. For the muncher of a new transaction and any set of requested parts
  the result, with its marks and the host left in the url, is that of the reference, which looks at the transaction
  once: every part that was asked for has its value, the url still has the host it came with although the url
  with the host of the request is made from the same object, and nothing else is there. It fails exactly if something
  is asked for and the server does not have the header.\<close>

theorem retrieved_parts_are_those_of_the_request: "retrieve_parts r (new_muncher t) = retrieve_ref r t"
  by (rule retrieve_parts_ref)

end
