(* ===== verification/BotSniffer.thy ===== *)
theory BotSniffer
  imports Challenger Muncher
begin

text \<open>
  The bot sniffer (bot_sniffer.h, bot_sniffer.cpp), which publishes a line about every finished
  transaction, and the encryption of its messages (util.cpp). Parameters, collected in \<open>gcm_lib\<close>:
  OpenSSL's random bytes (the answer depends on the counter of the world) and the steps of its AES-GCM
  encryption, as functions of the key, the initialization vector and the plain text; each can fail.
  \<open>sniffer_sent\<close> lists the frames handed to the socket, with their \<open>ZMQ_SNDMORE\<close> flag.
\<close>

section \<open>Encrypted messages\<close>

record gcm_lib =
  rand_bytes :: "nat \<Rightarrow> string option"
  evp_ctx_new :: bool
  evp_encrypt_init :: "string \<Rightarrow> string \<Rightarrow> bool"
  evp_encrypt_update :: "string \<Rightarrow> string \<Rightarrow> string \<Rightarrow> string option"
  evp_encrypt_final :: "string \<Rightarrow> string \<Rightarrow> string \<Rightarrow> string option"
  evp_get_tag :: "string \<Rightarrow> string \<Rightarrow> string \<Rightarrow> string option"

definition c_cipher_block_size :: nat where "c_cipher_block_size = 16"
definition c_gcm_tag_size :: nat where "c_gcm_tag_size = 16"
definition c_gcm_iv_size :: nat where "c_gcm_iv_size = 12"
definition c_max_enc_length :: nat where "c_max_enc_length = 2147483647"

lemmas gcm_sizes = c_cipher_block_size_def c_gcm_tag_size_def c_gcm_iv_size_def c_max_enc_length_def

text \<open>\<open>gcm_encrypt\<close>: what is written behind the initialization vector (the bytes of the update and of
  the final step) with the length the function returns (that of the update alone), and the tag.
  \<open>space\<close> is the room there is for the first.\<close>

definition gcm_encrypt :: "gcm_lib \<Rightarrow> nat \<Rightarrow> string \<Rightarrow> string \<Rightarrow> string \<Rightarrow> (string \<times> nat \<times> string) result" where
  "gcm_encrypt G space plaintext key iv =
     (if \<not> evp_ctx_new G then Inl EncryptionError
      else if \<not> evp_encrypt_init G key iv then Inl EncryptionError
      else case evp_encrypt_update G key iv plaintext of
        None \<Rightarrow> Inl EncryptionError
      | Some c \<Rightarrow>
          (case evp_encrypt_final G key iv plaintext of
             None \<Rightarrow> Inl EncryptionError
           | Some f \<Rightarrow>
               if space < length (c @ f) then Inl BufferOverflow
               else case evp_get_tag G key iv plaintext of
                 None \<Rightarrow> Inl EncryptionError
               | Some tag \<Rightarrow> Inr (c @ f, length c, tag)))"

text \<open>\<open>send_zmq_encrypted_message\<close>: the frame that is sent. The tag is copied behind the first
  \<open>enc_length\<close> bytes of the cipher text.\<close>

definition encrypted_frame :: "gcm_lib \<Rightarrow> nat \<Rightarrow> string \<Rightarrow> string \<Rightarrow> string result" where
  "encrypted_frame G n mess encryption_key =
     (case rand_bytes G n of
        None \<Rightarrow> Inl EncryptionError
      | Some iv \<Rightarrow>
          let iv = take c_gcm_iv_size iv in
          rbind (gcm_encrypt G (length mess + c_cipher_block_size - 1 + c_gcm_tag_size) mess encryption_key iv) (\<lambda>(enc, enc_length, tag).
          if enc_length < length mess \<or> enc_length > c_max_enc_length then Inl EncryptionError
          else if length mess + c_cipher_block_size - 1 < enc_length then Inl BufferOverflow
          else Inr (iv @ take enc_length enc @ take c_gcm_tag_size tag)))"

section \<open>State\<close>

record sniffer_state = challenger_state +
  sniffer_socket :: "socket option"
  botbanger_port :: int
  botbanger_server :: string
  encryption_key :: string
  sniffer_endpoint :: string
  sniffer_sent :: "(string \<times> bool) list"

definition LOG :: string where "LOG = ''botbanger_log''"

definition BotSniffer_requested_info :: "64 word" where
  "BotSniffer_requested_info = IP OR UA OR URL_WITH_HOST OR PROTOCOL"

definition BotSniffer_response_info :: "64 word" where
  "BotSniffer_response_info = STATUS OR CONTENT_LENGTH"

definition send_zmq_mess :: "string \<Rightarrow> bool \<Rightarrow> 's sniffer_state_scheme \<Rightarrow> 's sniffer_state_scheme" where
  "send_zmq_mess mess snd_more st = st\<lparr>sniffer_sent := sniffer_sent st @ [(mess, snd_more)]\<rparr>"

definition send_zmq_encrypted_message :: "gcm_lib \<Rightarrow> string \<Rightarrow> string \<Rightarrow> bool \<Rightarrow> 's sniffer_state_scheme \<Rightarrow> 's sniffer_state_scheme result" where
  "send_zmq_encrypted_message G mess key snd_more st =
     rbind (encrypted_frame G (tick st) mess key) (\<lambda>m.
     Inr (send_zmq_mess m snd_more (st\<lparr>tick := Suc (tick st)\<rparr>)))"

section \<open>The filter\<close>

definition BotSniffer_load_config :: "yaml_lib \<Rightarrow> challenge_lib \<Rightarrow> yaml \<Rightarrow> 's sniffer_state_scheme \<Rightarrow> 's sniffer_state_scheme result" where
  "BotSniffer_load_config Y L cfg st =
     rbind (field cfg ''botbanger_port'' (as_uint Y)) (\<lambda>port.
     rbind (field cfg ''key'' (as_string Y)) (\<lambda>passphrase.
     let endpoint = ''tcp://'' @ botbanger_server st @ '':'' @ to_string port;
         st1 = st\<lparr>botbanger_port := port, encryption_key := sha256 L passphrase, sniffer_endpoint := endpoint\<rparr> in
     if (case sniffer_socket st1 of None \<Rightarrow> True | Some s \<Rightarrow> local_endpoint_s s \<noteq> endpoint) then
       let (_, s, st2) = bind_socket endpoint new_socket st1 in Inr (st2\<lparr>sniffer_socket := Some s\<rparr>)
     else Inr st1))"

definition new_bot_sniffer :: "yaml_lib \<Rightarrow> challenge_lib \<Rightarrow> yaml \<Rightarrow> socket option \<Rightarrow> 's sniffer_state_scheme \<Rightarrow> 's sniffer_state_scheme result" where
  "new_bot_sniffer Y L cfg s st =
     BotSniffer_load_config Y L cfg (st\<lparr>sniffer_socket := s, botbanger_server := ''*''\<rparr>)"

text \<open>The marks of the valid parts, read through a pointer into the string.\<close>

definition validity_marks :: "string \<Rightarrow> 64 word result" where
  "validity_marks s =
     (if length s + 1 < 8 then Inl OutOfBoundsRead else Inr (word_of_int (bytes_int (take 8 (s @ [NUL])))))"

definition valid_or_empty :: "64 word \<Rightarrow> transaction_parts \<Rightarrow> 64 word \<Rightarrow> string result" where
  "valid_or_empty marks parts k =
     (if marks AND k \<noteq> 0 then rbind (part_at parts k) Encode else Inr [])"

text \<open>The line: fields in base64, separated by commas. The last one says HIT when the part \<open>MISS\<close> is
  there.\<close>

definition sniffer_line :: "transaction_parts \<Rightarrow> 64 word \<Rightarrow> string \<Rightarrow> string result" where
  "sniffer_line parts marks time_text =
     rbind (valid_or_empty marks parts IP) (\<lambda>ip.
     rbind (Encode time_text) (\<lambda>t.
     rbind (valid_or_empty marks parts URL_WITH_HOST) (\<lambda>url.
     rbind (valid_or_empty marks parts PROTOCOL) (\<lambda>protocol.
     rbind (valid_or_empty marks parts STATUS) (\<lambda>status.
     rbind (valid_or_empty marks parts CONTENT_LENGTH) (\<lambda>len.
     rbind (valid_or_empty marks parts UA) (\<lambda>ua.
     rbind (Encode (if parts MISS \<noteq> None then ''HIT'' else ''MISS'')) (\<lambda>hit.
     Inr (ip @ '','' @ t @ '','' @ url @ '','' @ protocol @ '','' @ status @ '','' @ len @ '','' @ ua @ '','' @ hit)))))))))"

text \<open>The socket to publish on, bound if possible.\<close>

definition ready_socket :: "'s sniffer_state_scheme \<Rightarrow> bool \<times> 's sniffer_state_scheme" where
  "ready_socket st =
     (case sniffer_socket st of
        None \<Rightarrow> (False, st)
      | Some s \<Rightarrow>
          if is_bound s then (True, st)
          else let (ok, s1, st1) = bind_socket (sniffer_endpoint st) s st in (ok, st1\<lparr>sniffer_socket := Some s1\<rparr>))"

definition BotSniffer_on_http_close :: "gcm_lib \<Rightarrow> transaction_parts \<Rightarrow> 's sniffer_state_scheme \<Rightarrow> 's sniffer_state_scheme result" where
  "BotSniffer_on_http_close G parts st =
     (let (now, st1) = time_now st in
      rbind (part_at parts VALIDITY_STAT) (\<lambda>v.
      rbind (validity_marks v) (\<lambda>marks.
      let (locked, st2) = try_lock st1 in
      if \<not> locked then Inr st2
      else
        let (ok, st3) = ready_socket st2 in
        if \<not> ok then Inr st3
        else
          rbind (sniffer_line parts marks (iso_time (gmtime now))) (\<lambda>plaintext_log.
          send_zmq_encrypted_message G plaintext_log (encryption_key st3) False (send_zmq_mess LOG True st3)))))"

definition BotSniffer_release_socket :: "'s sniffer_state_scheme \<Rightarrow> socket option \<times> 's sniffer_state_scheme" where
  "BotSniffer_release_socket st = (sniffer_socket st, st\<lparr>sniffer_socket := None\<rparr>)"

section \<open>Properties\<close>

text \<open>What the receiver does: take the frame apart, decrypt, split the line at the commas and decode
  the fields.\<close>

fun split_on :: "char \<Rightarrow> string \<Rightarrow> string list" where
  "split_on sep [] = [[]]"
| "split_on sep (c # s) =
     (if c = sep then [] # split_on sep s
      else case split_on sep s of [] \<Rightarrow> [[c]] | f # fs \<Rightarrow> (c # f) # fs)"

definition open_frame :: "(string \<Rightarrow> string \<Rightarrow> string \<Rightarrow> string \<Rightarrow> string option) \<Rightarrow> string \<Rightarrow> string \<Rightarrow> string option" where
  "open_frame dec key frame =
     (let iv = take c_gcm_iv_size frame; rest = drop c_gcm_iv_size frame; n = length rest - c_gcm_tag_size
      in dec key iv (take n rest) (drop n rest))"

definition read_fields :: "string \<Rightarrow> string result list" where
  "read_fields line = map Decode (split_on (CHR '','') line)"

lemma split_on_field: "sep \<notin> set f \<Longrightarrow> split_on sep (f @ sep # s) = f # split_on sep s"
  by (induction f) auto

lemma split_on_last: "sep \<notin> set f \<Longrightarrow> split_on sep f = [f]"
  by (induction f) auto

lemma Encode_no_comma: "Encode s = Inr e \<Longrightarrow> CHR '','' \<notin> set e"
proof -
  assume "Encode s = Inr e"
  then have "set e \<subseteq> set b64_table \<union> {CHR ''=''}" by (rule Encode_length_and_alphabet)
  moreover have "CHR '','' \<notin> set b64_table \<union> {CHR ''=''}" by (simp add: b64_table_def)
  ultimately show ?thesis by blast
qed

definition field_text :: "64 word \<Rightarrow> transaction_parts \<Rightarrow> 64 word \<Rightarrow> string" where
  "field_text marks parts k = (if marks AND k \<noteq> 0 then (case parts k of Some s \<Rightarrow> s | None \<Rightarrow> []) else [])"

lemma valid_or_empty_field:
  assumes "valid_or_empty marks parts k = Inr e"
  shows "CHR '','' \<notin> set e \<and> Decode e = Inr (field_text marks parts k)"
proof (cases "marks AND k = 0")
  case True
  with assms show ?thesis by (simp add: valid_or_empty_def field_text_def Decode_def)
next
  case False
  with assms obtain s where "parts k = Some s" "Encode s = Inr e"
    by (auto simp: valid_or_empty_def part_at_def split: option.splits)
  with False Encode_no_comma b64.dec_enc show ?thesis by (simp add: field_text_def)
qed

lemma sniffer_line_fields:
  assumes "sniffer_line parts marks t = Inr line"
  shows "read_fields line =
    map Inr [field_text marks parts IP, t, field_text marks parts URL_WITH_HOST, field_text marks parts PROTOCOL,
      field_text marks parts STATUS, field_text marks parts CONTENT_LENGTH, field_text marks parts UA,
      if parts MISS \<noteq> None then ''HIT'' else ''MISS'']"
proof -
  from assms obtain a b c d e f g h where
    "valid_or_empty marks parts IP = Inr a" "Encode t = Inr b" "valid_or_empty marks parts URL_WITH_HOST = Inr c"
    "valid_or_empty marks parts PROTOCOL = Inr d" "valid_or_empty marks parts STATUS = Inr e"
    "valid_or_empty marks parts CONTENT_LENGTH = Inr f" "valid_or_empty marks parts UA = Inr g"
    "Encode (if parts MISS \<noteq> None then ''HIT'' else ''MISS'') = Inr h"
    and "line = a @ '','' @ b @ '','' @ c @ '','' @ d @ '','' @ e @ '','' @ f @ '','' @ g @ '','' @ h"
    by (auto simp: sniffer_line_def rbind_eq_Inr_iff)
  then show ?thesis
    using valid_or_empty_field Encode_no_comma b64.dec_enc
    by (simp add: read_fields_def split_on_field split_on_last)
qed

lemma validity_marks_of_word: "validity_marks (int_bytes 8 (uint w)) = Inr w" for w :: "64 word"
proof -
  have "take 8 (int_bytes 8 (uint w) @ [NUL]) = int_bytes 8 (uint w)" by simp
  moreover have "uint w mod 256 ^ 8 = uint w" using uint_lt2p [of w] by simp
  ultimately show ?thesis by (simp add: validity_marks_def bytes_int_bytes)
qed

text \<open>What is documented of AES-GCM: the cipher text is as long as the plain text, the tag has 16
  bytes, and the decryption with the same key, vector and tag gives the plain text back; and
  \<open>RAND_bytes\<close> fills the 12 bytes it is asked for.\<close>

definition gcm_correct :: "gcm_lib \<Rightarrow> (string \<Rightarrow> string \<Rightarrow> string \<Rightarrow> string \<Rightarrow> string option) \<Rightarrow> bool" where
  "gcm_correct G dec \<longleftrightarrow>
     (\<forall>n iv. rand_bytes G n = Some iv \<longrightarrow> length iv = c_gcm_iv_size) \<and>
     (\<forall>key iv p c tag. evp_encrypt_update G key iv p = Some c \<longrightarrow> evp_get_tag G key iv p = Some tag \<longrightarrow>
        length c = length p \<and> length tag = c_gcm_tag_size \<and> dec key iv c tag = Some p)"

lemma open_encrypted_frame:
  assumes "gcm_correct G dec" and "encrypted_frame G n mess key = Inr frame"
  shows "open_frame dec key frame = Some mess"
proof -
  from assms(2) obtain iv enc len tag where iv: "rand_bytes G n = Some iv"
    and g: "gcm_encrypt G (length mess + c_cipher_block_size - 1 + c_gcm_tag_size) mess key (take c_gcm_iv_size iv) = Inr (enc, len, tag)"
    and frame: "frame = take c_gcm_iv_size iv @ take len enc @ take c_gcm_tag_size tag"
    by (auto simp: encrypted_frame_def Let_def rbind_eq_Inr_iff split: option.splits if_splits)
  from g obtain c f where cf: "enc = c @ f" "len = length c" "evp_encrypt_update G key (take c_gcm_iv_size iv) mess = Some c"
    "evp_get_tag G key (take c_gcm_iv_size iv) mess = Some tag"
    by (auto simp: gcm_encrypt_def split: option.splits if_splits)
  have "length iv = c_gcm_iv_size" using assms(1) iv by (simp add: gcm_correct_def)
  moreover have "length tag = c_gcm_tag_size" "dec key (take c_gcm_iv_size iv) c tag = Some mess"
    using assms(1) cf(3,4) unfolding gcm_correct_def by blast+
  ultimately show ?thesis by (simp add: open_frame_def frame cf(1,2) Let_def)
qed

lemma ready_socket_frame:
  "ready_socket st = (ok, st') \<Longrightarrow> sniffer_sent st' = sniffer_sent st \<and> encryption_key st' = encryption_key st"
  by (auto simp: ready_socket_def bind_socket_def world_simps Let_def split: option.splits if_splits)

text \<open>C26: What the bot sniffer publishes can be read. For every transaction whose parts were retrieved
  through the muncher, whatever the parts contain: if closing it publishes anything, it publishes the
  topic and one encrypted frame, and a receiver who knows the key decrypts the frame and finds, split
  at the commas and decoded, the address, the time of closing, the url, the protocol, the status, the
  length and the user agent (empty where a part was not retrieved), and last HIT if the request was
  sent on to the origin, MISS if it was answered from the cache.\<close>

theorem sniffer_log_is_readable:
  assumes "gcm_correct G dec" and "muncher_inv m"
    and "BotSniffer_on_http_close G (cur_trans_parts m) st = Inr st'" and "sniffer_sent st' \<noteq> sniffer_sent st"
  shows "\<exists>frame line. sniffer_sent st' = sniffer_sent st @ [(LOG, True), (frame, False)] \<and>
    open_frame dec (encryption_key st) frame = Some line \<and>
    read_fields line = map Inr
      (map (field_text (valid_parts m) (cur_trans_parts m)) [IP] @ [iso_time (gmtime (fst (clock st (tick st))))] @
       map (field_text (valid_parts m) (cur_trans_parts m)) [URL_WITH_HOST, PROTOCOL, STATUS, CONTENT_LENGTH, UA] @
       [if cur_trans_parts m MISS \<noteq> None then ''HIT'' else ''MISS''])"
proof -
  let ?st2 = "st\<lparr>tick := Suc (Suc (tick st))\<rparr>"
  have marks: "cur_trans_parts m VALIDITY_STAT = Some (int_bytes 8 (uint (valid_parts m)))"
    using assms(2) by (simp add: muncher_inv_def)
  obtain ok st3 where r: "ready_socket ?st2 = (ok, st3)" by (metis surj_pair)
  note f = ready_socket_frame [OF r]
  from assms(3,4) r f obtain line st4 where
    line: "sniffer_line (cur_trans_parts m) (valid_parts m) (iso_time (gmtime (fst (clock st (tick st))))) = Inr line"
    and sent: "send_zmq_encrypted_message G line (encryption_key st3) False (send_zmq_mess LOG True st3) = Inr st'"
    by (auto simp: BotSniffer_on_http_close_def world_simps part_at_def marks validity_marks_of_word rbind_eq_Inr_iff
        split: if_splits)
  from sent obtain n frame where frame: "encrypted_frame G n line (encryption_key st3) = Inr frame"
    and st': "sniffer_sent st' = sniffer_sent st3 @ [(LOG, True), (frame, False)]"
    by (auto simp: send_zmq_encrypted_message_def send_zmq_mess_def rbind_eq_Inr_iff)
  from open_encrypted_frame [OF assms(1) frame] f sniffer_line_fields [OF line] st' show ?thesis by simp
qed

text \<open>A cipher that does nothing, and a sniffer with a bound socket.\<close>

definition sample_gcm :: gcm_lib where
  "sample_gcm =
     \<lparr>rand_bytes = (\<lambda>_. Some (replicate 12 (CHR ''r''))), evp_ctx_new = True, evp_encrypt_init = (\<lambda>_ _. True),
      evp_encrypt_update = (\<lambda>_ _ p. Some p), evp_encrypt_final = (\<lambda>_ _ _. Some []),
      evp_get_tag = (\<lambda>_ _ _. Some (replicate 16 (CHR ''t'')))\<rparr>"

definition sample_sniffer :: sniffer_state where
  "sample_sniffer = challenger_state.extend sample_state
     \<lparr>sniffer_socket = Some \<lparr>zmq_endpoint = Some ''tcp://*:1'', local_endpoint_s = ''tcp://*:1''\<rparr>, botbanger_port = 1,
      botbanger_server = ''*'', encryption_key = ''key'', sniffer_endpoint = ''tcp://*:1'', sniffer_sent = []\<rparr>"

lemma sample_gcm_correct: "gcm_correct sample_gcm (\<lambda>_ _ c _. Some c)"
  by (auto simp: gcm_correct_def sample_gcm_def gcm_sizes)

theorem sniffer_log_is_readable_witness:
  "\<exists>st' frame line. BotSniffer_on_http_close sample_gcm (cur_trans_parts (new_muncher sample_txn)) sample_sniffer = Inr st' \<and>
     sniffer_sent st' = [(LOG, True), (frame, False)] \<and> open_frame (\<lambda>_ _ c _. Some c) ''key'' frame = Some line \<and>
     read_fields line = map Inr [[], ''1970-01-01T00:00:05'', [], [], [], [], [], ''MISS'']"
proof -
  let ?p = "cur_trans_parts (new_muncher sample_txn)" and ?t = "''1970-01-01T00:00:05''"
  have clk: "iso_time (gmtime 5) = ?t" by code_simp
  obtain t where t: "Encode ?t = Inr t" "length t = 28" by (rule b64.enc_obtain [of ?t]) (simp_all add: encode_length_def)
  obtain hit where hit: "Encode ''MISS'' = Inr hit" "length hit = 8"
    by (rule b64.enc_obtain [of "''MISS''"]) (simp_all add: encode_length_def)
  have p: "?p VALIDITY_STAT = Some (int_bytes 8 (uint (0 :: 64 word)))" "?p MISS = None"
    by (simp_all add: new_muncher_def update_validity_status_def part_numbers)
  have z: "validity_marks (int_bytes 8 0) = Inr 0" using validity_marks_of_word [of 0] by simp
  have "\<exists>st'. BotSniffer_on_http_close sample_gcm ?p sample_sniffer = Inr st' \<and> sniffer_sent st' \<noteq> []"
    using t hit by (simp add: BotSniffer_on_http_close_def world_simps sample_sniffer_def challenger_state.extend_def
        sample_state_def part_at_def p z ready_socket_def is_bound_def sniffer_line_def
        valid_or_empty_def clk send_zmq_encrypted_message_def encrypted_frame_def gcm_encrypt_def sample_gcm_def gcm_sizes
        send_zmq_mess_def)
  then obtain st' where st': "BotSniffer_on_http_close sample_gcm ?p sample_sniffer = Inr st'" "sniffer_sent st' \<noteq> []"
    by blast
  have c: "clock sample_sniffer n = (5, 0)" for n
    by (simp add: sample_sniffer_def challenger_state.extend_def sample_state_def)
  have s: "sniffer_sent sample_sniffer = []" "encryption_key sample_sniffer = ''key''"
    by (simp_all add: sample_sniffer_def challenger_state.extend_def)
  have v: "valid_parts (new_muncher sample_txn) = 0"
    by (simp add: new_muncher_def update_validity_status_def)
  from sniffer_log_is_readable [OF sample_gcm_correct new_muncher_inv st'(1)] st' s c clk v p(2) show ?thesis
    by (simp add: field_text_def)
qed

text \<open>A url whose host cannot be set ends the process. If the server refuses \<open>TSUrlHostSet\<close> for the
  host of a request, the part \<open>URL_WITH_HOST\<close> is marked as retrieved but is not there; when the
  transaction closes and the sniffer can publish, it reads the part with \<open>map::at\<close>, which throws
  \<open>std::out_of_range\<close> out of the event handler (unless an earlier field is too long to be encoded, which
  throws as well).\<close>

theorem unsettable_host_throws_on_close:
  assumes "\<forall>h. \<not> url_host_set t h" and "url_get t"
    and "retrieve_parts BotSniffer_requested_info (new_muncher t) = Inr m"
    and "locks st (Suc (tick st))" and "sniffer_socket st = Some s" and "is_bound s"
  shows "valid_parts m AND URL_WITH_HOST \<noteq> 0 \<and> cur_trans_parts m URL_WITH_HOST = None \<and>
    BotSniffer_on_http_close G (cur_trans_parts m) st \<in> {Inl OutOfRange, Inl LengthError}"
proof -
  have v0: "valid_parts (new_muncher t) = 0" "trans_txnp (new_muncher t) = t"
    "cur_trans_parts (new_muncher t) URL_WITH_HOST = None"
    by (simp_all add: new_muncher_def update_validity_status_def part_numbers)
  note g = retrieve_parts_grows [OF assms(3) new_muncher_inv]
  have marked: "valid_parts m AND URL_WITH_HOST \<noteq> 0"
    using g v0(1) by (simp add: marked_or BotSniffer_requested_info_def) (simp add: part_numbers)
  have missing: "cur_trans_parts m URL_WITH_HOST = None"
    using unsettable_url_missing [OF assms(3)] v0 assms(1,2) by simp
  have "cur_trans_parts m VALIDITY_STAT = Some (int_bytes 8 (uint (valid_parts m)))" using g by blast
  moreover have "sniffer_line (cur_trans_parts m) (valid_parts m) x \<in> {Inl OutOfRange, Inl LengthError}" for x
  proof -
    have "valid_or_empty marks parts k = Inl e \<Longrightarrow> e \<in> {OutOfRange, LengthError}" for marks parts k e
      by (auto simp: valid_or_empty_def part_at_def Encode_def split: if_splits option.splits)
    moreover have "Encode y = Inl e \<Longrightarrow> e = LengthError" for y e by (simp add: Encode_def split: if_splits)
    moreover have "valid_or_empty (valid_parts m) (cur_trans_parts m) URL_WITH_HOST = Inl OutOfRange"
      using marked missing by (simp add: valid_or_empty_def part_at_def)
    ultimately show ?thesis unfolding sniffer_line_def
      by (cases "valid_or_empty (valid_parts m) (cur_trans_parts m) IP"; cases "Encode x") auto
  qed
  ultimately have "BotSniffer_on_http_close G (cur_trans_parts m) st \<in> {Inl OutOfRange, Inl LengthError}"
    using assms(4-6)
    by (simp add: BotSniffer_on_http_close_def world_simps part_at_def [of _ VALIDITY_STAT] validity_marks_of_word
        ready_socket_def) (metis (no_types, lifting) insertE rbind_simps(1) singletonD)
  with marked missing show ?thesis by blast
qed

theorem unsettable_host_throws_on_close_witness:
  "\<exists>m. retrieve_parts BotSniffer_requested_info (new_muncher (sample_txn\<lparr>url_host_set := \<lambda>_. False\<rparr>)) = Inr m \<and>
     BotSniffer_on_http_close sample_gcm (cur_trans_parts m) sample_sniffer \<in> {Inl OutOfRange, Inl LengthError}"
proof -
  let ?t = "sample_txn\<lparr>url_host_set := \<lambda>_. False\<rparr>"
  have "\<exists>m. retrieve_parts BotSniffer_requested_info (new_muncher ?t) = Inr m"
    by (rule retrieve_parts_total) (simp add: new_muncher_def update_validity_status_def sample_txn_def)
  then obtain m where m: "retrieve_parts BotSniffer_requested_info (new_muncher ?t) = Inr m" by blast
  have "locks sample_sniffer (Suc (tick sample_sniffer))"
    "sniffer_socket sample_sniffer = Some \<lparr>zmq_endpoint = Some ''tcp://*:1'', local_endpoint_s = ''tcp://*:1''\<rparr>"
    by (simp_all add: sample_sniffer_def challenger_state.extend_def sample_state_def)
  moreover have "is_bound \<lparr>zmq_endpoint = Some ''tcp://*:1'', local_endpoint_s = ''tcp://*:1''\<rparr>" by (simp add: is_bound_def)
  ultimately show ?thesis
    using unsettable_host_throws_on_close [of ?t, OF _ _ m, of sample_sniffer _ sample_gcm] m by (auto simp: sample_txn_def)
qed

end
