(* ===== verification/Print.thy ===== *)
theory Print
  imports Util
begin

text \<open>
  The texts of the log and of the error page (print.h): \<open>print::str\<close> writes its arguments one after the
  other into a \<open>std::stringstream\<close>, and \<open>print::debug\<close> hands the text to \<open>TSDebug\<close>. The stream is the record
  \<open>ostream\<close>, the text written so far and the base for integers, which \<open>std::hex\<close> and \<open>std::dec\<close> switch. The
  arguments the program prints are strings, integers of some width, and the three types of print.h with an
  operator of their own: status codes, events and ranges of addresses. The numbers of the status codes are
  those of HTTP, which the server's header uses; an event is one of those print.h names or another one.
\<close>

unbundle bit_operations_syntax

section \<open>The stream\<close>

record ostream =
  os_text :: string
  os_hex :: bool

definition new_stringstream :: ostream where
  "new_stringstream = \<lparr>os_text = [], os_hex = False\<rparr>"

definition put_text :: "string \<Rightarrow> ostream \<Rightarrow> ostream" where
  "put_text s os = os\<lparr>os_text := os_text os @ s\<rparr>"

definition std_hex :: "ostream \<Rightarrow> ostream" where "std_hex os = os\<lparr>os_hex := True\<rparr>"
definition std_dec :: "ostream \<Rightarrow> ostream" where "std_dec os = os\<lparr>os_hex := False\<rparr>"

definition hex_digit :: "nat \<Rightarrow> char" where
  "hex_digit d = char_of (if d < 10 then 48 + d else 87 + d)"

fun hex_nat :: "nat \<Rightarrow> string" where
  "hex_nat n = (if n < 16 then [hex_digit n] else hex_nat (n div 16) @ [hex_digit (n mod 16)])"

declare hex_nat.simps [simp del]

text \<open>An integer of \<open>w\<close> bits. In base 16 a negative number is written as the unsigned number with the same
  bits.\<close>

definition put_integer :: "nat \<Rightarrow> int \<Rightarrow> ostream \<Rightarrow> ostream" where
  "put_integer w n os = put_text (if os_hex os then hex_nat (nat (n mod 2 ^ w)) else to_string n) os"

section \<open>The operators of print.h\<close>

definition ts_http_status_names :: "(int \<times> string) list" where
  "ts_http_status_names =
     [(0, ''TS_HTTP_STATUS_NONE''),
      (100, ''TS_HTTP_STATUS_CONTINUE''),
      (101, ''TS_HTTP_STATUS_SWITCHING_PROTOCOL''),
      (200, ''TS_HTTP_STATUS_OK''),
      (201, ''TS_HTTP_STATUS_CREATED''),
      (202, ''TS_HTTP_STATUS_ACCEPTED''),
      (203, ''TS_HTTP_STATUS_NON_AUTHORITATIVE_INFORMATION''),
      (204, ''TS_HTTP_STATUS_NO_CONTENT''),
      (205, ''TS_HTTP_STATUS_RESET_CONTENT''),
      (206, ''TS_HTTP_STATUS_PARTIAL_CONTENT''),
      (207, ''TS_HTTP_STATUS_MULTI_STATUS''),
      (208, ''TS_HTTP_STATUS_ALREADY_REPORTED''),
      (226, ''TS_HTTP_STATUS_IM_USED''),
      (300, ''TS_HTTP_STATUS_MULTIPLE_CHOICES''),
      (301, ''TS_HTTP_STATUS_MOVED_PERMANENTLY''),
      (302, ''TS_HTTP_STATUS_MOVED_TEMPORARILY''),
      (303, ''TS_HTTP_STATUS_SEE_OTHER''),
      (304, ''TS_HTTP_STATUS_NOT_MODIFIED''),
      (305, ''TS_HTTP_STATUS_USE_PROXY''),
      (307, ''TS_HTTP_STATUS_TEMPORARY_REDIRECT''),
      (308, ''TS_HTTP_STATUS_PERMANENT_REDIRECT''),
      (400, ''TS_HTTP_STATUS_BAD_REQUEST''),
      (401, ''TS_HTTP_STATUS_UNAUTHORIZED''),
      (402, ''TS_HTTP_STATUS_PAYMENT_REQUIRED''),
      (403, ''TS_HTTP_STATUS_FORBIDDEN''),
      (404, ''TS_HTTP_STATUS_NOT_FOUND''),
      (405, ''TS_HTTP_STATUS_METHOD_NOT_ALLOWED''),
      (406, ''TS_HTTP_STATUS_NOT_ACCEPTABLE''),
      (407, ''TS_HTTP_STATUS_PROXY_AUTHENTICATION_REQUIRED''),
      (408, ''TS_HTTP_STATUS_REQUEST_TIMEOUT''),
      (409, ''TS_HTTP_STATUS_CONFLICT''),
      (410, ''TS_HTTP_STATUS_GONE''),
      (411, ''TS_HTTP_STATUS_LENGTH_REQUIRED''),
      (412, ''TS_HTTP_STATUS_PRECONDITION_FAILED''),
      (413, ''TS_HTTP_STATUS_REQUEST_ENTITY_TOO_LARGE''),
      (414, ''TS_HTTP_STATUS_REQUEST_URI_TOO_LONG''),
      (415, ''TS_HTTP_STATUS_UNSUPPORTED_MEDIA_TYPE''),
      (416, ''TS_HTTP_STATUS_REQUESTED_RANGE_NOT_SATISFIABLE''),
      (417, ''TS_HTTP_STATUS_EXPECTATION_FAILED''),
      (422, ''TS_HTTP_STATUS_UNPROCESSABLE_ENTITY''),
      (423, ''TS_HTTP_STATUS_LOCKED''),
      (424, ''TS_HTTP_STATUS_FAILED_DEPENDENCY''),
      (426, ''TS_HTTP_STATUS_UPGRADE_REQUIRED''),
      (428, ''TS_HTTP_STATUS_PRECONDITION_REQUIRED''),
      (429, ''TS_HTTP_STATUS_TOO_MANY_REQUESTS''),
      (431, ''TS_HTTP_STATUS_REQUEST_HEADER_FIELDS_TOO_LARGE''),
      (500, ''TS_HTTP_STATUS_INTERNAL_SERVER_ERROR''),
      (501, ''TS_HTTP_STATUS_NOT_IMPLEMENTED''),
      (502, ''TS_HTTP_STATUS_BAD_GATEWAY''),
      (503, ''TS_HTTP_STATUS_SERVICE_UNAVAILABLE''),
      (504, ''TS_HTTP_STATUS_GATEWAY_TIMEOUT''),
      (505, ''TS_HTTP_STATUS_HTTPVER_NOT_SUPPORTED''),
      (506, ''TS_HTTP_STATUS_VARIANT_ALSO_NEGOTIATES''),
      (507, ''TS_HTTP_STATUS_INSUFFICIENT_STORAGE''),
      (508, ''TS_HTTP_STATUS_LOOP_DETECTED''),
      (510, ''TS_HTTP_STATUS_NOT_EXTENDED''),
      (511, ''TS_HTTP_STATUS_NETWORK_AUTHENTICATION_REQUIRED'')]"

definition put_ts_http_status :: "int \<Rightarrow> ostream \<Rightarrow> ostream" where
  "put_ts_http_status s os =
     (case map_of ts_http_status_names s of
        Some name \<Rightarrow> put_text name os
      | None \<Rightarrow> put_text '')'' (put_integer 32 s (put_text ''TS_HTTP_STATUS('' os)))"

datatype print_event =
    TS_EVENT_HTTP_TXN_START | TS_EVENT_HTTP_READ_REQUEST_HDR | TS_EVENT_HTTP_READ_CACHE_HDR
  | TS_EVENT_HTTP_SEND_REQUEST_HDR | TS_EVENT_HTTP_SEND_RESPONSE_HDR | TS_EVENT_HTTP_TXN_CLOSE
  | TS_EVENT_TIMEOUT | TS_EVENT_other int

definition put_ts_event :: "print_event \<Rightarrow> ostream \<Rightarrow> ostream" where
  "put_ts_event e = put_text
     (case e of
        TS_EVENT_HTTP_TXN_START \<Rightarrow> ''TS_EVENT_HTTP_TXN_START''
      | TS_EVENT_HTTP_READ_REQUEST_HDR \<Rightarrow> ''TS_EVENT_HTTP_READ_REQUEST_HDR''
      | TS_EVENT_HTTP_READ_CACHE_HDR \<Rightarrow> ''TS_EVENT_HTTP_READ_CACHE_HDR''
      | TS_EVENT_HTTP_SEND_REQUEST_HDR \<Rightarrow> ''TS_EVENT_HTTP_SEND_REQUEST_HDR''
      | TS_EVENT_HTTP_SEND_RESPONSE_HDR \<Rightarrow> ''TS_EVENT_HTTP_SEND_RESPONSE_HDR''
      | TS_EVENT_HTTP_TXN_CLOSE \<Rightarrow> ''TS_EVENT_HTTP_TXN_CLOSE''
      | TS_EVENT_TIMEOUT \<Rightarrow> ''TS_EVENT_TIMEOUT''
      | TS_EVENT_other _ \<Rightarrow> ''UNKNOWN_TS_EVENT'')"

text \<open>A range: the address, which is kept in host order, in dotted notation, and the mask in base 16.\<close>

definition put_subnet_range :: "subnet_range \<Rightarrow> ostream \<Rightarrow> ostream" where
  "put_subnet_range r os =
     std_dec (put_integer 32 (uint (snd r)) (std_hex (put_text ''/'' (put_text (inet_ntoa (fst r)) os))))"

section \<open>Texts\<close>

datatype print_arg =
    Text string | Integer nat int | Http_Status int | Ts_Event print_event | Range subnet_range

fun put_arg :: "print_arg \<Rightarrow> ostream \<Rightarrow> ostream" where
  "put_arg (Text s) = put_text s"
| "put_arg (Integer w n) = put_integer w n"
| "put_arg (Http_Status s) = put_ts_http_status s"
| "put_arg (Ts_Event e) = put_ts_event e"
| "put_arg (Range r) = put_subnet_range r"

fun str_impl :: "ostream \<Rightarrow> print_arg list \<Rightarrow> string" where
  "str_impl ss [] = os_text ss"
| "str_impl ss (arg # args) = str_impl (put_arg arg ss) args"

definition str :: "print_arg list \<Rightarrow> string" where
  "str args = str_impl new_stringstream args"

definition BANJAX_PLUGIN_NAME :: string where "BANJAX_PLUGIN_NAME = ''banjax''"

text \<open>What \<open>TSDebug\<close> is given: the tag, and the text up to its first NUL.\<close>

definition debug :: "print_arg list \<Rightarrow> string \<times> string" where
  "debug args = (BANJAX_PLUGIN_NAME, cstr (str args))"

section \<open>Properties\<close>

lemma stream_sel [simp]:
  "os_text (put_text s os) = os_text os @ s" "os_hex (put_text s os) = os_hex os"
  "os_text (std_hex os) = os_text os" "os_hex (std_hex os)" "os_text (std_dec os) = os_text os" "\<not> os_hex (std_dec os)"
  "os_hex (put_integer w n os) = os_hex os"
  "os_text (put_integer w n os) = os_text os @ (if os_hex os then hex_nat (nat (n mod 2 ^ w)) else to_string n)"
  by (simp_all add: put_text_def std_hex_def std_dec_def put_integer_def)

text \<open>The text of one argument when the stream writes integers in decimal.\<close>

fun arg_text :: "print_arg \<Rightarrow> string" where
  "arg_text (Text s) = s"
| "arg_text (Integer w n) = to_string n"
| "arg_text (Http_Status s) =
     (case map_of ts_http_status_names s of Some name \<Rightarrow> name | None \<Rightarrow> ''TS_HTTP_STATUS('' @ to_string s @ '')'')"
| "arg_text (Ts_Event e) = os_text (put_ts_event e new_stringstream)"
| "arg_text (Range r) = inet_ntoa (fst r) @ ''/'' @ hex_nat (unat (snd r))"

lemma put_arg_text:
  "\<not> os_hex os \<Longrightarrow> os_text (put_arg a os) = os_text os @ arg_text a \<and> \<not> os_hex (put_arg a os)"
proof (cases a)
  case (Range r)
  moreover have "uint (snd r) mod 2 ^ 32 = uint (snd r)" using uint_bounded [of "snd r"] by simp
  ultimately show ?thesis by (simp add: put_subnet_range_def)
qed (auto simp: put_ts_http_status_def put_ts_event_def new_stringstream_def split: option.split)

lemma str_impl_text: "\<not> os_hex os \<Longrightarrow> str_impl os args = os_text os @ concat (map arg_text args)"
  by (induction args arbitrary: os) (simp_all add: put_arg_text)

lemma str_text: "str args = concat (map arg_text args)"
  by (simp add: str_def str_impl_text new_stringstream_def)

subsection \<open>Numbers are told apart\<close>

lemma hex_digit_inject: "i < 16 \<Longrightarrow> j < 16 \<Longrightarrow> hex_digit i = hex_digit j \<longleftrightarrow> i = j"
  by (auto simp: hex_digit_def dest!: arg_cong [of _ _ "of_char :: char \<Rightarrow> nat"] split: if_splits)

lemma div_mod_decomp_eq: "m div 16 = n div 16 \<Longrightarrow> m mod 16 = n mod 16 \<Longrightarrow> m = (n :: nat)"
  by (metis div_mult_mod_eq)

lemma hex_nat_inject: "hex_nat m = hex_nat n \<longleftrightarrow> m = n"
proof (induction m arbitrary: n rule: hex_nat.induct)
  case (1 m)
  have ne: "hex_nat k \<noteq> []" "[] \<noteq> hex_nat k" for k by (subst hex_nat.simps, simp)+
  have last: "hex_digit (m mod 16) = hex_digit (n mod 16) \<longleftrightarrow> m mod 16 = n mod 16" by (rule hex_digit_inject) simp_all
  show ?case
    using 1 [of "n div 16"] last ne
    by (subst (1 2) hex_nat.simps) (auto simp: hex_digit_inject intro: div_mod_decomp_eq)
qed

lemma decimal_nat_inject: "decimal_nat m = decimal_nat n \<longleftrightarrow> m = n"
proof
  assume "decimal_nat m = decimal_nat n"
  then have "fst (read_digits 10 0 0 (decimal_nat m @ [])) = fst (read_digits 10 0 0 (decimal_nat n @ []))" by simp
  then show "m = n" unfolding read_digits_acc by simp
qed simp

lemma to_string_inject: "to_string m = to_string n \<longleftrightarrow> m = n"
proof -
  have "decimal_nat k \<noteq> CHR ''-'' # s" for k s
    using decimal_nat_digits [of "CHR ''-''" k] by (auto simp: isdigit_def)
  moreover from this have "CHR ''-'' # s \<noteq> decimal_nat k" for k s by metis
  ultimately show ?thesis by (auto simp: to_string_def decimal_nat_inject)
qed

subsection \<open>The texts\<close>

lemma status_names_distinct: "distinct (map snd ts_http_status_names)"
  by code_simp

lemma status_name_no_paren:
  "map_of ts_http_status_names k = Some name \<Longrightarrow> name \<noteq> ''TS_HTTP_STATUS('' @ s \<and> ''TS_HTTP_STATUS('' @ s \<noteq> name"
  by (drule map_of_SomeD) (auto simp: ts_http_status_names_def)

lemma status_text_inject: "arg_text (Http_Status s) = arg_text (Http_Status t) \<longleftrightarrow> s = t"
proof
  assume eq: "arg_text (Http_Status s) = arg_text (Http_Status t)"
  show "s = t"
  proof (cases "map_of ts_http_status_names s"; cases "map_of ts_http_status_names t")
    fix a b
    assume m: "map_of ts_http_status_names s = Some a" "map_of ts_http_status_names t = Some b"
    with eq have "a = b" by simp
    with m [THEN map_of_SomeD] status_names_distinct show "s = t"
      by (metis distinct_map inj_onD prod.inject snd_conv)
  qed (use eq in \<open>auto simp: to_string_inject dest: status_name_no_paren\<close>)
qed simp

lemma range_text_inject: "arg_text (Range r) = arg_text (Range q) \<longleftrightarrow> r = q"
proof
  have slash: "CHR ''/'' \<notin> set (inet_ntoa a)" for a
    using decimal_nat_digits [of "CHR ''/''"] by (auto simp: inet_ntoa_def isdigit_def)
  assume eq: "arg_text (Range r) = arg_text (Range q)"
  have "takeWhile (\<lambda>c. c \<noteq> CHR ''/'') (arg_text (Range r)) = inet_ntoa (fst r)" for r
    using slash [of "fst r"] by (simp add: takeWhile_append takeWhile_eq_all_conv)
  with eq have a: "inet_ntoa (fst r) = inet_ntoa (fst q)" by metis
  with eq have "snd r = snd q" by (simp add: hex_nat_inject word_unat_eq_iff)
  moreover from a have "fst r = fst q" by (metis inet_addr_inet_ntoa)
  ultimately show "r = q" by (simp add: prod_eq_iff)
qed simp

text \<open>What the log says can be read. A text is that of its arguments one after the other, each written as if it
  stood alone: no argument leaves the stream in another base. Different status codes have different texts, also
  those that print.h has no name for, and so have different ranges of addresses and different numbers.\<close>

theorem printed_values_are_told_apart:
  "str args = concat (map (\<lambda>a. str [a]) args) \<and> (str [Http_Status s] = str [Http_Status t] \<longleftrightarrow> s = t) \<and>
   (str [Range r] = str [Range q] \<longleftrightarrow> r = q) \<and> (str [Integer w m] = str [Integer w n] \<longleftrightarrow> m = n)"
  using status_text_inject [of s t] range_text_inject [of r q] by (simp add: str_text to_string_inject)

end
