(* ===== verification/TransactionData.thy ===== *)
theory TransactionData
  imports BotSniffer Denialator WhiteLister Print
begin

text \<open>
  The life of a transaction (transaction_data.h, transaction_data.cpp): the events of the server, the
  chain of filters a request runs through, the response that replaces the page when a filter answers
  itself, and the close. The filters Banjax has built are the record \<open>filters\<close>; a task queue lists
  them by identifier, and a handler of a filter is called through \<open>filter_on_http_request\<close>. The global
  white list is one object that the white lister fills and to which challenger and denialator point.
  What a handler does to the transaction itself is kept in the record \<open>transaction_data\<close>: whether
  storing the response and reading the cache were turned off, the events passed to
  \<open>TSHttpTxnReenable\<close>, and the body set for the client.
\<close>

record libs =
  lib_challenge :: challenge_lib
  lib_full_match :: "string \<Rightarrow> string \<Rightarrow> bool"
  lib_gcm :: gcm_lib
  lib_reasons :: reasons

record filters =
  regex_manager :: "rated_regex list option"
  challenger_filter :: "challenger option"
  white_lister :: bool
  bot_sniffer :: bool
  denialator_filter :: "denialator option"
  global_ip_white_list :: global_white_list
  task_queues :: "ExecutionQueue \<Rightarrow> FilterIDType list"
  all_filters_requested_part :: "64 word"
  all_filters_response_part :: "64 word"

datatype ts_event = HTTP_CONTINUE | HTTP_ERROR

record transaction_data =
  transaction_muncher :: muncher
  response_info :: challenge_response
  no_store_ok :: bool
  config_set_ok :: bool
  no_store :: bool
  cache_http_off :: bool
  reenabled :: "ts_event list"
  error_body :: "(string \<times> string option) option"
  closed :: bool

definition new_transaction_data :: "txn \<Rightarrow> bool \<Rightarrow> bool \<Rightarrow> transaction_data" where
  "new_transaction_data t store_ok config_ok =
     \<lparr>transaction_muncher = new_muncher t, response_info = plain_response GO_AHEAD_NO_COMMENT,
      no_store_ok = store_ok, config_set_ok = config_ok, no_store = False, cache_http_off = False, reenabled = [],
      error_body = None, closed = False\<rparr>"

definition reenable :: "ts_event \<Rightarrow> transaction_data \<Rightarrow> transaction_data" where
  "reenable e td = td\<lparr>reenabled := reenabled td @ [e]\<rparr>"

section \<open>The filters\<close>

definition filter_on_http_request :: "libs \<Rightarrow> filters \<Rightarrow> FilterIDType \<Rightarrow> transaction_parts \<Rightarrow> 's sniffer_state_scheme \<Rightarrow>
    (challenge_response \<times> transaction_parts \<times> 's sniffer_state_scheme) result" where
  "filter_on_http_request E B f parts st =
     (case f of
        REGEX_BANNER_FILTER_ID \<Rightarrow>
          (case regex_manager B of
             None \<Rightarrow> Inl NullDereference
           | Some rules \<Rightarrow> RegexManager_on_http_request (lib_full_match E) rules parts st)
      | CHALLENGER_FILTER_ID \<Rightarrow>
          (case challenger_filter B of
             None \<Rightarrow> Inl NullDereference
           | Some C \<Rightarrow>
               rbind (Challenger_on_http_request (lib_challenge E) (C\<lparr>ch_white_list := Some (global_ip_white_list B)\<rparr>) parts st)
               (\<lambda>(resp, st1). Inr (resp, parts, st1)))
      | BOT_SNIFFER_FILTER_ID \<Rightarrow>
          if bot_sniffer B then Inr (plain_response GO_AHEAD_NO_COMMENT, parts, st) else Inl NullDereference
      | WHITE_LISTER_FILTER_ID \<Rightarrow>
          if white_lister B then
            rbind (WhiteLister_on_http_request (global_ip_white_list B) parts) (\<lambda>resp. Inr (resp, parts, st))
          else Inl NullDereference
      | DENIALATOR_FILTER_ID \<Rightarrow>
          (case denialator_filter B of
             None \<Rightarrow> Inl NullDereference
           | Some d \<Rightarrow>
               rbind (Denialator_on_http_request (d\<lparr>dn_white_list := Some (global_ip_white_list B)\<rparr>) parts st)
               (\<lambda>(resp, st1). Inr (resp, parts, st1))))"

text \<open>\<open>response_generator(parts, response_info)\<close>: the filter that made the response writes the page. The
  white lister and the sniffer never make one; the base class's \<open>generate_response\<close> asserts.\<close>

definition generate_response :: "libs \<Rightarrow> filters \<Rightarrow> transaction_parts \<Rightarrow> challenge_extended \<Rightarrow> 's sniffer_state_scheme \<Rightarrow>
    (string \<times> challenge_extended \<times> 's sniffer_state_scheme) result" where
  "generate_response E B parts resp st =
     (case response_generator resp of
        None \<Rightarrow> Inl Terminate
      | Some f \<Rightarrow>
          (case f of
             REGEX_BANNER_FILTER_ID \<Rightarrow> Inr (forbidden_message, resp, st)
           | CHALLENGER_FILTER_ID \<Rightarrow>
               (case challenger_filter B of
                  None \<Rightarrow> Inl NullDereference
                | Some C \<Rightarrow>
                    Challenger_generate_response (lib_challenge E) (C\<lparr>ch_white_list := Some (global_ip_white_list B)\<rparr>) parts resp st)
           | DENIALATOR_FILTER_ID \<Rightarrow> Inr (Denialator_generate_response, resp, st)
           | _ \<Rightarrow> Inl Terminate))"

definition filter_on_http_close :: "libs \<Rightarrow> filters \<Rightarrow> FilterIDType \<Rightarrow> transaction_parts \<Rightarrow> 's sniffer_state_scheme \<Rightarrow>
    's sniffer_state_scheme result" where
  "filter_on_http_close E B f parts st =
     (if f = BOT_SNIFFER_FILTER_ID then BotSniffer_on_http_close (lib_gcm E) parts st else Inr st)"

section \<open>The request\<close>

text \<open>The loop of \<open>handle_request\<close>. \<open>SERVE_FRESH\<close> does not stop it: the next filter runs.\<close>

fun run_filters :: "libs \<Rightarrow> filters \<Rightarrow> FilterIDType list \<Rightarrow> transaction_data \<Rightarrow> 's sniffer_state_scheme \<Rightarrow>
    (transaction_data \<times> 's sniffer_state_scheme) result" where
  "run_filters E B [] td st = Inr (reenable HTTP_CONTINUE td, st)"
| "run_filters E B (f # fs) td st =
     rbind (filter_on_http_request E B f (cur_trans_parts (transaction_muncher td)) st) (\<lambda>(resp, parts, st1).
     let td1 = td\<lparr>transaction_muncher := (transaction_muncher td)\<lparr>cur_trans_parts := parts\<rparr>\<rparr> in
     case response_type resp of
       GO_AHEAD_NO_COMMENT \<Rightarrow> run_filters E B fs td1 st1
     | SERVE_IMMIDIATELY_DONT_CACHE \<Rightarrow>
         Inr (reenable HTTP_CONTINUE (td1\<lparr>no_store := no_store td1 \<or> no_store_ok td1\<rparr>), st1)
     | SERVE_FRESH \<Rightarrow>
         run_filters E B fs
           (td1\<lparr>no_store := no_store td1 \<or> no_store_ok td1,
                cache_http_off := cache_http_off td1 \<or> (no_store_ok td1 \<and> config_set_ok td1)\<rparr>) st1
     | I_RESPOND \<Rightarrow> Inr (reenable HTTP_ERROR (td1\<lparr>response_info := resp\<rparr>), st1))"

definition handle_request :: "libs \<Rightarrow> filters \<Rightarrow> transaction_data \<Rightarrow> 's sniffer_state_scheme \<Rightarrow>
    (transaction_data \<times> 's sniffer_state_scheme) result" where
  "handle_request E B td st =
     rbind (retrieve_parts (all_filters_requested_part B) (transaction_muncher td)) (\<lambda>m.
     run_filters E B (task_queues B HTTP_REQUEST) (td\<lparr>transaction_muncher := m\<rparr>) st)"

section \<open>The response\<close>

definition TS_HTTP_STATUS_GATEWAY_TIMEOUT :: int where "TS_HTTP_STATUS_GATEWAY_TIMEOUT = 504"

text \<open>\<open>status\<close> is of an enumeration type, which the stream writes as a number.\<close>

definition error_page :: "int \<Rightarrow> string" where
  "error_page status = str
     [Text (''<!DOCTYPE HTML PUBLIC '' @ [QUOTE] @ ''-//W3C//DTD HTML 4.01//EN'' @ [QUOTE] @ [CHR 0x0A] @
        ''        '' @ [QUOTE] @ ''http://www.w3.org/TR/html4/strict.dtd'' @ [QUOTE] @ ''>'' @ [CHR 0x0A] @
        ''<html>'' @ [CHR 0x0A] @ ''    <head>'' @ [CHR 0x0A] @
        ''        <meta http-equiv='' @ [QUOTE] @ ''Content-Type'' @ [QUOTE] @ '' content='' @ [QUOTE] @ ''text/html;charset=utf-8'' @ [QUOTE] @ ''>'' @ [CHR 0x0A] @
        ''        <title>Error response</title>'' @ [CHR 0x0A] @ ''    </head>'' @ [CHR 0x0A] @ ''    <body>'' @ [CHR 0x0A] @
        ''        <h1>Error response</h1>'' @ [CHR 0x0A] @
        ''        <p>Error code: ''),
      Integer 32 status,
      Text (''</p>'' @ [CHR 0x0A] @
        ''        <p>Error code explanation: ERR_CONNECT_FAIL</p>'' @ [CHR 0x0A] @
        ''    </body>'' @ [CHR 0x0A] @ ''</html>'' @ [CHR 0x0A])]"

text \<open>\<open>set_error_body\<close>: the content type passes to the server.\<close>

definition set_error_body :: "string \<Rightarrow> transaction_data \<Rightarrow> transaction_data" where
  "set_error_body buf td =
     (case response_data (response_info td) of
        None \<Rightarrow> td\<lparr>error_body := Some (buf, None)\<rparr>
      | Some rd \<Rightarrow>
          let (ct, rd') = get_and_release_content_type rd in
          td\<lparr>error_body := Some (buf, ct), response_info := (response_info td)\<lparr>response_data := Some rd'\<rparr>\<rparr>)"

fun append_headers :: "(string \<times> string) list \<Rightarrow> muncher \<Rightarrow> muncher result" where
  "append_headers [] m = Inr m"
| "append_headers ((n, v) # hs) m = rbind (append_header n v m) (append_headers hs)"

definition no_cache_headers :: "(string \<times> string) list" where
  "no_cache_headers =
     [(''Expires'', ''Mon, 23 Aug 1982 12:00:00 GMT''),
      (''Cache-Control'', ''no-store, no-cache, must-revalidate''),
      (''Pragma'', ''no-cache'')]"

text \<open>The answer of a filter: status, cookie, the headers against caching, the body.\<close>

definition respond :: "libs \<Rightarrow> filters \<Rightarrow> transaction_data \<Rightarrow> 's sniffer_state_scheme \<Rightarrow>
    (transaction_data \<times> 's sniffer_state_scheme) result" where
  "respond E B td st =
     (case response_data (response_info td) of
        None \<Rightarrow> Inl NullDereference
      | Some rd \<Rightarrow>
          rbind (set_status (lib_reasons E) TS_HTTP_STATUS_GATEWAY_TIMEOUT (transaction_muncher td)) (\<lambda>m1.
          rbind (retrieve_parts (all_filters_requested_part B) m1) (\<lambda>m2.
          rbind (generate_response E B (cur_trans_parts m2) rd st) (\<lambda>(buf, rd1, st1).
          rbind (set_status (lib_reasons E) (response_code rd1) m2) (\<lambda>m3.
          rbind (append_headers ((if set_cookie_header rd1 \<noteq> [] then [(''Set-Cookie'', cstr (set_cookie_header rd1))] else []) @
                                 no_cache_headers) m3) (\<lambda>m4.
          let td1 = td\<lparr>transaction_muncher := m4, response_info := (response_info td)\<lparr>response_data := Some rd1\<rparr>\<rparr>
          in Inr (reenable HTTP_CONTINUE (set_error_body (if buf = [] then ''Not authorized'' else buf) td1), st1)))))))"

definition handle_response :: "libs \<Rightarrow> filters \<Rightarrow> transaction_data \<Rightarrow> 's sniffer_state_scheme \<Rightarrow>
    (transaction_data \<times> 's sniffer_state_scheme) result" where
  "handle_response E B td st =
     rbind (get_response_status (transaction_muncher td)) (\<lambda>(status, m1).
     rbind (retrieve_response_parts (all_filters_response_part B) m1) (\<lambda>m2.
     let td1 = td\<lparr>transaction_muncher := m2\<rparr> in
     if response_type (response_info td1) = I_RESPOND then respond E B td1 st
     else if status = 110 then Inr (reenable HTTP_ERROR (set_error_body (error_page status) td1), st)
     else Inr (reenable HTTP_CONTINUE td1, st)))"

section \<open>The close, and the events\<close>

fun close_filters :: "libs \<Rightarrow> filters \<Rightarrow> FilterIDType list \<Rightarrow> transaction_parts \<Rightarrow> 's sniffer_state_scheme \<Rightarrow> 's sniffer_state_scheme result" where
  "close_filters E B [] parts st = Inr st"
| "close_filters E B (f # fs) parts st = rbind (filter_on_http_close E B f parts st) (close_filters E B fs parts)"

definition handle_http_close :: "libs \<Rightarrow> filters \<Rightarrow> transaction_data \<Rightarrow> 's sniffer_state_scheme \<Rightarrow>
    (transaction_data \<times> 's sniffer_state_scheme) result" where
  "handle_http_close E B td st =
     rbind (retrieve_parts (all_filters_requested_part B) (transaction_muncher td)) (\<lambda>m.
     rbind (close_filters E B (task_queues B HTTP_CLOSE) (cur_trans_parts m) st) (\<lambda>st1.
     Inr (td\<lparr>transaction_muncher := m\<rparr>, st1)))"

datatype ts_hook =
    READ_REQUEST_HDR | READ_CACHE_HDR | SEND_REQUEST_HDR | SEND_RESPONSE_HDR | TXN_CLOSE | TIMEOUT | OTHER_EVENT

text \<open>\<open>handle_transaction_change\<close>. After the close the data is gone.\<close>

definition handle_transaction_change :: "libs \<Rightarrow> filters \<Rightarrow> ts_hook \<Rightarrow> transaction_data \<Rightarrow> 's sniffer_state_scheme \<Rightarrow>
    (transaction_data \<times> 's sniffer_state_scheme) result" where
  "handle_transaction_change E B event td st =
     (case event of
        READ_REQUEST_HDR \<Rightarrow> handle_request E B td st
      | READ_CACHE_HDR \<Rightarrow> Inr (reenable HTTP_CONTINUE td, st)
      | SEND_REQUEST_HDR \<Rightarrow>
          Inr (reenable HTTP_CONTINUE (td\<lparr>transaction_muncher := miss (transaction_muncher td)\<rparr>), st)
      | SEND_RESPONSE_HDR \<Rightarrow> handle_response E B td st
      | TXN_CLOSE \<Rightarrow>
          rbind (handle_http_close E B td st) (\<lambda>(td1, st1).
          Inr (reenable HTTP_CONTINUE (td1\<lparr>closed := True\<rparr>), st1))
      | TIMEOUT \<Rightarrow> Inr (td, st)
      | OTHER_EVENT \<Rightarrow> Inr (td, st))"

section \<open>Properties\<close>

subsection \<open>What a filter leaves alone\<close>

lemma part_index_grows: "parts \<subseteq>\<^sub>m snd (part_index parts k)"
  by (auto simp: part_index_def map_le_def split: option.split)

lemma regex_parts_grows: "parts \<subseteq>\<^sub>m regex_parts parts"
  by (simp add: regex_parts_def) (meson map_le_trans part_index_grows)

lemma store_state_clock [simp]: "clock (store_state ip v st) = clock st"
  by (simp add: store_state_def set_ip_state_def world_simps Let_def)

lemma get_ip_state_clock: "get_ip_state d ip db st = (r, st') \<Longrightarrow> clock st' = clock st"
  by (auto simp: get_ip_state_def world_simps split: if_splits option.splits)

lemma try_match_loop_clock:
  "try_match_loop fm n ip rec host rules ip_state st = Inr (r, st') \<Longrightarrow> clock st' = clock st"
proof (induction fm n ip rec host rules ip_state st rule: try_match_loop.induct)
  case (2 fm n ip rec host rule rules ip_state st)
  let ?st1 = "st\<lparr>tick := Suc (tick st)\<rparr>"
  obtain s2 st2 where q: "(if ip_state = None \<or> ip_state = Some []
      then get_ip_state [] ip (regex_manager_ip_db ?st1) ?st1 else (ip_state, ?st1)) = (s2, st2)" by (metis surj_pair)
  then have c: "clock st2 = clock st" by (auto split: if_splits dest: get_ip_state_clock)
  from 2 q c show ?case
    by (auto simp: world_simps Let_def split: if_splits option.splits)
qed (auto split: option.splits if_splits)

lemma denialator_frame:
  "Denialator_on_http_request d parts st = Inr (resp, st') \<Longrightarrow>
   clock st' = clock st \<and> response_type resp \<in> {GO_AHEAD_NO_COMMENT, I_RESPOND}"
  by (auto simp: Denialator_on_http_request_def rbind_eq_Inr_iff world_simps case_prod_beta Let_def
      get_ip_state_clock [OF surjective_pairing] split: if_splits option.splits)

lemma regex_frame:
  "RegexManager_on_http_request fm rules parts st = Inr (resp, parts', st') \<Longrightarrow>
   parts' = regex_parts parts \<and> clock st' = clock st \<and> response_type resp \<in> {GO_AHEAD_NO_COMMENT, I_RESPOND}"
  by (auto simp: RegexManager_on_http_request_def rbind_eq_Inr_iff Let_def try_match_def
      dest!: try_match_loop_clock split: option.splits)

text \<open>A filter never takes a part away, and all but the challenger only let a request go on, answer it
  themselves, or (the white lister) serve it for a listed address.\<close>

lemma filter_frame:
  assumes "filter_on_http_request E B f parts st = Inr (resp, parts', st')"
  shows "parts \<subseteq>\<^sub>m parts' \<and>
    (f \<noteq> CHALLENGER_FILTER_ID \<longrightarrow> clock st' = clock st \<and>
       (response_type resp \<in> {GO_AHEAD_NO_COMMENT, I_RESPOND} \<or>
        f = WHITE_LISTER_FILTER_ID \<and> response_type resp = SERVE_IMMIDIATELY_DONT_CACHE \<and>
        (\<exists>host ip. parts HOST = Some host \<and> parts IP = Some ip \<and> is_white_listed (global_ip_white_list B) host ip \<noteq> None)))"
proof (cases f)
  case REGEX_BANNER_FILTER_ID
  with assms regex_parts_grows [of parts] show ?thesis
    by (auto simp: filter_on_http_request_def dest!: regex_frame split: option.splits)
next
  case DENIALATOR_FILTER_ID
  with assms show ?thesis
    by (auto simp: filter_on_http_request_def rbind_eq_Inr_iff dest!: denialator_frame split: option.splits)
next
  case WHITE_LISTER_FILTER_ID
  with assms show ?thesis
    by (auto simp: filter_on_http_request_def WhiteLister_on_http_request_def rbind_eq_Inr_iff split: option.splits if_splits)
qed (use assms in \<open>auto simp: filter_on_http_request_def rbind_eq_Inr_iff split: option.splits if_splits\<close>)

subsection \<open>Every event is passed back once\<close>

text \<open>The request loop passes exactly one event back, an error exactly if a filter answers itself.\<close>

lemma run_filters_reenables:
  "run_filters E B fs td st = Inr (td', st') \<Longrightarrow> response_type (response_info td) \<noteq> I_RESPOND \<Longrightarrow>
   reenabled td' = reenabled td @ [if response_type (response_info td') = I_RESPOND then HTTP_ERROR else HTTP_CONTINUE]"
proof (induction fs arbitrary: td st)
  case (Cons f fs)
  from Cons.prems(1) obtain resp parts st1 where
    "filter_on_http_request E B f (cur_trans_parts (transaction_muncher td)) st = Inr (resp, parts, st1)"
    by (auto simp: rbind_eq_Inr_iff)
  with Cons.prems show ?case
    by (auto simp: Let_def reenable_def dest!: Cons.IH split: ResponseType.splits)
qed (auto simp: reenable_def)

lemma run_filters_body: "run_filters E B fs td st = Inr (td', st') \<Longrightarrow> error_body td' = error_body td"
proof (induction fs arbitrary: td st)
  case (Cons f fs)
  from Cons.prems obtain resp parts st1 where
    "filter_on_http_request E B f (cur_trans_parts (transaction_muncher td)) st = Inr (resp, parts, st1)"
    by (auto simp: rbind_eq_Inr_iff)
  with Cons.prems show ?case
    by (auto simp: Let_def reenable_def dest!: Cons.IH split: ResponseType.splits)
qed (auto simp: reenable_def)

lemma set_error_body_reenabled [simp]: "reenabled (set_error_body b td) = reenabled td"
  by (simp add: set_error_body_def get_and_release_content_type_def split: option.split)

lemma respond_reenables: "respond E B td st = Inr (td', st') \<Longrightarrow> reenabled td' = reenabled td @ [HTTP_CONTINUE]"
  by (auto simp: respond_def rbind_eq_Inr_iff reenable_def Let_def split: option.splits)

lemma response_status_frame:
  assumes "get_response_status m = Inr (status, m1)" and "retrieve_response_parts r m1 = Inr m2"
  shows "status = resp_status (trans_txnp m) \<and> trans_txnp m2 = trans_txnp m"
  using assms by (auto simp: get_response_status_def retrieve_response_parts_def rbind_eq_Inr_iff Let_def
      update_validity_status_def dest!: need_response_header_frame split: if_splits)

text \<open>The error event of the response belongs to the status 110 of a request no filter has answered.\<close>

lemma handle_response_reenables:
  assumes "handle_response E B td st = Inr (td', st')"
  shows "reenabled td' = reenabled td @
    [if response_type (response_info td) \<noteq> I_RESPOND \<and> resp_status (trans_txnp (transaction_muncher td)) = 110
     then HTTP_ERROR else HTTP_CONTINUE]"
proof -
  from assms obtain status m1 m2 where m: "get_response_status (transaction_muncher td) = Inr (status, m1)"
    "retrieve_response_parts (all_filters_response_part B) m1 = Inr m2" by (auto simp: handle_response_def rbind_eq_Inr_iff)
  from response_status_frame [OF m] assms m show ?thesis
    by (auto simp: handle_response_def reenable_def Let_def dest!: respond_reenables split: if_splits)
qed


subsection \<open>The whole chain\<close>

lemma map_leD: "f \<subseteq>\<^sub>m g \<Longrightarrow> f x = Some y \<Longrightarrow> g x = Some y"
  by (metis domI map_le_def)

lemma cookie_passes_mono:
  "parts \<subseteq>\<^sub>m parts' \<Longrightarrow> cookie_passes L C a parts ch now \<Longrightarrow> cookie_passes L C a parts' ch now"
  unfolding cookie_passes_def using map_leD [of parts parts'] by blast

lemma satisfied_mono: "parts \<subseteq>\<^sub>m parts' \<Longrightarrow> satisfied L C parts ip clk ch \<Longrightarrow> satisfied L C parts' ip clk ch"
  unfolding satisfied_def by (auto split: ChallengeType.splits intro: map_leD cookie_passes_mono)

lemma run_filters_parts:
  "run_filters E B fs td st = Inr (td', st') \<Longrightarrow>
   cur_trans_parts (transaction_muncher td) \<subseteq>\<^sub>m cur_trans_parts (transaction_muncher td')"
proof (induction fs arbitrary: td st)
  case (Cons f fs)
  from Cons.prems obtain resp parts st1 where
    r: "filter_on_http_request E B f (cur_trans_parts (transaction_muncher td)) st = Inr (resp, parts, st1)"
    by (auto simp: rbind_eq_Inr_iff)
  then have g: "cur_trans_parts (transaction_muncher td) \<subseteq>\<^sub>m parts" using filter_frame by blast
  from Cons.prems r have "parts \<subseteq>\<^sub>m cur_trans_parts (transaction_muncher td')"
    by (auto simp: Let_def reenable_def dest!: Cons.IH split: ResponseType.splits)
  with g show ?case by (rule map_le_trans)
qed (auto simp: reenable_def)

text \<open>The grounds on which a request for a host with challenges gets past a queue of filters.\<close>

definition admitted :: "libs \<Rightarrow> filters \<Rightarrow> challenger \<Rightarrow> transaction_parts \<Rightarrow> string \<Rightarrow> string \<Rightarrow> (nat \<Rightarrow> int \<times> int) \<Rightarrow>
    host_challenge_spec list \<Rightarrow> FilterIDType list \<Rightarrow> bool" where
  "admitted E B C parts host ip clk chs queue \<longleftrightarrow>
     WHITE_LISTER_FILTER_ID \<in> set (takeWhile (\<lambda>f. f \<noteq> CHALLENGER_FILTER_ID) queue) \<and>
       is_white_listed (global_ip_white_list B) host ip \<noteq> None \<or>
     (\<exists>ch\<in>set chs. \<exists>r\<in>set (white_listed_ips ch). is_match ip r) \<or>
     (\<exists>ch\<in>set chs. challenge_type ch = CHALLENGE_AUTH \<and> (\<exists>n. cookie_passes (lib_challenge E) C [] parts ch (fst (clk n)))) \<or>
     (\<forall>ch\<in>set chs. satisfied (lib_challenge E) C parts ip clk ch)"

lemma challenger_admits:
  fixes B defines "W \<equiv> \<lambda>C. C\<lparr>ch_white_list := Some (global_ip_white_list B)\<rparr>"
  assumes "filter_on_http_request E B CHALLENGER_FILTER_ID parts st = Inr (resp, parts', st')"
    and "challenger_filter B = Some C" and "parts' \<subseteq>\<^sub>m final" and "final HOST = Some host" and "final IP = Some ip"
    and "host_challenges_static C host = Some chs" and "response_type resp \<noteq> I_RESPOND"
  shows "admitted E B (W C) final host ip (clock st) chs (CHALLENGER_FILTER_ID # queue)"
proof -
  from assms(2,3) have d: "Challenger_on_http_request (lib_challenge E) (W C) parts st = Inr (resp, st')" "parts' = parts"
    by (auto simp: filter_on_http_request_def rbind_eq_Inr_iff W_def)
  from d(1) obtain h i where hi: "parts HOST = Some h" "parts IP = Some i"
    by (auto simp: Challenger_on_http_request_def rbind_eq_Inr_iff)
  with assms(4-6) d(2) have "h = host" "i = ip" using map_leD by (metis option.inject)+
  with hi d(1) assms(7) have "decision_sound (lib_challenge E) (W C) parts ip (clock st) chs resp"
    by (intro on_http_request_sound [where host = host]) (simp_all add: W_def)
  moreover have "parts \<subseteq>\<^sub>m final" using assms(4) d(2) by simp
  ultimately show ?thesis
    using assms(8) unfolding admitted_def decision_sound_def
    by (auto split: ResponseType.splits dest: satisfied_mono cookie_passes_mono)
qed

lemma run_filters_admits:
  fixes B defines "W \<equiv> \<lambda>C. C\<lparr>ch_white_list := Some (global_ip_white_list B)\<rparr>"
  assumes "run_filters E B queue td st = Inr (td', st')" and "CHALLENGER_FILTER_ID \<in> set queue"
    and "response_type (response_info td') \<noteq> I_RESPOND" and "challenger_filter B = Some C"
    and "cur_trans_parts (transaction_muncher td') HOST = Some host" and "cur_trans_parts (transaction_muncher td') IP = Some ip"
    and "host_challenges_static C host = Some chs"
  shows "admitted E B (W C) (cur_trans_parts (transaction_muncher td')) host ip (clock st) chs queue"
  using assms(2,3)
proof (induction queue arbitrary: td st)
  case (Cons f fs)
  let ?final = "cur_trans_parts (transaction_muncher td')"
  from Cons.prems(1) obtain resp parts st1 where
    r: "filter_on_http_request E B f (cur_trans_parts (transaction_muncher td)) st = Inr (resp, parts, st1)"
    by (auto simp: rbind_eq_Inr_iff)
  let ?td1 = "td\<lparr>transaction_muncher := (transaction_muncher td)\<lparr>cur_trans_parts := parts\<rparr>\<rparr>"
  have final: "parts \<subseteq>\<^sub>m ?final"
    using Cons.prems(1) r by (auto simp: Let_def reenable_def dest!: run_filters_parts split: ResponseType.splits)
  have no: "response_type resp \<noteq> I_RESPOND"
    using Cons.prems(1) r assms(4) by (auto simp: Let_def reenable_def)
  show ?case
  proof (cases "f = CHALLENGER_FILTER_ID")
    case True
    with challenger_admits [OF r [unfolded True] assms(5) final assms(6-8) no] show ?thesis by (simp add: W_def)
  next
    case False
    note ff = filter_frame [OF r]
    show ?thesis
    proof (cases "response_type resp = GO_AHEAD_NO_COMMENT")
      case True
      with Cons.prems r have "run_filters E B fs ?td1 st1 = Inr (td', st')" by (simp add: Let_def)
      from Cons.IH [OF this] Cons.prems(2) False ff show ?thesis by (auto simp: admitted_def)
    next
      case other: False
      with ff False no obtain h i where "f = WHITE_LISTER_FILTER_ID" "cur_trans_parts (transaction_muncher td) HOST = Some h"
        "cur_trans_parts (transaction_muncher td) IP = Some i" "is_white_listed (global_ip_white_list B) h i \<noteq> None" by auto
      moreover from this have "h = host" "i = ip"
        using ff final assms(6,7) map_leD by (metis option.inject)+
      ultimately show ?thesis by (auto simp: admitted_def)
    qed
  qed
qed simp

text \<open>C2: The challenges protect the pages behind them. Through the whole chain of filters, in whatever
  order they are configured and whatever the other filters do: a request for a host with configured
  challenges that is not answered by a filter itself, and so reaches the cache or the origin, comes
  from an address that the white lister, queued before the challenger, exempts for the host, or from
  one on a challenge's own white list, or carries a cookie that passes a login challenge, or
  satisfies every challenge of the host.\<close>

theorem protected_page_needs_solved_challenges:
  assumes "handle_request E B td st = Inr (td', st')"
    and "CHALLENGER_FILTER_ID \<in> set (task_queues B HTTP_REQUEST)" and "challenger_filter B = Some C"
    and "response_type (response_info td') \<noteq> I_RESPOND"
    and "cur_trans_parts (transaction_muncher td') HOST = Some host" and "cur_trans_parts (transaction_muncher td') IP = Some ip"
    and "host_challenges_static C host = Some chs"
  shows "admitted E B (C\<lparr>ch_white_list := Some (global_ip_white_list B)\<rparr>) (cur_trans_parts (transaction_muncher td'))
    host ip (clock st) chs (task_queues B HTTP_REQUEST)"
proof -
  from assms(1) obtain m where "run_filters E B (task_queues B HTTP_REQUEST) (td\<lparr>transaction_muncher := m\<rparr>) st = Inr (td', st')"
    by (auto simp: handle_request_def rbind_eq_Inr_iff)
  from run_filters_admits [OF this assms(2,4,3,5-7)] show ?thesis .
qed

text \<open>The configuration and the request of the challenger's example, with the parts already retrieved.\<close>

definition sample_libs :: libs where
  "sample_libs =
     \<lparr>lib_challenge = sample_lib, lib_full_match = (\<lambda>p s. p = s), lib_gcm = sample_gcm, lib_reasons = (\<lambda>_. ''OK'')\<rparr>"

definition sample_filters :: filters where
  "sample_filters =
     \<lparr>regex_manager = None, challenger_filter = Some sample_challenger, white_lister = True, bot_sniffer = False,
      denialator_filter = None, global_ip_white_list = empty_white_list,
      task_queues = (\<lambda>q. if q = HTTP_REQUEST then [WHITE_LISTER_FILTER_ID, CHALLENGER_FILTER_ID] else []),
      all_filters_requested_part = Challenger_requested_info, all_filters_response_part = 0\<rparr>"

definition sample_data :: "string \<Rightarrow> transaction_data" where
  "sample_data jar =
     (new_transaction_data sample_txn True True)
       \<lparr>transaction_muncher :=
          \<lparr>cur_trans_parts = sample_parts jar, valid_parts = Challenger_requested_info, request_header = True,
           response_header = False, trans_txnp = sample_txn\<rparr>\<rparr>"

lemma sample_passes:
  "\<exists>st'. Challenger_on_http_request sample_lib (sample_challenger\<lparr>ch_white_list := Some empty_white_list\<rparr>)
     (sample_parts sample_jar) sample_sniffer = Inr (plain_response GO_AHEAD_NO_COMMENT, st')"
proof -
  have "take COOKIE_B64_LENGTH sample_cookie = sample_cookie" by (simp add: cookie_sizes sample_cookie_def)
  then have "check_cookie sample_lib (sample_challenger\<lparr>ch_white_list := Some empty_white_list\<rparr>) [] (sample_parts sample_jar)
      sample_spec sample_sniffer =
     Inr (True, snd (report_pass_or_failure2 ''h'' ''1.2.3.4'' True (sample_sniffer\<lparr>tick := 1\<rparr>)))"
    using sample_cookie_valid
    by (simp add: check_cookie_def part_at_def parse_sample_jar challenge_prevailed_def sample_spec_def world_simps
        sample_lib_def sample_challenger_def sample_sniffer_def challenger_state.extend_def sample_state_def)
  moreover have "\<not> is_captcha_url ''http://h/''" "\<not> is_captcha_answer ''http://h/''"
    by (simp_all add: is_captcha_url_def is_captcha_answer_def starts_with_def)
  moreover have "host_challenges_static sample_challenger ''h'' = Some [sample_spec]" by (simp add: sample_challenger_def)
  moreover have "white_listed_ips sample_spec = []" "challenge_type sample_spec = CHALLENGE_CAPTCHA" by (simp_all add: sample_spec_def)
  ultimately show ?thesis
    by (simp add: Challenger_on_http_request_def part_at_def select_challenges_def is_globally_white_listed_def
        ip_white_listed_def empty_white_list_def)
qed

lemma sample_request_passes:
  "\<exists>td' st'. handle_request sample_libs sample_filters (sample_data sample_jar) sample_sniffer = Inr (td', st') \<and>
     response_type (response_info td') \<noteq> I_RESPOND \<and> cur_trans_parts (transaction_muncher td') = sample_parts sample_jar"
proof -
  obtain st' where c: "Challenger_on_http_request sample_lib (sample_challenger\<lparr>ch_white_list := Some empty_white_list\<rparr>)
     (sample_parts sample_jar) sample_sniffer = Inr (plain_response GO_AHEAD_NO_COMMENT, st')" using sample_passes by blast
  have m: "retrieve_parts Challenger_requested_info (transaction_muncher (sample_data sample_jar)) =
      Inr (transaction_muncher (sample_data sample_jar))"
    by (subst retrieve_parts_unfold) (simp add: sample_data_def)
  have B: "task_queues sample_filters HTTP_REQUEST = [WHITE_LISTER_FILTER_ID, CHALLENGER_FILTER_ID]"
    "challenger_filter sample_filters = Some sample_challenger" "white_lister sample_filters"
    "global_ip_white_list sample_filters = empty_white_list"
    "all_filters_requested_part sample_filters = Challenger_requested_info" "lib_challenge sample_libs = sample_lib"
    by (simp_all add: sample_filters_def sample_libs_def)
  have p: "cur_trans_parts (transaction_muncher (sample_data sample_jar)) = sample_parts sample_jar"
    "response_info (sample_data sample_jar) = plain_response GO_AHEAD_NO_COMMENT"
    by (simp_all add: sample_data_def new_transaction_data_def)
  show ?thesis
    using c by (simp add: handle_request_def B m p filter_on_http_request_def WhiteLister_on_http_request_def part_at_def
        is_white_listed_def ip_white_listed_def empty_white_list_def reenable_def)
qed

theorem protected_page_needs_solved_challenges_witness:
  "\<exists>td' st'. handle_request sample_libs sample_filters (sample_data sample_jar) sample_sniffer = Inr (td', st') \<and>
     response_type (response_info td') \<noteq> I_RESPOND \<and>
     admitted sample_libs sample_filters (sample_challenger\<lparr>ch_white_list := Some (global_ip_white_list sample_filters)\<rparr>)
       (cur_trans_parts (transaction_muncher td')) ''h'' ''1.2.3.4'' (clock sample_sniffer) [sample_spec]
       (task_queues sample_filters HTTP_REQUEST)"
proof -
  obtain td' st' where r: "handle_request sample_libs sample_filters (sample_data sample_jar) sample_sniffer = Inr (td', st')"
    "response_type (response_info td') \<noteq> I_RESPOND" "cur_trans_parts (transaction_muncher td') = sample_parts sample_jar"
    using sample_request_passes by blast
  have "CHALLENGER_FILTER_ID \<in> set (task_queues sample_filters HTTP_REQUEST)" "challenger_filter sample_filters = Some sample_challenger"
    "host_challenges_static sample_challenger ''h'' = Some [sample_spec]"
    by (simp_all add: sample_filters_def sample_challenger_def)
  with protected_page_needs_solved_challenges [OF r(1) this(1,2) r(2), of "''h''" "''1.2.3.4''" "[sample_spec]"] r show ?thesis by auto
qed

subsection \<open>The page of a filter\<close>

lemma append_header_ok:
  "append_header n v m = Inr m' \<Longrightarrow> \<forall>k. field_create (trans_txnp m) k \<Longrightarrow>
   resp_appended (trans_txnp m') = resp_appended (trans_txnp m) @ [(n, v)] \<and>
   field_create (trans_txnp m') = field_create (trans_txnp m) \<and> resp_status (trans_txnp m') = resp_status (trans_txnp m)"
  by (auto simp: append_header_def rbind_eq_Inr_iff Let_def dest!: need_response_header_frame)

lemma append_headers_ok:
  "append_headers hs m = Inr m' \<Longrightarrow> \<forall>k. field_create (trans_txnp m) k \<Longrightarrow>
   resp_appended (trans_txnp m') = resp_appended (trans_txnp m) @ hs \<and> resp_status (trans_txnp m') = resp_status (trans_txnp m)"
proof (induction hs arbitrary: m)
  case (Cons h hs)
  obtain n v where h: "h = (n, v)" by (cases h)
  with Cons.prems(1) obtain m1 where m1: "append_header n v m = Inr m1" "append_headers hs m1 = Inr m'"
    by (auto simp: rbind_eq_Inr_iff)
  note a = append_header_ok [OF m1(1) Cons.prems(2)]
  with Cons.IH [OF m1(2)] Cons.prems(2) h show ?case by simp
qed simp

lemma append_headers_parts: "append_headers hs m = Inr m' \<Longrightarrow> cur_trans_parts m' = cur_trans_parts m"
proof (induction hs arbitrary: m)
  case (Cons h hs)
  obtain n v where h: "h = (n, v)" by (cases h)
  with Cons.prems obtain m1 where m1: "append_header n v m = Inr m1" "append_headers hs m1 = Inr m'"
    by (auto simp: rbind_eq_Inr_iff)
  then have "cur_trans_parts m1 = cur_trans_parts m"
    by (auto simp: append_header_def rbind_eq_Inr_iff Let_def dest!: need_response_header_frame)
  with Cons.IH [OF m1(2)] show ?case by simp
qed simp

lemma set_status_ok:
  "set_status reason s m = Inr m' \<Longrightarrow> resp_status (trans_txnp m') = s \<and> cur_trans_parts m' = cur_trans_parts m \<and>
   resp_appended (trans_txnp m') = resp_appended (trans_txnp m) \<and> field_create (trans_txnp m') = field_create (trans_txnp m)"
  by (auto simp: set_status_def rbind_eq_Inr_iff dest!: need_response_header_frame)

text \<open>C25: A request that a filter answers gets that filter's response, complete: when the handler returns, the filter's
  generator has written the page from the parts of the transaction; the body is this page (an empty page is replaced by \<open>Not
  authorized\<close>, since the server requires a body) with the content type the filter chose, which passes to the server; the
  status is the one the filter set; the cookie the filter wants set and the three headers that forbid caching are added in
  this order; and the transaction goes on.\<close>

theorem answered_request_gets_complete_response:
  assumes "handle_response E B td st = Inr (td', st')" and "response_type (response_info td) = I_RESPOND"
    and "\<forall>n. field_create (trans_txnp (transaction_muncher td)) n"
  shows "\<exists>answer page rd. response_data (response_info td) = Some answer \<and>
    generate_response E B (cur_trans_parts (transaction_muncher td')) answer st = Inr (page, rd, st') \<and>
    error_body td' = Some (if page = [] then ''Not authorized'' else page, content_type rd) \<and>
    response_data (response_info td') = Some (rd\<lparr>content_type := None\<rparr>) \<and>
    resp_status (trans_txnp (transaction_muncher td')) = response_code rd \<and>
    resp_appended (trans_txnp (transaction_muncher td')) = resp_appended (trans_txnp (transaction_muncher td)) @
      (if set_cookie_header rd \<noteq> [] then [(''Set-Cookie'', cstr (set_cookie_header rd))] else []) @ no_cache_headers \<and>
    reenabled td' = reenabled td @ [HTTP_CONTINUE]"
proof -
  from assms(1,2) obtain status m1 m2 where m1: "get_response_status (transaction_muncher td) = Inr (status, m1)"
    and m2: "retrieve_response_parts (all_filters_response_part B) m1 = Inr m2"
    and r: "respond E B (td\<lparr>transaction_muncher := m2\<rparr>) st = Inr (td', st')"
    by (auto simp: handle_response_def rbind_eq_Inr_iff Let_def)
  note t2 = response_status_frame [OF m1 m2]
  from r obtain rd m3 m4 buf rd1 m5 m6 where rd: "response_data (response_info td) = Some rd"
    and m3: "set_status (lib_reasons E) TS_HTTP_STATUS_GATEWAY_TIMEOUT m2 = Inr m3"
    and m4: "retrieve_parts (all_filters_requested_part B) m3 = Inr m4"
    and page: "generate_response E B (cur_trans_parts m4) rd st = Inr (buf, rd1, st')"
    and m5: "set_status (lib_reasons E) (response_code rd1) m4 = Inr m5"
    and m6: "append_headers ((if set_cookie_header rd1 \<noteq> [] then [(''Set-Cookie'', cstr (set_cookie_header rd1))] else []) @
      no_cache_headers) m5 = Inr m6"
    and td': "td' = reenable HTTP_CONTINUE (set_error_body (if buf = [] then ''Not authorized'' else buf)
      (td\<lparr>transaction_muncher := m6, response_info := (response_info td)\<lparr>response_data := Some rd1\<rparr>\<rparr>))"
    by (auto simp: respond_def rbind_eq_Inr_iff Let_def split: option.splits)
  obtain h where t4: "trans_txnp m4 = (trans_txnp m3)\<lparr>url_host := h\<rparr>" using retrieve_parts_txn [OF m4] by blast
  have create: "\<forall>n. field_create (trans_txnp m5) n" using set_status_ok [OF m3] set_status_ok [OF m5] t2 t4 assms(3) by simp
  have "cur_trans_parts m6 = cur_trans_parts m4" using append_headers_parts [OF m6] set_status_ok [OF m5] by simp
  with append_headers_ok [OF m6 create] set_status_ok [OF m3] set_status_ok [OF m5] t2 t4 page rd show ?thesis
    by (simp add: td' reenable_def set_error_body_def get_and_release_content_type_def)
qed

text \<open>The page of the regex filter for a request of the example.\<close>

definition sample_answered :: transaction_data where
  "sample_answered = (sample_data [])\<lparr>response_info := generator_response REGEX_BANNER_FILTER_ID\<rparr>"

text \<open>How the responses of the examples are handled.\<close>

lemmas sample_response_simps = handle_response_def get_response_status_def need_response_header_def retrieve_response_header_def
  sample_answered_def sample_data_def new_transaction_data_def sample_txn_def retrieve_response_parts_def sample_filters_def
  respond_def generator_response_def new_extended_response_def set_status_def sample_libs_def
  TS_HTTP_STATUS_GATEWAY_TIMEOUT_def generate_response_def no_cache_headers_def append_header_def Let_def

theorem answered_request_gets_complete_response_witness:
  "\<exists>td' st'. handle_response sample_libs sample_filters sample_answered sample_sniffer = Inr (td', st') \<and>
     (\<exists>ct. error_body td' = Some (forbidden_message, ct)) \<and> reenabled td' = [HTTP_CONTINUE]"
proof -
  let ?m = "transaction_muncher sample_answered"
  have m: "retrieve_parts Challenger_requested_info (m\<lparr>response_header := b, trans_txnp := t\<rparr>) =
      Inr (m\<lparr>response_header := b, trans_txnp := t\<rparr>)" if "valid_parts m = Challenger_requested_info" for m b t
    using that by (subst retrieve_parts_unfold) simp
  have "\<exists>td' st'. handle_response sample_libs sample_filters sample_answered sample_sniffer = Inr (td', st')"
    using m [where m = ?m and b = True and t = "sample_txn\<lparr>resp_status := 504, resp_reason := ''OK''\<rparr>"]
    by (simp add: sample_response_simps)
  then obtain td' st' where r: "handle_response sample_libs sample_filters sample_answered sample_sniffer = Inr (td', st')" by blast
  have "response_type (response_info sample_answered) = I_RESPOND" "\<forall>n. field_create (trans_txnp ?m) n"
    by (simp_all add: sample_answered_def sample_data_def sample_txn_def)
  from answered_request_gets_complete_response [OF r this]
  obtain answer page rd where g: "response_data (response_info sample_answered) = Some answer"
    "generate_response sample_libs sample_filters (cur_trans_parts (transaction_muncher td')) answer sample_sniffer = Inr (page, rd, st')"
    "error_body td' = Some (if page = [] then ''Not authorized'' else page, content_type rd)"
    "reenabled td' = reenabled sample_answered @ [HTTP_CONTINUE]" by blast
  have "response_generator answer = Some REGEX_BANNER_FILTER_ID"
    using g(1) by (auto simp: sample_answered_def generator_response_def new_extended_response_def)
  then have "page = forbidden_message" using g(2) by (simp add: generate_response_def)
  moreover have "forbidden_message \<noteq> []" "reenabled sample_answered = []"
    by (simp_all add: forbidden_message_def sample_answered_def sample_data_def new_transaction_data_def)
  ultimately show ?thesis using r g(3,4) by simp
qed


end
