(* ===== verification/BanjaxConfig.thy ===== *)
theory BanjaxConfig
  imports BanjaxFilter "HOL-Library.AList" "HOL-Library.Multiset" "HOL-Library.List_Lexorder" "HOL-Library.Char_ord"
begin

text \<open>
  Reading the configuration (banjax.cpp): \<open>process_config\<close>, which sorts the nodes of a configuration
  file and of the files it includes, and the part of \<open>read_configuration\<close> that turns this into an order
  of the filters. \<open>YAML::LoadFile\<close> is the parameter \<open>load_file\<close>, None for a file that cannot be read or
  parsed. A file that includes itself makes the code call itself for ever, so \<open>process_config\<close> has
  fuel: the number of nested files it may open; None means that it was not enough. Every call of
  \<open>abort_traffic_server\<close> ends the process and is the error \<open>AbortTrafficServer\<close>.
\<close>

type_synonym loader = "string \<Rightarrow> yaml option"

record banjax_config =
  filter_config_map :: "(string \<times> filter_config) list"
  swabber_conf :: filter_config
  priorities :: yaml
  kafka_conf :: yaml
  report_status_interval_seconds :: int
  remove_expired_challenges_interval_seconds :: int

definition new_filter_config :: filter_config where
  "new_filter_config = \<lparr>config_node_list = [], priority = 0\<rparr>"

definition new_config :: banjax_config where
  "new_config =
     \<lparr>filter_config_map = [], swabber_conf = new_filter_config, priorities = YNull, kafka_conf = YNull,
      report_status_interval_seconds = 0, remove_expired_challenges_interval_seconds = 0\<rparr>"

definition CONFIG_FILENAME :: string where "CONFIG_FILENAME = ''banjax.conf''"

section \<open>The nodes of the files\<close>

definition push_node :: "yaml \<Rightarrow> filter_config \<Rightarrow> filter_config" where
  "push_node n fc = fc\<lparr>config_node_list := config_node_list fc @ [n]\<rparr>"

text \<open>A filter's node: the first one gives the filter the next sequential priority of the file.\<close>

definition add_filter_node :: "string \<Rightarrow> yaml \<Rightarrow> int \<Rightarrow> banjax_config \<Rightarrow> int \<times> banjax_config" where
  "add_filter_node nm n current_sequential_priority c =
     (case map_of (filter_config_map c) nm of
        None \<Rightarrow>
          (current_sequential_priority + 1,
           c\<lparr>filter_config_map := AList.update nm (push_node n (new_filter_config\<lparr>priority := current_sequential_priority\<rparr>))
               (filter_config_map c)\<rparr>)
      | Some fc \<Rightarrow>
          (current_sequential_priority, c\<lparr>filter_config_map := AList.update nm (push_node n fc) (filter_config_map c)\<rparr>))"

definition ysize :: "yaml \<Rightarrow> nat" where
  "ysize n = (case n of YSequence xs \<Rightarrow> length xs | YMap kvs \<Rightarrow> length kvs | _ \<Rightarrow> 0)"

text \<open>A failed conversion inside the loop stops the server.\<close>

definition or_abort :: "'a result \<Rightarrow> 'a result" where
  "or_abort r = (case r of Inl e \<Rightarrow> Inl (if e = YamlRepresentation then AbortTrafficServer else e) | Inr v \<Rightarrow> Inr v)"

text \<open>Sequencing with fuel.\<close>

definition obind :: "'a result option \<Rightarrow> ('a \<Rightarrow> 'b result option) \<Rightarrow> 'b result option" where
  "obind r f = (case r of None \<Rightarrow> None | Some (Inl e) \<Rightarrow> Some (Inl e) | Some (Inr v) \<Rightarrow> f v)"

definition reset_config :: "banjax_config \<Rightarrow> banjax_config" where
  "reset_config c =
     c\<lparr>kafka_conf := YNull, report_status_interval_seconds := 0, remove_expired_challenges_interval_seconds := 0\<rparr>"

text \<open>An element of a sequence has no key: reading it throws, and stops the server.\<close>

definition config_entries :: "yaml \<Rightarrow> (string \<times> yaml) list result" where
  "config_entries cfg =
     (case cfg of
        YMap kvs \<Rightarrow> Inr kvs
      | YSequence (x # xs) \<Rightarrow> Inl AbortTrafficServer
      | _ \<Rightarrow> Inr [])"

text \<open>One node that is not an include.\<close>

definition process_node :: "yaml_lib \<Rightarrow> string \<Rightarrow> yaml \<Rightarrow> int \<Rightarrow> banjax_config \<Rightarrow> (int \<times> banjax_config) result" where
  "process_node Y node_name n prio c =
     (if node_name \<in> set all_filters_names then Inr (add_filter_node node_name n prio c)
      else if node_name = ''swabber'' then Inr (prio, c\<lparr>swabber_conf := push_node n (swabber_conf c)\<rparr>)
      else if node_name = ''priority'' then
        if ysize (priorities c) \<noteq> 0 then Inl AbortTrafficServer else Inr (prio, c\<lparr>priorities := n\<rparr>)
      else if node_name = ''kafka'' then Inr (prio, c\<lparr>kafka_conf := n\<rparr>)
      else if node_name = ''report_status_interval_seconds'' then
        rbind (or_abort (as_int Y n)) (\<lambda>v. Inr (prio, c\<lparr>report_status_interval_seconds := v\<rparr>))
      else if node_name = ''remove_expired_challenges_interval_seconds'' then
        rbind (or_abort (as_int Y n)) (\<lambda>v. Inr (prio, c\<lparr>remove_expired_challenges_interval_seconds := v\<rparr>))
      else Inl AbortTrafficServer)"

function process_config :: "yaml_lib \<Rightarrow> loader \<Rightarrow> string \<Rightarrow> nat \<Rightarrow> yaml \<Rightarrow> banjax_config \<Rightarrow> banjax_config result option"
and process_entries :: "yaml_lib \<Rightarrow> loader \<Rightarrow> string \<Rightarrow> nat \<Rightarrow> (string \<times> yaml) list \<Rightarrow> int \<Rightarrow> banjax_config \<Rightarrow> banjax_config result option"
and process_includes :: "yaml_lib \<Rightarrow> loader \<Rightarrow> string \<Rightarrow> nat \<Rightarrow> yaml list \<Rightarrow> banjax_config \<Rightarrow> banjax_config result option" where
  "process_config Y load_file dir fuel cfg c =
     (case fuel of
        0 \<Rightarrow> None
      | Suc fuel' \<Rightarrow>
          obind (Some (config_entries cfg)) (\<lambda>entries. process_entries Y load_file dir fuel' entries 0 (reset_config c)))"
| "process_entries Y load_file dir fuel [] prio c = Some (Inr c)"
| "process_entries Y load_file dir fuel ((node_name, n) # entries) prio c =
     (if node_name = ''include'' then
        obind (process_includes Y load_file dir fuel (yelems n) c) (process_entries Y load_file dir fuel entries prio)
      else
        obind (Some (process_node Y node_name n prio c)) (\<lambda>(prio', c'). process_entries Y load_file dir fuel entries prio' c'))"
| "process_includes Y load_file dir fuel [] c = Some (Inr c)"
| "process_includes Y load_file dir fuel (sub # subs) c =
     obind (Some (or_abort (as_string Y sub))) (\<lambda>name.
     case load_file (dir @ ''/'' @ name) of
       None \<Rightarrow> Some (Inl AbortTrafficServer)
     | Some cfg \<Rightarrow>
         obind (process_config Y load_file dir fuel cfg c) (process_includes Y load_file dir fuel subs))"
  by pat_completeness auto

termination
  by (relation "measures
    [\<lambda>x. case x of Inl (_, _, _, fuel, _) \<Rightarrow> fuel | Inr (Inl (_, _, _, fuel, _)) \<Rightarrow> fuel | Inr (Inr (_, _, _, fuel, _)) \<Rightarrow> fuel,
     \<lambda>x. case x of Inl _ \<Rightarrow> 0 | Inr (Inl _) \<Rightarrow> 2 | Inr (Inr _) \<Rightarrow> 1,
     \<lambda>x. case x of Inl _ \<Rightarrow> 0 | Inr (Inl (_, _, _, _, es, _)) \<Rightarrow> length es | Inr (Inr (_, _, _, _, es, _)) \<Rightarrow> length es]") auto

section \<open>The order of the filters\<close>

definition int_add :: "int \<Rightarrow> int \<Rightarrow> int result" where
  "int_add a b = (if - (2 ^ 31) \<le> a + b \<and> a + b < 2 ^ 31 then Inr (a + b) else Inl IntegerOverflow)"

text \<open>The least and the greatest explicit priority. Only the first conversion is guarded.\<close>

definition priority_bounds :: "yaml_lib \<Rightarrow> yaml \<Rightarrow> (int \<times> int) result" where
  "priority_bounds Y p =
     (if ysize p = 0 then Inr (0, 0)
      else case p of
        YMap ((k, v) # kvs) \<Rightarrow>
          rbind (or_abort (as_int Y v)) (\<lambda>v0.
          rbind (as_list (as_int Y) (v # map snd kvs)) (\<lambda>vs.
          Inr (foldl min v0 vs, foldl max v0 vs)))
      | _ \<Rightarrow> Inl AbortTrafficServer)"

fun assign_priorities :: "yaml_lib \<Rightarrow> yaml \<Rightarrow> int \<Rightarrow> (string \<times> filter_config) list \<Rightarrow> (int \<times> string) list \<Rightarrow> (int \<times> string) list result" where
  "assign_priorities Y p max_priority [] priority_map = Inr priority_map"
| "assign_priorities Y p max_priority ((nm, fc) # fs) priority_map =
     rbind (ysub p nm) (\<lambda>n.
     rbind (if IsDefined n then as_int Y n
            else rbind (int_add max_priority 1) (int_add (priority fc))) (\<lambda>prio.
     if prio \<in> fst ` set priority_map then Inl AbortTrafficServer
     else assign_priorities Y p max_priority fs (insort_key fst (prio, nm) priority_map)))"

definition order_filters :: "yaml_lib \<Rightarrow> banjax_config \<Rightarrow> (int \<times> string) list result" where
  "order_filters Y c =
     rbind (priority_bounds Y (priorities c)) (\<lambda>(min_priority, max_priority).
     assign_priorities Y (priorities c) max_priority (sort_key fst (filter_config_map c)) [])"

section \<open>Properties\<close>

subsection \<open>Included files\<close>

text \<open>The files a configuration includes.\<close>

definition includes_of :: "yaml_lib \<Rightarrow> string \<Rightarrow> yaml \<Rightarrow> string set" where
  "includes_of Y dir cfg =
     {dir @ ''/'' @ name | name sub n. (''include'', n) \<in> set (yentries cfg) \<and> sub \<in> set (yelems n) \<and> as_string Y sub = Inr name}"

lemma obind_simps [simp]:
  "obind None f = None" "obind (Some (Inl e)) f = Some (Inl e)" "obind (Some (Inr v)) f = f v"
  by (simp_all add: obind_def)

lemma obind_eq_Some_Inr_iff: "obind r f = Some (Inr y) \<longleftrightarrow> (\<exists>v. r = Some (Inr v) \<and> f v = Some (Inr y))"
  by (auto simp: obind_def split: option.splits sum.splits)

lemma obind_None_iff: "obind r f = None \<longleftrightarrow> r = None \<or> (\<exists>v. r = Some (Inr v) \<and> f v = None)"
  by (auto simp: obind_def split: option.splits sum.splits)

declare process_config.simps [simp del]

lemma process_config_0 [simp]: "process_config Y load dir 0 cfg c = None"
  by (simp add: process_config.simps)

lemma process_config_Suc:
  "process_config Y load dir (Suc k) cfg c =
     obind (Some (config_entries cfg)) (\<lambda>es. process_entries Y load dir k es 0 (reset_config c))"
  by (simp add: process_config.simps)

lemma config_entries_eq: "config_entries cfg = Inr es \<Longrightarrow> es = yentries cfg"
  by (auto simp: config_entries_def yentries_def split: yaml.splits list.splits)

lemma or_abort_Inr_iff [simp]: "or_abort r = Inr v \<longleftrightarrow> r = Inr v"
  by (auto simp: or_abort_def split: sum.splits)

lemma process_includes_returns:
  assumes "\<And>name cfg c. name \<in> N \<Longrightarrow> load (dir @ ''/'' @ name) = Some cfg \<Longrightarrow> process_config Y load dir k cfg c \<noteq> None"
    and "\<And>sub name. sub \<in> set subs \<Longrightarrow> as_string Y sub = Inr name \<Longrightarrow> name \<in> N"
  shows "process_includes Y load dir k subs c \<noteq> None"
  using assms(2)
proof (induction subs arbitrary: c)
  case (Cons sub subs)
  have IH: "process_includes Y load dir k subs c' \<noteq> None" for c'
    by (rule Cons.IH) (use Cons.prems in auto)
  show ?case
  proof (cases "or_abort (as_string Y sub)")
    case (Inr name)
    then have "name \<in> N" using Cons.prems [of sub name] by simp
    with Inr IH assms(1) [of name] show ?thesis
      by (auto simp: obind_None_iff simp del: not_None_eq split: option.splits)
  qed simp
qed simp

lemma process_entries_returns:
  assumes "\<And>n c. (''include'', n) \<in> set es \<Longrightarrow> process_includes Y load dir k (yelems n) c \<noteq> None"
  shows "process_entries Y load dir k es prio c \<noteq> None"
  using assms
proof (induction es arbitrary: prio c)
  case (Cons e es)
  obtain nm n where e: "e = (nm, n)" by (cases e)
  have IH: "process_entries Y load dir k es prio' c' \<noteq> None" for prio' c'
    by (rule Cons.IH) (use Cons.prems in auto)
  show ?case
  proof (cases "nm = ''include''")
    case True
    with IH Cons.prems [of n c] e show ?thesis by (auto simp: obind_None_iff simp del: not_None_eq)
  next
    case False
    with IH e show ?thesis by (cases "process_node Y nm n prio c") (auto simp: case_prod_beta simp del: not_None_eq)
  qed
qed simp

lemma process_config_returns:
  fixes rank :: "string \<Rightarrow> nat"
  assumes "\<And>path cfg p. load path = Some cfg \<Longrightarrow> p \<in> includes_of Y dir cfg \<Longrightarrow> rank p < rank path"
    and "\<And>p. p \<in> includes_of Y dir cfg \<Longrightarrow> rank p < k"
  shows "process_config Y load dir (Suc k) cfg c \<noteq> None"
  using assms(2)
proof (induction k arbitrary: cfg c)
  case 0
  show ?case
  proof (cases "config_entries cfg")
    case (Inr es)
    have "process_includes Y load dir 0 (yelems n) c' \<noteq> None" if "(''include'', n) \<in> set es" for n c'
      using that "0.prems" config_entries_eq [OF Inr]
      by (intro process_includes_returns [where N = "{}"]) (auto simp: includes_of_def)
    then have "process_entries Y load dir 0 es 0 (reset_config c) \<noteq> None" by (rule process_entries_returns)
    with Inr show ?thesis by (simp add: process_config_Suc del: not_None_eq)
  qed (simp add: process_config_Suc)
next
  case (Suc k)
  show ?case
  proof (cases "config_entries cfg")
    case (Inr es)
    let ?N = "{name. rank (dir @ ''/'' @ name) < Suc k}"
    have "process_includes Y load dir (Suc k) (yelems n) c' \<noteq> None" if n: "(''include'', n) \<in> set es" for n c'
    proof (rule process_includes_returns [where N = ?N])
      fix name cfg' c' assume "name \<in> ?N" and l: "load (dir @ ''/'' @ name) = Some cfg'"
      then show "process_config Y load dir (Suc k) cfg' c' \<noteq> None"
        using assms(1) [OF l] by (intro Suc.IH) force
    next
      fix sub name assume "sub \<in> set (yelems n)" and "as_string Y sub = Inr name"
      then show "name \<in> ?N" using Suc.prems n config_entries_eq [OF Inr] by (auto simp: includes_of_def)
    qed
    then have "process_entries Y load dir (Suc k) es 0 (reset_config c) \<noteq> None" by (rule process_entries_returns)
    with Inr show ?thesis by (subst process_config_Suc) (simp del: not_None_eq)
  qed (simp add: process_config_Suc)
qed

text \<open>A configuration that was read to the end has its included files read to the end before, with fewer levels.\<close>

lemma includes_read:
  assumes "process_includes Y load dir k subs c = Some (Inr c')" and "sub \<in> set subs" and "as_string Y sub = Inr name"
  shows "\<exists>cfg c0 c1. load (dir @ ''/'' @ name) = Some cfg \<and> process_config Y load dir k cfg c0 = Some (Inr c1)"
  using assms(1,2)
proof (induction subs arbitrary: c)
  case (Cons s subs)
  from Cons.prems(1) obtain nm cfg c1 where r: "as_string Y s = Inr nm" "load (dir @ ''/'' @ nm) = Some cfg"
    "process_config Y load dir k cfg c = Some (Inr c1)" "process_includes Y load dir k subs c1 = Some (Inr c')"
    by (auto simp: obind_eq_Some_Inr_iff split: option.splits)
  show ?case
  proof (cases "sub = s")
    case True
    with r assms(3) show ?thesis by auto
  next
    case False
    with Cons r(4) show ?thesis by auto
  qed
qed simp

lemma entries_read:
  assumes "process_entries Y load dir k es prio c = Some (Inr c')" and "(''include'', n) \<in> set es"
  shows "\<exists>c0 c1. process_includes Y load dir k (yelems n) c0 = Some (Inr c1)"
  using assms
proof (induction es arbitrary: prio c)
  case (Cons e es)
  obtain nm n' where e: "e = (nm, n')" by (cases e)
  show ?case
  proof (cases "nm = ''include''")
    case True
    with Cons e show ?thesis by (auto simp: obind_eq_Some_Inr_iff)
  next
    case False
    with Cons e show ?thesis by (auto simp: obind_eq_Some_Inr_iff)
  qed
qed simp

lemma config_read:
  assumes "process_config Y load dir (Suc k) cfg c = Some (Inr c')" and "p \<in> includes_of Y dir cfg"
  shows "\<exists>cfg' c0 c1. load p = Some cfg' \<and> process_config Y load dir k cfg' c0 = Some (Inr c1)"
proof -
  from assms(1) obtain es where es: "config_entries cfg = Inr es" "process_entries Y load dir k es 0 (reset_config c) = Some (Inr c')"
    by (auto simp: process_config_Suc obind_eq_Some_Inr_iff)
  from assms(2) config_entries_eq [OF es(1)] obtain name sub n where "p = dir @ ''/'' @ name" "(''include'', n) \<in> set es"
    "sub \<in> set (yelems n)" "as_string Y sub = Inr name" by (auto simp: includes_of_def)
  then show ?thesis using entries_read [OF es(2)] includes_read by metis
qed

text \<open>Files that lead back to themselves: every file of \<open>S\<close> that can be read includes one of \<open>S\<close>.\<close>

lemma circle_not_accepted:
  assumes "\<And>path cfg. path \<in> S \<Longrightarrow> load path = Some cfg \<Longrightarrow> includes_of Y dir cfg \<inter> S \<noteq> {}"
    and "includes_of Y dir cfg \<inter> S \<noteq> {}"
  shows "process_config Y load dir fuel cfg c \<noteq> Some (Inr c')"
  using assms(2)
proof (induction fuel arbitrary: cfg c c')
  case (Suc k)
  then obtain p where p: "p \<in> includes_of Y dir cfg" "p \<in> S" by blast
  show ?case
  proof
    assume "process_config Y load dir (Suc k) cfg c = Some (Inr c')"
    from config_read [OF this p(1)] obtain cfg' c0 c1 where "load p = Some cfg'" "process_config Y load dir k cfg' c0 = Some (Inr c1)"
      by blast
    with Suc.IH [of cfg' c0 c1] assms(1) [OF p(2)] show False by blast
  qed
qed simp

text \<open>Nodes that are never refused.\<close>

lemma harmless_nodes_read:
  assumes "\<forall>(nm, n)\<in>set pre. nm \<in> set all_filters_names \<union> {''swabber'', ''kafka''}"
  shows "\<exists>prio' c'. process_entries Y load dir k (pre @ es) prio c = process_entries Y load dir k es prio' c'"
  using assms
proof (induction pre arbitrary: prio c)
  case (Cons e pre)
  obtain nm n where e: "e = (nm, n)" by (cases e)
  with Cons.prems have nm: "nm \<in> set all_filters_names \<union> {''swabber'', ''kafka''}" by simp
  have "''include'' \<notin> set all_filters_names \<union> {''swabber'', ''kafka''}" by (simp add: all_filters_names_def filter_names)
  with nm have "nm \<noteq> ''include''" by metis
  moreover from nm obtain prio1 c1 where "process_node Y nm n prio c = Inr (prio1, c1)"
    by (cases "nm \<in> set all_filters_names"; cases "add_filter_node nm n prio c") (auto simp: process_node_def)
  ultimately show ?case using Cons e by simp
qed auto

text \<open>C39: Reading the configuration ends unless files include each other in a circle. If every file has a
  rank above those of the files it includes, reading a configuration that includes only files of rank
  below \<open>k\<close> needs no more than \<open>k\<close> levels of files, whatever the files contain, and comes to a result
  or stops the server. In a circle, no configuration is ever accepted: if a configuration includes a file of a set of which
  every file includes another of the set, then with every number of levels reading it has not ended or has stopped the
  server. And reading need not end: a file that includes itself after nodes of filters, \<open>swabber\<close> or \<open>kafka\<close>
  only, which are never refused, is read for ever, no number of levels being enough.\<close>

theorem included_files_are_read_to_the_end:
  fixes rank :: "string \<Rightarrow> nat"
  shows "((\<forall>path cfg. load_file path = Some cfg \<longrightarrow> (\<forall>p\<in>includes_of Y dir cfg. rank p < rank path)) \<longrightarrow>
     (\<forall>p\<in>includes_of Y dir cfg. rank p < k) \<longrightarrow>
     (\<exists>r. process_config Y load_file dir (Suc k) cfg c = Some r)) \<and>
    ((\<forall>path\<in>S. \<forall>cfg. load_file path = Some cfg \<longrightarrow> includes_of Y dir cfg \<inter> S \<noteq> {}) \<longrightarrow>
     includes_of Y dir cfg \<inter> S \<noteq> {} \<longrightarrow> process_config Y load_file dir fuel cfg c \<noteq> Some (Inr c')) \<and>
    (self = YMap (pre @ (''include'', YSequence (sub # subs)) # post) \<longrightarrow>
     (\<forall>(nm, n)\<in>set pre. nm \<in> set all_filters_names \<union> {''swabber'', ''kafka''}) \<longrightarrow>
     as_string Y sub = Inr name \<longrightarrow> load_file (dir @ ''/'' @ name) = Some self \<longrightarrow>
     process_config Y load_file dir fuel self c = None)"
proof (intro conjI impI)
  assume "\<forall>path cfg. load_file path = Some cfg \<longrightarrow> (\<forall>p\<in>includes_of Y dir cfg. rank p < rank path)"
    and "\<forall>p\<in>includes_of Y dir cfg. rank p < k"
  then have "process_config Y load_file dir (Suc k) cfg c \<noteq> None"
    by (intro process_config_returns [where rank = rank]) blast+
  then show "\<exists>r. process_config Y load_file dir (Suc k) cfg c = Some r" by simp
next
  assume "\<forall>path\<in>S. \<forall>cfg. load_file path = Some cfg \<longrightarrow> includes_of Y dir cfg \<inter> S \<noteq> {}" and "includes_of Y dir cfg \<inter> S \<noteq> {}"
  then show "process_config Y load_file dir fuel cfg c \<noteq> Some (Inr c')" by (intro circle_not_accepted [where S = S]) blast+
next
  assume self: "self = YMap (pre @ (''include'', YSequence (sub # subs)) # post)"
    and pre: "\<forall>(nm, n)\<in>set pre. nm \<in> set all_filters_names \<union> {''swabber'', ''kafka''}"
    and sub: "as_string Y sub = Inr name" and load: "load_file (dir @ ''/'' @ name) = Some self"
  show "process_config Y load_file dir fuel self c = None"
  proof (induction fuel arbitrary: c)
    case (Suc fuel)
    obtain prio' c' where "process_entries Y load_file dir fuel (pre @ (''include'', YSequence (sub # subs)) # post) 0 (reset_config c) =
        process_entries Y load_file dir fuel ((''include'', YSequence (sub # subs)) # post) prio' c'"
      using harmless_nodes_read [OF pre] by blast
    with Suc sub load show ?case by (simp add: process_config_Suc config_entries_def self yelems_def or_abort_def)
  qed simp
qed

definition sample_loader :: loader where
  "sample_loader path = (if path = ''d/a'' then Some (YMap [(''challenger'', YMap [])]) else None)"

text \<open>A file that is read to the end, and one that has a filter and includes itself.\<close>

definition self_loader :: loader where
  "self_loader path = (if path = ''d/a'' then Some (YMap [(''challenger'', YMap []), (''include'', YSequence [YScalar ''a''])]) else None)"

theorem included_files_are_read_to_the_end_witness:
  "(\<exists>r. process_config sample_yaml sample_loader ''d'' 2 (YMap [(''include'', YSequence [YScalar ''a''])]) new_config = Some r) \<and>
   (\<forall>c'. process_config sample_yaml self_loader ''d'' 9 (YMap [(''include'', YSequence [YScalar ''a''])]) new_config \<noteq> Some (Inr c')) \<and>
   process_config sample_yaml self_loader ''d'' 9 (YMap [(''challenger'', YMap []), (''include'', YSequence [YScalar ''a''])]) new_config = None"
proof -
  let ?top = "YMap [(''include'', YSequence [YScalar ''a''])]" and ?self = "YMap [(''challenger'', YMap []), (''include'', YSequence [YScalar ''a''])]"
  have inc: "includes_of sample_yaml ''d'' (YMap [(''challenger'', YMap [])]) = {}" by (simp add: includes_of_def yentries_def)
  have "\<forall>p\<in>includes_of sample_yaml ''d'' ?top. (\<lambda>_. 0) p < (1 :: nat)" by simp
  with inc have 1: "\<exists>r. process_config sample_yaml sample_loader ''d'' 2 ?top new_config = Some r"
    using included_files_are_read_to_the_end [of sample_loader sample_yaml "''d''" "\<lambda>_. 0" ?top 1 new_config]
    by (auto simp: sample_loader_def numeral_2_eq_2)
  have a: "as_string sample_yaml (YScalar ''a'') = Inr ''a''" by (simp add: sample_yaml_def)
  then have "''d/a'' \<in> includes_of sample_yaml ''d'' ?top" "''d/a'' \<in> includes_of sample_yaml ''d'' ?self"
    by (auto simp: includes_of_def yentries_def yelems_def)
  then have 2: "process_config sample_yaml self_loader ''d'' 9 ?top new_config \<noteq> Some (Inr c')" for c'
    using included_files_are_read_to_the_end [of self_loader sample_yaml "''d''" _ ?top _ new_config "{''d/a''}" 9 c']
    by (auto simp: self_loader_def)
  have "process_config sample_yaml self_loader ''d'' 9 ?self new_config = None"
    using included_files_are_read_to_the_end [of self_loader sample_yaml "''d''" _ _ _ new_config _ 9 _ ?self
        "[(''challenger'', YMap [])]" "YScalar ''a''" "[]" "[]" "''a''"] a
    by (simp add: self_loader_def all_filters_names_def filter_names)
  with 1 2 show ?thesis by blast
qed

subsection \<open>The order\<close>

text \<open>What single nodes and the start of a file keep, reading all files keeps.\<close>

locale config_invariant =
  fixes Y :: yaml_lib and inv :: "banjax_config \<Rightarrow> bool"
  assumes inv_reset: "inv c \<Longrightarrow> inv (reset_config c)"
    and inv_node: "inv c \<Longrightarrow> 0 \<le> prio \<Longrightarrow> process_node Y nm n prio c = Inr (prio', c') \<Longrightarrow> inv c' \<and> 0 \<le> prio'"
begin

lemma inv_includes:
  assumes "\<And>cfg c c'. process_config Y load dir k cfg c = Some (Inr c') \<Longrightarrow> inv c \<Longrightarrow> inv c'"
  shows "process_includes Y load dir k subs c = Some (Inr c') \<Longrightarrow> inv c \<Longrightarrow> inv c'"
proof (induction subs arbitrary: c)
  case (Cons sub subs)
  then obtain cfg c1 where "process_config Y load dir k cfg c = Some (Inr c1)" "process_includes Y load dir k subs c1 = Some (Inr c')"
    by (auto simp: obind_eq_Some_Inr_iff split: option.splits)
  with Cons assms show ?case by blast
qed simp

lemma inv_entries:
  assumes "\<And>cfg c c'. process_config Y load dir k cfg c = Some (Inr c') \<Longrightarrow> inv c \<Longrightarrow> inv c'"
  shows "process_entries Y load dir k es prio c = Some (Inr c') \<Longrightarrow> inv c \<Longrightarrow> 0 \<le> prio \<Longrightarrow> inv c'"
proof (induction es arbitrary: prio c)
  case (Cons e es)
  obtain nm n where e: "e = (nm, n)" by (cases e)
  show ?case
  proof (cases "nm = ''include''")
    case True
    with Cons.prems(1) e obtain c1 where c1: "process_includes Y load dir k (yelems n) c = Some (Inr c1)"
      and r: "process_entries Y load dir k es prio c1 = Some (Inr c')" by (auto simp: obind_eq_Some_Inr_iff)
    have "inv c1" by (rule inv_includes [OF _ c1 Cons.prems(2)]) (rule assms)
    with r Cons show ?thesis by blast
  next
    case False
    with Cons.prems(1) e obtain prio1 c1 where "process_node Y nm n prio c = Inr (prio1, c1)"
      "process_entries Y load dir k es prio1 c1 = Some (Inr c')" by (auto simp: obind_eq_Some_Inr_iff)
    with Cons inv_node show ?thesis by blast
  qed
qed simp

lemma inv_config: "process_config Y load dir k cfg c = Some (Inr c') \<Longrightarrow> inv c \<Longrightarrow> inv c'"
proof (induction k arbitrary: cfg c c')
  case (Suc k)
  from Suc.prems(1) obtain es where "process_entries Y load dir k es 0 (reset_config c) = Some (Inr c')"
    by (auto simp: process_config_Suc obind_eq_Some_Inr_iff)
  from inv_entries [OF Suc.IH this] Suc.prems(2) inv_reset show ?case by simp
qed simp

end

definition config_ok :: "banjax_config \<Rightarrow> bool" where
  "config_ok c \<longleftrightarrow> distinct (map fst (filter_config_map c)) \<and>
     (\<forall>nm fc. map_of (filter_config_map c) nm = Some fc \<longrightarrow> nm \<in> set all_filters_names \<and> 0 \<le> priority fc)"

interpretation config_files: config_invariant Y config_ok for Y
proof unfold_locales
  fix c assume "config_ok c"
  then show "config_ok (reset_config c)" by (simp add: config_ok_def reset_config_def)
next
  fix c prio nm n prio' c'
  assume ok: "config_ok c" and "0 \<le> prio" and step: "process_node Y nm n prio c = Inr (prio', c')"
  show "config_ok c' \<and> 0 \<le> prio'"
  proof (cases "nm \<in> set all_filters_names")
    case True
    with step ok \<open>0 \<le> prio\<close> show ?thesis
      by (auto simp: process_node_def add_filter_node_def config_ok_def push_node_def new_filter_config_def
          distinct_update update_conv' split: option.splits if_splits)
  next
    case False
    with step ok \<open>0 \<le> prio\<close> show ?thesis
      by (auto simp: process_node_def config_ok_def rbind_eq_Inr_iff split: if_splits)
  qed
qed

lemma sorted_distinct_insort_key:
  assumes "sorted_wrt (<) (map f xs)" and "f x \<notin> f ` set xs"
  shows "sorted_wrt (<) (map f (insort_key f x xs))"
  using assms by (induction xs) (auto simp: set_insort_key order.strict_iff_order)

text \<open>What the loop over the filters has done when it is through.\<close>

lemma assign_priorities_result:
  assumes "assign_priorities Y p mx fs acc = Inr pm" and "sorted_wrt (<) (map fst acc)"
  shows "sorted_wrt (<) (map fst pm) \<and> mset (map snd pm) = mset (map snd acc) + mset (map fst fs) \<and>
    (\<forall>(prio, nm)\<in>set pm. (prio, nm) \<in> set acc \<or>
       (\<exists>fc n. (nm, fc) \<in> set fs \<and> ysub p nm = Inr n \<and>
         (if IsDefined n then as_int Y n = Inr prio else prio = priority fc + (mx + 1))))"
  using assms
proof (induction fs arbitrary: acc)
  case (Cons f fs)
  obtain nm fc where f: "f = (nm, fc)" by (cases f)
  from Cons.prems(1) obtain n prio where n: "ysub p nm = Inr n"
    and prio: "if IsDefined n then as_int Y n = Inr prio else prio = priority fc + (mx + 1)"
    and fresh: "prio \<notin> fst ` set acc"
    and rest: "assign_priorities Y p mx fs (insort_key fst (prio, nm) acc) = Inr pm"
    by (auto simp: f rbind_eq_Inr_iff int_add_def split: if_splits) (metis add.commute)+
  have "sorted_wrt (<) (map fst (insort_key fst (prio, nm) acc))"
    by (rule sorted_distinct_insort_key) (use Cons.prems(2) fresh in auto)
  from Cons.IH [OF rest this] n prio show ?case
    by (fastforce simp: f set_insort_key)
qed auto

text \<open>Filters the node \<open>priority\<close> lists.\<close>

definition listed :: "yaml \<Rightarrow> string \<Rightarrow> bool" where
  "listed p nm = (case ysub p nm of Inr n \<Rightarrow> IsDefined n | Inl _ \<Rightarrow> False)"

lemma foldl_max_ge: "x \<in> set xs \<or> x \<le> a \<Longrightarrow> (x :: int) \<le> foldl max a xs"
  by (induction xs arbitrary: a) (auto simp: le_max_iff_disj)

lemma as_list_member: "as_list f ns = Inr xs \<Longrightarrow> n \<in> set ns \<Longrightarrow> f n = Inr x \<Longrightarrow> x \<in> set xs"
  by (induction ns arbitrary: xs) (auto simp: rbind_eq_Inr_iff)

lemma explicit_priority_le_max:
  assumes "priority_bounds Y p = Inr (mn, mx)" and "ysub p nm = Inr n" and "IsDefined n" and "as_int Y n = Inr prio"
  shows "prio \<le> mx"
proof (cases "ysize p = 0")
  case True
  with assms(2,3) show ?thesis
    by (auto simp: ysize_def ysub_def to_map_def rbind_eq_Inr_iff IsDefined_def split: yaml.splits list.splits)
next
  case False
  with assms(1) obtain k v kvs v0 vs where p: "p = YMap ((k, v) # kvs)" and
    vs: "as_list (as_int Y) (v # map snd kvs) = Inr vs" and mx: "mx = foldl max v0 vs"
    by (auto simp: priority_bounds_def rbind_eq_Inr_iff simp del: as_list.simps foldl_Cons split: yaml.splits list.splits)
  from assms(2,3) p have "n \<in> set (v # map snd kvs)"
    by (force simp: ysub_def to_map_def rbind_eq_Inr_iff IsDefined_def split: option.splits if_splits dest!: map_of_SomeD)
  with vs assms(4) have "prio \<in> set vs" using as_list_member by metis
  with mx show ?thesis by (simp add: foldl_max_ge)
qed

lemma config_ok_of_files: "process_config Y load dir fuel cfg new_config = Some (Inr c) \<Longrightarrow> config_ok c"
  by (erule config_files.inv_config) (simp add: config_ok_def new_config_def)

lemma order_filters_sorted:
  assumes "config_ok c" and "order_filters Y c = Inr pm"
  shows "sorted_wrt (<) (map fst pm) \<and> distinct (map snd pm) \<and> set (map snd pm) = fst ` set (filter_config_map c) \<and>
    set (map snd pm) \<subseteq> set all_filters_names"
proof -
  from assms(2) obtain mx where "assign_priorities Y (priorities c) mx (sort_key fst (filter_config_map c)) [] = Inr pm"
    by (auto simp: order_filters_def rbind_eq_Inr_iff)
  from assign_priorities_result [OF this]
  have r: "sorted_wrt (<) (map fst pm)" "mset (map snd pm) = mset (map fst (filter_config_map c))" by simp_all
  from r(2) have names: "set (map snd pm) = fst ` set (filter_config_map c)" by (metis list.set_map set_mset_mset)
  moreover have "distinct (map snd pm)" using r(2) assms(1) by (metis config_ok_def mset_eq_imp_distinct_iff)
  ultimately show ?thesis using r(1) assms(1) by (auto simp: config_ok_def)
qed

text \<open>Where a filter stands in the order, by whether it is listed.\<close>

lemma order_filters_priorities:
  assumes "config_ok c" and "order_filters Y c = Inr pm" and "(prio, nm) \<in> set pm"
  shows "\<exists>mx. (\<forall>prio' nm'. (prio', nm') \<in> set pm \<longrightarrow> listed (priorities c) nm' \<longrightarrow> prio' \<le> mx) \<and>
    (if listed (priorities c) nm then rbind (ysub (priorities c) nm) (as_int Y) = Inr prio
     else \<exists>fc. map_of (filter_config_map c) nm = Some fc \<and> 0 \<le> priority fc \<and> prio = priority fc + (mx + 1))"
proof -
  from assms(1) have dist: "distinct (map fst (filter_config_map c))"
    and known: "\<And>nm fc. (nm, fc) \<in> set (filter_config_map c) \<Longrightarrow> 0 \<le> priority fc"
    by (auto simp: config_ok_def)
  from assms(2) obtain mn mx where b: "priority_bounds Y (priorities c) = Inr (mn, mx)"
    and a: "assign_priorities Y (priorities c) mx (sort_key fst (filter_config_map c)) [] = Inr pm"
    by (auto simp: order_filters_def rbind_eq_Inr_iff)
  from assign_priorities_result [OF a, simplified]
  have each: "\<exists>fc n. (nm, fc) \<in> set (filter_config_map c) \<and> ysub (priorities c) nm = Inr n \<and>
      (if IsDefined n then as_int Y n = Inr prio else prio = priority fc + (mx + 1))" if "(prio, nm) \<in> set pm" for prio nm
    using that by blast
  have "prio' \<le> mx" if "(prio', nm') \<in> set pm" "listed (priorities c) nm'" for prio' nm'
    using each [OF that(1)] that(2) explicit_priority_le_max [OF b] by (auto simp: listed_def split: if_splits)
  then show ?thesis
    using each [OF assms(3)] known dist by (intro exI [of _ mx]) (auto simp: listed_def split: if_splits)
qed

text \<open>Among the filters that are not listed the sequential priorities of the files decide.\<close>

lemma unlisted_order:
  assumes ok: "config_ok c" and o: "order_filters Y c = Inr pm" and p: "(p1, n1) \<in> set pm" "(p2, n2) \<in> set pm"
    and u: "\<not> listed (priorities c) n1" "\<not> listed (priorities c) n2"
  shows "p1 < p2 \<longleftrightarrow> priority (the (map_of (filter_config_map c) n1)) < priority (the (map_of (filter_config_map c) n2))"
proof -
  from o obtain mx where a: "assign_priorities Y (priorities c) mx (sort_key fst (filter_config_map c)) [] = Inr pm"
    by (auto simp: order_filters_def rbind_eq_Inr_iff)
  have "\<exists>fc. map_of (filter_config_map c) nm = Some fc \<and> prio = priority fc + (mx + 1)"
    if "(prio, nm) \<in> set pm" "\<not> listed (priorities c) nm" for prio nm
    using assign_priorities_result [OF a, simplified] that ok
    by (fastforce simp: listed_def config_ok_def split: if_splits)
  from this [OF p(1) u(1)] this [OF p(2) u(2)] show ?thesis by auto
qed

text \<open>The filters of a file in the order of their first nodes.\<close>

definition first_nodes :: "yaml \<Rightarrow> string list" where
  "first_nodes cfg = rev (remdups (rev (filter (\<lambda>nm. nm \<in> set all_filters_names) (map fst (yentries cfg)))))"

lemma remdups_skip: "k \<in> set ys \<Longrightarrow> remdups (xs @ k # ys) = remdups (xs @ ys)"
  by (induction xs) auto

definition priority_of :: "banjax_config \<Rightarrow> string \<Rightarrow> int" where
  "priority_of c nm = priority (the (map_of (filter_config_map c) nm))"

text \<open>In one file the filters are numbered as they come.\<close>

definition numbered :: "string list \<Rightarrow> int \<Rightarrow> banjax_config \<Rightarrow> bool" where
  "numbered nms prio c \<longleftrightarrow> map fst (filter_config_map c) = nms \<and> distinct nms \<and> prio = int (length nms) \<and>
     map (priority_of c) nms = map int [0..<length nms]"

lemma add_filter_node_numbered:
  assumes "numbered nms prio c" and "add_filter_node nm n prio c = (prio', c')"
  shows "numbered (if nm \<in> set nms then nms else nms @ [nm]) prio' c'"
proof (cases "nm \<in> set nms")
  case True
  then obtain fc where fc: "map_of (filter_config_map c) nm = Some fc"
    using assms(1) by (metis list.set_map map_of_eq_None_iff not_None_eq numbered_def)
  with assms(2) have c': "prio' = prio" "c' = c\<lparr>filter_config_map := AList.update nm (push_node n fc) (filter_config_map c)\<rparr>"
    by (simp_all add: add_filter_node_def)
  then have "priority_of c' = priority_of c" using fc by (auto simp: priority_of_def update_conv' push_node_def fun_eq_iff)
  moreover have "map fst (filter_config_map c') = nms" using c' True assms(1) by (simp add: numbered_def update_keys)
  ultimately show ?thesis using assms(1) True c' by (simp add: numbered_def)
next
  case False
  then have "map_of (filter_config_map c) nm = None"
    using assms(1) by (metis list.set_map map_of_eq_None_iff numbered_def)
  with assms(2) have c': "prio' = prio + 1"
    "c' = c\<lparr>filter_config_map := AList.update nm (push_node n (new_filter_config\<lparr>priority := prio\<rparr>)) (filter_config_map c)\<rparr>"
    by (simp_all add: add_filter_node_def)
  then have "priority_of c' = (priority_of c)(nm := prio)" by (auto simp: priority_of_def update_conv' push_node_def fun_eq_iff)
  moreover have "map fst (filter_config_map c') = nms @ [nm]" using c' False assms(1) by (simp add: numbered_def update_keys)
  moreover have "map ((priority_of c)(nm := prio)) nms = map (priority_of c) nms" using False by simp
  ultimately show ?thesis using assms(1) False c' by (simp add: numbered_def)
qed

lemma process_node_other: "process_node Y nm n prio c = Inr (prio', c') \<Longrightarrow> nm \<notin> set all_filters_names \<Longrightarrow>
   prio' = prio \<and> filter_config_map c' = filter_config_map c"
  by (auto simp: process_node_def rbind_eq_Inr_iff split: if_splits)

lemma single_file_numbered:
  assumes "process_entries Y load dir k es prio c = Some (Inr c')" and "\<forall>n. (''include'', n) \<notin> set es" and "numbered nms prio c"
  shows "\<exists>prio'. numbered (rev (remdups (rev (nms @ filter (\<lambda>nm. nm \<in> set all_filters_names) (map fst es))))) prio' c'"
  using assms
proof (induction es arbitrary: nms prio c)
  case Nil
  then show ?case by (auto simp: numbered_def distinct_remdups_id)
next
  case (Cons e es)
  obtain nm n where e: "e = (nm, n)" by (cases e)
  with Cons.prems(2) have "nm \<noteq> ''include''" by auto
  with Cons.prems(1) e obtain prio1 c1 where s: "process_node Y nm n prio c = Inr (prio1, c1)"
    "process_entries Y load dir k es prio1 c1 = Some (Inr c')" by (auto simp: obind_eq_Some_Inr_iff)
  note IH = Cons.IH [OF s(2)]
  show ?case
  proof (cases "nm \<in> set all_filters_names")
    case True
    with s(1) have "add_filter_node nm n prio c = (prio1, c1)" by (simp add: process_node_def)
    from IH [OF _ add_filter_node_numbered [OF Cons.prems(3) this]] Cons.prems(2) e True show ?thesis
      by (auto simp: remdups_skip split: if_splits)
  next
    case False
    then have "prio1 = prio" "filter_config_map c1 = filter_config_map c" using process_node_other [OF s(1)] by simp_all
    moreover from this(2) have "priority_of c1 = priority_of c" by (simp add: priority_of_def fun_eq_iff)
    ultimately have "numbered nms prio1 c1" using Cons.prems(3) by (simp add: numbered_def)
    from IH [OF _ this] Cons.prems(2) e False show ?thesis by auto
  qed
qed

lemma single_file_first_nodes:
  assumes "process_config Y load dir k cfg new_config = Some (Inr c)" and "\<forall>n. (''include'', n) \<notin> set (yentries cfg)"
  shows "\<exists>prio. numbered (first_nodes cfg) prio c"
proof (cases k)
  case (Suc k')
  with assms(1) obtain es where es: "config_entries cfg = Inr es" "process_entries Y load dir k' es 0 (reset_config new_config) = Some (Inr c)"
    by (auto simp: process_config_Suc obind_eq_Some_Inr_iff)
  have "numbered [] 0 (reset_config new_config)" by (simp add: numbered_def new_config_def reset_config_def)
  from single_file_numbered [OF es(2) _ this] assms(2) config_entries_eq [OF es(1)] show ?thesis
    by (simp add: first_nodes_def)
qed (use assms in simp)

lemma single_file_order:
  assumes ok: "config_ok c" and o: "order_filters Y c = Inr pm" and n: "numbered nms prio c"
  shows "filter (\<lambda>nm. \<not> listed (priorities c) nm) (map snd pm) = filter (\<lambda>nm. \<not> listed (priorities c) nm) nms"
proof -
  let ?u = "\<lambda>nm. \<not> listed (priorities c) nm"
  note s = order_filters_sorted [OF ok o]
  have "sorted_wrt (\<lambda>x y. fst x < fst y) (filter (\<lambda>x. ?u (snd x)) pm)"
    using s by (simp add: sorted_wrt_map sorted_wrt_filter)
  then have "sorted_wrt (\<lambda>x y. priority_of c (snd x) < priority_of c (snd y)) (filter (\<lambda>x. ?u (snd x)) pm)"
  proof (rule sorted_wrt_mono_rel [rotated])
    fix x y assume "x \<in> set (filter (\<lambda>x. ?u (snd x)) pm)" "y \<in> set (filter (\<lambda>x. ?u (snd x)) pm)" "fst x < fst y"
    then show "priority_of c (snd x) < priority_of c (snd y)"
      using unlisted_order [OF ok o, of "fst x" "snd x" "fst y" "snd y"] by (auto simp: priority_of_def)
  qed
  then have 1: "sorted_wrt (<) (map (priority_of c) (filter ?u (map snd pm)))" by (simp add: sorted_wrt_map filter_map o_def)
  have inc: "sorted_wrt (<) (map (priority_of c) nms)" using n by (simp add: numbered_def sorted_wrt_map)
  then have 2: "sorted_wrt (<) (map (priority_of c) (filter ?u nms))" by (simp add: sorted_wrt_map sorted_wrt_filter)
  have names: "set (map snd pm) = set nms" using s n by (metis list.set_map numbered_def)
  then have "set (map (priority_of c) (filter ?u (map snd pm))) = set (map (priority_of c) (filter ?u nms))" by auto
  with 1 2 have "map (priority_of c) (filter ?u (map snd pm)) = map (priority_of c) (filter ?u nms)" by (metis strict_sorted_equal)
  moreover have "inj_on (priority_of c) (set nms)" using inc by (metis distinct_map strict_sorted_iff)
  then have "inj_on (priority_of c) (set (filter ?u (map snd pm)) \<union> set (filter ?u nms))"
    using names by (auto intro: inj_on_subset)
  ultimately show ?thesis by (rule map_inj_on)
qed



end
