(* ===== verification/Banjax.thy ===== *)
theory Banjax
  imports TransactionData BanjaxConfig Kafka
begin

text \<open>
  Banjax as a whole (banjax.h, banjax.cpp): the construction of the filters, the rest of
  \<open>read_configuration\<close>, the status report, the clean-up, and the plugin that owns the current Banjax
  and replaces it on a reload. A Banjax object is the record \<open>banjax_obj\<close>: its configuration, the
  filters, the consumer, and the state of its tables, sockets and logs. What the outside has seen (the
  messages sent, the ban log) and the world's answers go on from one object to the next; the tables do
  not. \<open>bx_id\<close> stands for the address of the object.

  The plugin, like the program, keeps the replaced object as long as transactions use it: \<open>reload_config\<close>
  returns both.
\<close>

record banjax_obj =
  bx_id :: nat
  bx_config :: banjax_config
  bx_priority_map :: "(int \<times> string) list"
  bx_filters :: filters
  bx_consumer :: "kafka_consumer option"
  bx_producer :: "(string \<times> (string \<times> string) list) option"
  bx_state :: sniffer_state
  report_status_action :: int
  remove_expired_challenges_action :: int

section \<open>Filters\<close>

definition filter_id_of :: "string \<Rightarrow> FilterIDType option" where
  "filter_id_of nm =
     (if nm = REGEX_BANNER_FILTER_NAME then Some REGEX_BANNER_FILTER_ID
      else if nm = CHALLENGER_FILTER_NAME then Some CHALLENGER_FILTER_ID
      else if nm = WHITE_LISTER_FILTER_NAME then Some WHITE_LISTER_FILTER_ID
      else if nm = BOT_SNIFFER_FILTER_NAME then Some BOT_SNIFFER_FILTER_ID
      else if nm = DENIALATOR_FILTER_NAME then Some DENIALATOR_FILTER_ID
      else None)"

definition no_filters :: filters where
  "no_filters =
     \<lparr>regex_manager = None, challenger_filter = None, white_lister = False, bot_sniffer = False, denialator_filter = None,
      global_ip_white_list = empty_white_list, task_queues = (\<lambda>_. []), all_filters_requested_part = 0, all_filters_response_part = 0\<rparr>"

text \<open>The queues a filter's constructor enters itself in: \<open>queued_tasks[i] = this\<close>.\<close>

definition queued_tasks :: "FilterIDType \<Rightarrow> ExecutionQueue \<Rightarrow> bool" where
  "queued_tasks f q \<longleftrightarrow> q = (if f = BOT_SNIFFER_FILTER_ID then HTTP_CLOSE else HTTP_REQUEST)"

definition requested_info :: "FilterIDType \<Rightarrow> 64 word" where
  "requested_info f =
     (case f of
        REGEX_BANNER_FILTER_ID \<Rightarrow> RegexManager_requested_info
      | CHALLENGER_FILTER_ID \<Rightarrow> Challenger_requested_info
      | BOT_SNIFFER_FILTER_ID \<Rightarrow> BotSniffer_requested_info
      | WHITE_LISTER_FILTER_ID \<Rightarrow> WhiteLister_requested_info
      | DENIALATOR_FILTER_ID \<Rightarrow> Denialator_requested_info)"

definition filter_response_info :: "FilterIDType \<Rightarrow> 64 word" where
  "filter_response_info f = (if f = BOT_SNIFFER_FILTER_ID then BotSniffer_response_info else 0)"

text \<open>The constructors, with the filter's merged configuration.\<close>

definition make_filter :: "yaml_lib \<Rightarrow> libs \<Rightarrow> string \<Rightarrow> socket option \<Rightarrow> FilterIDType \<Rightarrow> filter_config \<Rightarrow> filters \<times> 's sniffer_state_scheme \<Rightarrow>
    (filters \<times> 's sniffer_state_scheme) result" where
  "make_filter Y E dir sniffer_sock f conf = (\<lambda>(B, st).
     rbind (merge_config YNull (config_node_list conf)) (\<lambda>cfg.
     case f of
       REGEX_BANNER_FILTER_ID \<Rightarrow>
         rbind (RegexManager_load_config Y cfg) (\<lambda>rules. Inr (B\<lparr>regex_manager := Some rules\<rparr>, st))
     | CHALLENGER_FILTER_ID \<Rightarrow>
         rbind (Challenger_load_config Y (lib_challenge E) dir (Some (global_ip_white_list B)) True cfg st) (\<lambda>(C, st1).
         Inr (B\<lparr>challenger_filter := Some C\<rparr>, st1))
     | WHITE_LISTER_FILTER_ID \<Rightarrow>
         rbind (WhiteLister_load_config Y cfg (global_ip_white_list B)) (\<lambda>wl.
         Inr (B\<lparr>white_lister := True, global_ip_white_list := wl\<rparr>, st))
     | BOT_SNIFFER_FILTER_ID \<Rightarrow>
         rbind (new_bot_sniffer Y (lib_challenge E) cfg sniffer_sock st) (\<lambda>st1. Inr (B\<lparr>bot_sniffer := True\<rparr>, st1))
     | DENIALATOR_FILTER_ID \<Rightarrow>
         Inr (B\<lparr>denialator_filter := Some (new_denialator (Some (global_ip_white_list B)) st)\<rparr>, st)))"

definition enqueue :: "FilterIDType \<Rightarrow> filters \<Rightarrow> filters" where
  "enqueue f B =
     B\<lparr>task_queues := (\<lambda>q. if q \<in> set all_queues \<and> queued_tasks f q then task_queues B q @ [f] else task_queues B q),
       all_filters_requested_part := all_filters_requested_part B OR requested_info f,
       all_filters_response_part := all_filters_response_part B OR filter_response_info f\<rparr>"

text \<open>\<open>catch (YAML::Exception&)\<close> stops the server.\<close>

definition yaml_abort :: "'a result \<Rightarrow> 'a result" where
  "yaml_abort r = (case r of Inl e \<Rightarrow> Inl (if e \<in> {YamlRepresentation, YamlException} then AbortTrafficServer else e) | Inr v \<Rightarrow> Inr v)"

fun build_filters :: "yaml_lib \<Rightarrow> libs \<Rightarrow> string \<Rightarrow> socket option \<Rightarrow> (string \<times> filter_config) list \<Rightarrow> (int \<times> string) list \<Rightarrow>
    filters \<times> 's sniffer_state_scheme \<Rightarrow> (filters \<times> 's sniffer_state_scheme) result" where
  "build_filters Y E dir sniffer_sock confs [] S = Inr S"
| "build_filters Y E dir sniffer_sock confs ((_, nm) # pm) S =
     (case filter_id_of nm of
        None \<Rightarrow> Inl AbortTrafficServer
      | Some f \<Rightarrow>
          rbind (yaml_abort (make_filter Y E dir sniffer_sock f (case map_of confs nm of Some c \<Rightarrow> c | None \<Rightarrow> new_filter_config) S)) (\<lambda>(B, st).
          build_filters Y E dir sniffer_sock confs pm (enqueue f B, st)))"

section \<open>The configuration\<close>

definition setup_kafka :: "yaml_lib \<Rightarrow> kafka_lib \<Rightarrow> nat \<Rightarrow> yaml \<Rightarrow> kafka_consumer option \<Rightarrow>
    (kafka_consumer option \<times> (string \<times> (string \<times> string) list) option) result" where
  "setup_kafka Y K b kconf consumer =
     rbind (ysub kconf ''metadata.broker.list'') (\<lambda>n.
     if \<not> IsDefined n then Inr (None, None)
     else
       let kc = (case consumer of None \<Rightarrow> new_kafka_consumer kconf b | Some kc \<Rightarrow> KafkaConsumer_reload_config kconf b kc) in
       rbind (new_kafka_producer Y K kconf) (\<lambda>p. Inr (Some kc, Some p)))"

text \<open>The period of a scheduled task in milliseconds.\<close>

definition schedule_every :: "int \<Rightarrow> int \<Rightarrow> int" where
  "schedule_every secs default_secs = (if secs \<noteq> 0 then secs * 1000 else default_secs * 1000)"

definition read_configuration :: "yaml_lib \<Rightarrow> loader \<Rightarrow> libs \<Rightarrow> kafka_lib \<Rightarrow> nat \<Rightarrow> string \<Rightarrow> nat \<Rightarrow> socket option \<Rightarrow>
    kafka_consumer option \<Rightarrow> sniffer_state \<Rightarrow> banjax_obj result option" where
  "read_configuration Y load_file E K fuel dir b sniffer_sock consumer st =
     obind (case load_file (dir @ ''/'' @ CONFIG_FILENAME) of
              None \<Rightarrow> Some (Inl AbortTrafficServer)
            | Some cfg \<Rightarrow> process_config Y load_file dir fuel cfg new_config) (\<lambda>c.
     Some (rbind (order_filters Y c) (\<lambda>pm.
           rbind (Swabber_load_config Y (swabber_conf c) st) (\<lambda>st1.
           rbind (build_filters Y E dir sniffer_sock (filter_config_map c) pm (no_filters, st1)) (\<lambda>(B, st2).
           rbind (setup_kafka Y K b (kafka_conf c) consumer) (\<lambda>(kc, producer).
           Inr \<lparr>bx_id = b, bx_config = c, bx_priority_map = pm, bx_filters = B, bx_consumer = kc, bx_producer = producer,
                bx_state = st2\<lparr>kafka_producer := producer \<noteq> None\<rparr>,
                report_status_action = schedule_every (report_status_interval_seconds c) 15,
                remove_expired_challenges_action = schedule_every (remove_expired_challenges_interval_seconds c) 16\<rparr>))))))"

text \<open>The constructor: new tables, and the sockets and the consumer of the object before.\<close>

definition empty_tables :: "string \<Rightarrow> 's sniffer_state_scheme \<Rightarrow> 's sniffer_state_scheme" where
  "empty_tables host st =
     st\<lparr>swabber_ip_db := [], challenger_ip_db := [], regex_manager_ip_db := [], host_to_challenge_dynamic := [],
        ip_to_challenge_dynamic := [], sniffer_socket := None, kafka_producer := False, host_name := host\<rparr>"

definition new_banjax :: "yaml_lib \<Rightarrow> loader \<Rightarrow> libs \<Rightarrow> kafka_lib \<Rightarrow> nat \<Rightarrow> string \<Rightarrow> string \<Rightarrow> nat \<Rightarrow> socket option \<Rightarrow> socket option \<Rightarrow>
    kafka_consumer option \<Rightarrow> sniffer_state \<Rightarrow> banjax_obj result option" where
  "new_banjax Y load_file E K fuel host dir b swabber_sock sniffer_sock consumer st =
     read_configuration Y load_file E K fuel dir b sniffer_sock consumer (new_swabber swabber_sock (empty_tables host st))"

section \<open>Handing over\<close>

definition release_swabber_socket :: "banjax_obj \<Rightarrow> socket option \<times> banjax_obj" where
  "release_swabber_socket bx = (let (s, st) = release_socket (bx_state bx) in (s, bx\<lparr>bx_state := st\<rparr>))"

definition release_botsniffer_socket :: "banjax_obj \<Rightarrow> socket option \<times> banjax_obj" where
  "release_botsniffer_socket bx =
     (if \<not> bot_sniffer (bx_filters bx) then (None, bx)
      else let (s, st) = BotSniffer_release_socket (bx_state bx) in (s, bx\<lparr>bx_state := st\<rparr>))"

definition release_kafka_consumer :: "banjax_obj \<Rightarrow> kafka_consumer option \<times> banjax_obj" where
  "release_kafka_consumer bx = (bx_consumer bx, bx\<lparr>bx_consumer := None\<rparr>)"

section \<open>The plugin\<close>

record banjax_plugin =
  config_dir :: string
  current_state :: banjax_obj
  restart_time :: int
  reload_time :: int

text \<open>\<open>reload_config\<close>, with the new object, the address of which is \<open>b\<close>, and the replaced one, which
  running transactions keep.\<close>

definition reload_config :: "yaml_lib \<Rightarrow> loader \<Rightarrow> libs \<Rightarrow> kafka_lib \<Rightarrow> nat \<Rightarrow> string \<Rightarrow> nat \<Rightarrow> banjax_plugin \<Rightarrow>
    (banjax_plugin \<times> banjax_obj) result option" where
  "reload_config Y load_file E K fuel host b g =
     (let (now, st) = time_now (bx_state (current_state g));
          (swab_s, old1) = release_swabber_socket ((current_state g)\<lparr>bx_state := st\<rparr>);
          (snif_s, old2) = release_botsniffer_socket old1;
          (consumer, old3) = release_kafka_consumer old2 in
      obind (new_banjax Y load_file E K fuel host (config_dir g) b swab_s snif_s consumer (bx_state old3)) (\<lambda>new.
      Some (Inr (g\<lparr>reload_time := now, current_state := new\<rparr>, old3))))"

text \<open>The status report. \<open>TSMgmtIntGet\<close> and \<open>TSMgmtFloatGet\<close> are the parameters \<open>mgmt_int\<close> and
  \<open>mgmt_float\<close>. A metric with the name of another member replaces it.\<close>

fun add_metrics :: "(string \<Rightarrow> int option) \<Rightarrow> (string \<Rightarrow> 32 word option) \<Rightarrow> string list \<Rightarrow> (string \<times> json) list \<Rightarrow> (string \<times> json) list" where
  "add_metrics mgmt_int mgmt_float [] message = message"
| "add_metrics mgmt_int mgmt_float (stat_name # names) message =
     add_metrics mgmt_int mgmt_float names
       (case mgmt_int (cstr stat_name) of
          Some v \<Rightarrow> AList.update stat_name (JNumber v) message
        | None \<Rightarrow> (case mgmt_float (cstr stat_name) of
            Some x \<Rightarrow> AList.update stat_name (JFloat x) message
          | None \<Rightarrow> message))"

definition Banjax_report_status :: "yaml_lib \<Rightarrow> (string \<Rightarrow> int option) \<Rightarrow> (string \<Rightarrow> 32 word option) \<Rightarrow> int \<Rightarrow> int \<Rightarrow> banjax_obj \<Rightarrow>
    (int \<times> banjax_obj) result" where
  "Banjax_report_status Y mgmt_int mgmt_float restarted reloaded bx =
     (if bx_producer bx = None then Inr (- 1, bx)
      else
        let (now, st) = time_now (bx_state bx) in
        case challenger_filter (bx_filters bx) of
          None \<Rightarrow> Inl NullDereference
        | Some _ \<Rightarrow>
            let message =
              [(''id'', JString (host_name st)), (''name'', JString ''status''),
               (''num_of_host_challenges'', JNumber (int (dynamic_host_challenges_size st))),
               (''num_of_ip_challenges'', JNumber (int (dynamic_ip_challenges_size st))),
               (''timestamp'', JNumber now), (''restart_time'', JNumber restarted), (''reload_time'', JNumber reloaded),
               (''swabber_ip_db_size'', JNumber (int (ip_db_size (swabber_ip_db st)))),
               (''challenger_ip_db_size'', JNumber (int (ip_db_size (challenger_ip_db st)))),
               (''regex_manager_ip_db_size'', JNumber (int (ip_db_size (regex_manager_ip_db st))))] in
            rbind (ysub (kafka_conf (bx_config bx)) ''ats_metrics_to_report'') (\<lambda>n.
            rbind (if IsDefined n then as_vector (as_string Y) n else Inr []) (\<lambda>metrics.
            let (r, st1) = send_message (JObject (add_metrics mgmt_int mgmt_float metrics message)) st in
            Inr (r, bx\<lparr>bx_state := st1\<rparr>))))"

definition plugin_report_status :: "yaml_lib \<Rightarrow> (string \<Rightarrow> int option) \<Rightarrow> (string \<Rightarrow> 32 word option) \<Rightarrow> banjax_plugin \<Rightarrow> (int \<times> banjax_plugin) result" where
  "plugin_report_status Y mgmt_int mgmt_float g =
     rbind (Banjax_report_status Y mgmt_int mgmt_float (restart_time g) (reload_time g) (current_state g)) (\<lambda>(r, bx).
     Inr (r, g\<lparr>current_state := bx\<rparr>))"

definition Banjax_remove_expired_challenges :: "banjax_obj \<Rightarrow> (int \<times> banjax_obj) result" where
  "Banjax_remove_expired_challenges bx =
     (case challenger_filter (bx_filters bx) of
        None \<Rightarrow> Inr (- 1, bx)
      | Some C \<Rightarrow> rbind (remove_expired_challenges C (bx_state bx)) (\<lambda>(r, st). Inr (r, bx\<lparr>bx_state := st\<rparr>)))"

definition plugin_remove_expired_challenges :: "banjax_plugin \<Rightarrow> (int \<times> banjax_plugin) result" where
  "plugin_remove_expired_challenges g =
     rbind (Banjax_remove_expired_challenges (current_state g)) (\<lambda>(r, bx). Inr (r, g\<lparr>current_state := bx\<rparr>))"

text \<open>The start of the plugin. Both times are asked for after the construction.\<close>

definition new_banjax_plugin :: "yaml_lib \<Rightarrow> loader \<Rightarrow> libs \<Rightarrow> kafka_lib \<Rightarrow> nat \<Rightarrow> string \<Rightarrow> string \<Rightarrow> sniffer_state \<Rightarrow> banjax_plugin result option" where
  "new_banjax_plugin Y load_file E K fuel host dir st =
     obind (new_banjax Y load_file E K fuel host dir 0 None None None st) (\<lambda>bx.
     let (restarted, st1) = time_now (bx_state bx); (reloaded, st2) = time_now st1 in
     Some (Inr \<lparr>config_dir = dir, current_state = bx\<lparr>bx_state := st2\<rparr>, restart_time = restarted, reload_time = reloaded\<rparr>))"

text \<open>The start of a transaction: the hooks it is called for, its data with the current Banjax, and
  the event passed back.\<close>

definition transaction_hooks :: "ts_hook list" where
  "transaction_hooks = [READ_REQUEST_HDR, SEND_REQUEST_HDR, SEND_RESPONSE_HDR, TXN_CLOSE]"

definition handle_transaction_start :: "bool \<Rightarrow> banjax_plugin \<Rightarrow> txn \<Rightarrow> bool \<Rightarrow> bool \<Rightarrow> (banjax_obj \<times> transaction_data) option" where
  "handle_transaction_start is_txn_start g t store_ok conf_ok =
     (if \<not> is_txn_start then None
      else Some (current_state g, reenable HTTP_CONTINUE (new_transaction_data t store_ok conf_ok)))"

section \<open>Properties of the construction\<close>

lemma filter_id_of_inject: "filter_id_of a = Some f \<Longrightarrow> filter_id_of b = Some f \<Longrightarrow> a = b"
  by (auto simp: filter_id_of_def split: if_splits)

text \<open>Whether the object a filter's identifier stands for has been made.\<close>

definition filter_made :: "filters \<Rightarrow> FilterIDType \<Rightarrow> bool" where
  "filter_made B f =
     (case f of
        REGEX_BANNER_FILTER_ID \<Rightarrow> regex_manager B \<noteq> None
      | CHALLENGER_FILTER_ID \<Rightarrow> challenger_filter B \<noteq> None
      | BOT_SNIFFER_FILTER_ID \<Rightarrow> bot_sniffer B
      | WHITE_LISTER_FILTER_ID \<Rightarrow> white_lister B
      | DENIALATOR_FILTER_ID \<Rightarrow> denialator_filter B \<noteq> None)"

lemma make_filter_made:
  "make_filter Y E dir s f conf (B, st) = Inr (B', st') \<Longrightarrow>
   filter_made B' g = (g = f \<or> filter_made B g) \<and> task_queues B' = task_queues B \<and>
   all_filters_requested_part B' = all_filters_requested_part B \<and> all_filters_response_part B' = all_filters_response_part B"
  by (cases f; cases g) (auto simp: make_filter_def filter_made_def rbind_eq_Inr_iff)

lemma yaml_abort_Inr_iff [simp]: "yaml_abort r = Inr v \<longleftrightarrow> r = Inr v"
  by (auto simp: yaml_abort_def split: sum.splits)

lemma enqueue_sel:
  "filter_made (enqueue f B) g = filter_made B g"
  "task_queues (enqueue f B) q = task_queues B q @ (if queued_tasks f q then [f] else [])"
  "all_filters_requested_part (enqueue f B) = all_filters_requested_part B OR requested_info f"
  "all_filters_response_part (enqueue f B) = all_filters_response_part B OR filter_response_info f"
  by (auto simp: enqueue_def filter_made_def all_queues_def queued_tasks_def split: FilterIDType.splits)

lemma build_filters_ConsE:
  assumes "build_filters Y E dir s confs (p # pm) (B, st) = Inr (B', st')"
  obtains f B1 st1 where "filter_id_of (snd p) = Some f"
    "make_filter Y E dir s f (case map_of confs (snd p) of Some c \<Rightarrow> c | None \<Rightarrow> new_filter_config) (B, st) = Inr (B1, st1)"
    "build_filters Y E dir s confs pm (enqueue f B1, st1) = Inr (B', st')"
  using assms by (cases p) (auto simp: rbind_eq_Inr_iff split: option.splits)

lemma build_filters_result:
  assumes "build_filters Y E dir s confs pm (B, st) = Inr (B', st')"
  shows "\<exists>fs. map (\<lambda>p. filter_id_of (snd p)) pm = map Some fs \<and>
    (\<forall>q. task_queues B' q = task_queues B q @ filter (\<lambda>f. queued_tasks f q) fs) \<and>
    (\<forall>g. filter_made B' g \<longleftrightarrow> filter_made B g \<or> g \<in> set fs) \<and>
    all_filters_requested_part B' = fold (\<lambda>f m. m OR requested_info f) fs (all_filters_requested_part B) \<and>
    all_filters_response_part B' = fold (\<lambda>f m. m OR filter_response_info f) fs (all_filters_response_part B)"
  using assms
proof (induction pm arbitrary: B st)
  case (Cons p pm)
  from Cons.prems obtain f B1 st1 where f: "filter_id_of (snd p) = Some f"
    and mk: "make_filter Y E dir s f (case map_of confs (snd p) of Some c \<Rightarrow> c | None \<Rightarrow> new_filter_config) (B, st) = Inr (B1, st1)"
    and rest: "build_filters Y E dir s confs pm (enqueue f B1, st1) = Inr (B', st')"
    by (rule build_filters_ConsE)
  from Cons.IH [OF rest] obtain fs where fs: "map (\<lambda>p. filter_id_of (snd p)) pm = map Some fs"
    "\<And>q. task_queues B' q = task_queues (enqueue f B1) q @ filter (\<lambda>f. queued_tasks f q) fs"
    "\<And>g. filter_made B' g \<longleftrightarrow> filter_made (enqueue f B1) g \<or> g \<in> set fs"
    "all_filters_requested_part B' = fold (\<lambda>f m. m OR requested_info f) fs (all_filters_requested_part (enqueue f B1))"
    "all_filters_response_part B' = fold (\<lambda>f m. m OR filter_response_info f) fs (all_filters_response_part (enqueue f B1))"
    by blast
  show ?case
    using fs f make_filter_made [OF mk] by (intro exI [of _ "f # fs"]) (auto simp: enqueue_sel)
qed auto

text \<open>What the construction of a filter leaves alone: the three tables and the dynamic challenges, and
  the ban interface. The rules of the rate limiter are a set it accepts.\<close>

definition tables :: "'s sniffer_state_scheme \<Rightarrow> int ip_table \<times> 64 word ip_table \<times> regex_ip_state list ip_table \<times>
    (string \<times> host_challenge_spec) list \<times> (string \<times> host_challenge_spec) list" where
  "tables st = (swabber_ip_db st, challenger_ip_db st, regex_manager_ip_db st, host_to_challenge_dynamic st, ip_to_challenge_dynamic st)"

lemma tables_update [simp]:
  "tables (st\<lparr>tick := n\<rparr>) = tables st" "tables (st\<lparr>sniffer_socket := s\<rparr>) = tables st" "tables (st\<lparr>botbanger_server := v\<rparr>) = tables st"
  "tables (st\<lparr>botbanger_port := i\<rparr>) = tables st" "tables (st\<lparr>encryption_key := v\<rparr>) = tables st"
  "tables (st\<lparr>sniffer_endpoint := v\<rparr>) = tables st" "tables (st\<lparr>kafka_producer := a\<rparr>) = tables st" "tables (st\<lparr>socket := s\<rparr>) = tables st"
  by (simp_all add: tables_def)

lemma load_challenges_world: "load_challenges Y L dir chs m w = Inr (m', w') \<Longrightarrow> \<exists>n. w' = w\<lparr>tick := n\<rparr>"
proof (induction chs arbitrary: m w)
  case Nil
  then show ?case by (auto intro: exI [of _ "tick w"])
next
  case (Cons ch chs)
  from Cons.prems obtain spec w1 m1 where "parse_single_challenge Y L dir ch w = Inr (spec, w1)"
    "load_challenges Y L dir chs m1 w1 = Inr (m', w')" by (auto simp: rbind_eq_Inr_iff)
  with Cons.IH [of m1 w1] parse_single_challenge_time [of Y L dir ch w spec w1] show ?case by auto
qed

lemma Challenger_load_config_world:
  "Challenger_load_config Y L dir wl b cfg w = Inr (C, w') \<Longrightarrow> \<exists>n. w' = w\<lparr>tick := n\<rparr>"
  by (auto simp: Challenger_load_config_def rbind_eq_Inr_iff dest!: load_challenges_world)

lemma bind_socket_frame [simp]:
  "tables (snd (snd (bind_socket e s st))) = tables st" "socket (snd (snd (bind_socket e s st))) = socket st"
  "local_endpoint (snd (snd (bind_socket e s st))) = local_endpoint st"
  using bind_socket_world [of e s st "fst (bind_socket e s st)" "fst (snd (bind_socket e s st))" "snd (snd (bind_socket e s st))"]
  by auto

lemma new_bot_sniffer_frame:
  assumes "new_bot_sniffer Y L cfg s st = Inr st'"
  shows "tables st' = tables st \<and> socket st' = socket st \<and> local_endpoint st' = local_endpoint st"
proof -
  let ?st = "st\<lparr>sniffer_socket := s, botbanger_server := ''*''\<rparr>"
  from assms obtain port key where f: "field cfg ''botbanger_port'' (as_uint Y) = Inr port" "field cfg ''key'' (as_string Y) = Inr key"
    unfolding new_bot_sniffer_def BotSniffer_load_config_def rbind_eq_Inr_iff by blast
  from assms show ?thesis
    unfolding new_bot_sniffer_def BotSniffer_load_config_def f rbind_simps Let_def case_prod_beta
    by (auto split: if_split_asm)
qed

definition rules_accepted :: "filters \<Rightarrow> bool" where
  "rules_accepted B \<longleftrightarrow> (\<forall>rules. regex_manager B = Some rules \<longrightarrow> rules_ok rules)"

lemma make_filter_frame:
  "make_filter Y E dir s f conf (B, st) = Inr (B', st') \<Longrightarrow>
   tables st' = tables st \<and> socket st' = socket st \<and> local_endpoint st' = local_endpoint st \<and> (rules_accepted B \<longrightarrow> rules_accepted B')"
  by (cases f) (auto simp: make_filter_def rbind_eq_Inr_iff rules_accepted_def
      dest!: Challenger_load_config_world new_bot_sniffer_frame load_config_rules_ok)

lemma build_filters_frame:
  "build_filters Y E dir s confs pm (B, st) = Inr (B', st') \<Longrightarrow>
   tables st' = tables st \<and> socket st' = socket st \<and> local_endpoint st' = local_endpoint st \<and> (rules_accepted B \<longrightarrow> rules_accepted B')"
proof (induction pm arbitrary: B st)
  case (Cons p pm)
  from Cons.prems obtain f B1 st1 where "filter_id_of (snd p) = Some f"
    and mk: "make_filter Y E dir s f (case map_of confs (snd p) of Some c \<Rightarrow> c | None \<Rightarrow> new_filter_config) (B, st) = Inr (B1, st1)"
    and rest: "build_filters Y E dir s confs pm (enqueue f B1, st1) = Inr (B', st')"
    by (rule build_filters_ConsE)
  have "rules_accepted (enqueue f B1) = rules_accepted B1" by (simp add: rules_accepted_def enqueue_def)
  then show ?case using Cons.IH [OF rest] make_filter_frame [OF mk] by auto
qed auto

text \<open>Everything a successful construction has gone through.\<close>

lemma new_banjax_built:
  assumes "new_banjax Y load E K fuel host dir b s1 s2 kc st = Some (Inr bx)"
  obtains c pm st1 B st2 kc' producer where "config_ok c" "order_filters Y c = Inr pm"
    "Swabber_load_config Y (swabber_conf c) (new_swabber s1 (empty_tables host st)) = Inr st1"
    "build_filters Y E dir s2 (filter_config_map c) pm (no_filters, st1) = Inr (B, st2)"
    "setup_kafka Y K b (kafka_conf c) kc = Inr (kc', producer)"
    "bx_config bx = c" "bx_priority_map bx = pm" "bx_filters bx = B" "bx_consumer bx = kc'"
    "bx_state bx = st2\<lparr>kafka_producer := producer \<noteq> None\<rparr>"
  using assms
  by (auto simp: new_banjax_def read_configuration_def obind_eq_Some_Inr_iff rbind_eq_Inr_iff
      dest!: config_ok_of_files split: option.splits)

lemma fold_or_covers:
  fixes m k :: "64 word"
  shows "fold (\<lambda>f m. m OR g f) fs m AND k \<noteq> 0 \<longleftrightarrow> m AND k \<noteq> 0 \<or> (\<exists>f\<in>set fs. g f AND k \<noteq> 0)"
  by (induction fs arbitrary: m) (simp_all add: marked_or, blast)

lemma map_Some_inj:
  "map g xs = map Some fs \<Longrightarrow> distinct xs \<Longrightarrow> (\<And>x y f. g x = Some f \<Longrightarrow> g y = Some f \<Longrightarrow> x = y) \<Longrightarrow> distinct fs"
proof (induction xs arbitrary: fs)
  case (Cons x xs)
  from Cons.prems(1) obtain f fs' where f: "fs = f # fs'" "g x = Some f" and m: "map g xs = map Some fs'" by (cases fs) auto
  from m have "g ` set xs = Some ` set fs'" by (metis list.set_map)
  then have "f \<notin> set fs'" using Cons.prems(2) Cons.prems(3) [OF f(2)] by (metis distinct.simps(2) imageE image_eqI)
  moreover have "distinct fs'" by (rule Cons.IH [OF m]) (use Cons.prems in auto)
  ultimately show ?case using f by simp
qed simp

lemma no_filters_sel [simp]:
  "filter_made no_filters f = False" "task_queues no_filters q = []" "all_filters_requested_part no_filters = 0"
  "all_filters_response_part no_filters = 0" "rules_accepted no_filters"
  by (simp_all add: no_filters_def filter_made_def rules_accepted_def split: FilterIDType.split)

text \<open>C14: Banjax is built as configured. Whenever the construction succeeds, the filters in the order
  of their priorities are all different and every one of them has been made, and no other; the queue of
  a request holds all of them but the bot sniffer, in this order, the queue of the close holds the bot
  sniffer if it is configured, and all other queues are empty; the parts to retrieve from request and
  response are exactly those some filter asks for. So no queue ever leads to a filter that does not
  exist.\<close>

theorem banjax_is_built_as_configured:
  assumes "new_banjax Y load_file E K fuel host dir b s1 s2 kc st = Some (Inr bx)"
  shows "\<exists>fs. map (\<lambda>p. filter_id_of (snd p)) (bx_priority_map bx) = map Some fs \<and>
    sorted_wrt (<) (map fst (bx_priority_map bx)) \<and> distinct fs \<and>
    (\<forall>f. filter_made (bx_filters bx) f \<longleftrightarrow> f \<in> set fs) \<and>
    task_queues (bx_filters bx) HTTP_REQUEST = filter (\<lambda>f. f \<noteq> BOT_SNIFFER_FILTER_ID) fs \<and>
    task_queues (bx_filters bx) HTTP_CLOSE = filter (\<lambda>f. f = BOT_SNIFFER_FILTER_ID) fs \<and>
    (\<forall>q. q \<notin> {HTTP_REQUEST, HTTP_CLOSE} \<longrightarrow> task_queues (bx_filters bx) q = []) \<and>
    (\<forall>k. all_filters_requested_part (bx_filters bx) AND k \<noteq> 0 \<longleftrightarrow> (\<exists>f\<in>set fs. requested_info f AND k \<noteq> 0)) \<and>
    (\<forall>k. all_filters_response_part (bx_filters bx) AND k \<noteq> 0 \<longleftrightarrow> (\<exists>f\<in>set fs. filter_response_info f AND k \<noteq> 0))"
proof -
  from assms obtain c pm st1 B st2 kc' producer where
    c: "config_ok c" "order_filters Y c = Inr pm" and
    "Swabber_load_config Y (swabber_conf c) (new_swabber s1 (empty_tables host st)) = Inr st1" and
    b: "build_filters Y E dir s2 (filter_config_map c) pm (no_filters, st1) = Inr (B, st2)" and
    "setup_kafka Y K b (kafka_conf c) kc = Inr (kc', producer)" and
    "bx_config bx = c" and d: "bx_priority_map bx = pm" "bx_filters bx = B" and
    "bx_consumer bx = kc'" "bx_state bx = st2\<lparr>kafka_producer := producer \<noteq> None\<rparr>"
    by (rule new_banjax_built)
  from build_filters_result [OF b] obtain fs where fs: "map (\<lambda>p. filter_id_of (snd p)) pm = map Some fs"
    "\<And>q. task_queues B q = filter (\<lambda>f. queued_tasks f q) fs" "\<And>g. filter_made B g \<longleftrightarrow> g \<in> set fs"
    "all_filters_requested_part B = fold (\<lambda>f m. m OR requested_info f) fs 0"
    "all_filters_response_part B = fold (\<lambda>f m. m OR filter_response_info f) fs 0"
    unfolding no_filters_sel append.simps by blast
  have o: "sorted_wrt (<) (map fst pm)" "distinct (map snd pm)" using order_filters_sorted [OF c(1,2)] by simp_all
  have "distinct fs"
    by (rule map_Some_inj [of filter_id_of "map snd pm"]) (use fs(1) o(2) filter_id_of_inject in \<open>auto simp: comp_def\<close>)
  moreover have "filter (\<lambda>f. queued_tasks f HTTP_REQUEST) fs = filter (\<lambda>f. f \<noteq> BOT_SNIFFER_FILTER_ID) fs"
    "filter (\<lambda>f. queued_tasks f HTTP_CLOSE) fs = filter (\<lambda>f. f = BOT_SNIFFER_FILTER_ID) fs"
    by (auto simp: queued_tasks_def intro!: filter_cong)
  moreover have "filter (\<lambda>f. queued_tasks f q) fs = []" if "q \<notin> {HTTP_REQUEST, HTTP_CLOSE}" for q
    using that by (auto simp: queued_tasks_def filter_empty_conv)
  ultimately show ?thesis
    using fs o by (intro exI [of _ fs]) (simp add: d fold_or_covers)
qed

section \<open>Requests\<close>

definition rule_count :: "filters \<Rightarrow> nat" where
  "rule_count B = (case regex_manager B of Some rules \<Rightarrow> length rules | None \<Rightarrow> 0)"

lemma retrieve_keeps_header [simp]:
  "request_header (retrieve_ip m) = request_header m" "request_header (retrieve_url m) = request_header m"
  by (simp_all add: retrieve_ip_def retrieve_url_def put_part_def insert_part_def split: option.split)

lemma retrieve_parts_returns:
  assumes "req_get (trans_txnp m) \<or> request_header m"
  shows "\<exists>m'. retrieve_parts r m = Inr m'"
proof -
  have h: "\<exists>m0. retrieve_request_header m = Inr m0 \<and> request_header m0" if "req_get (trans_txnp m) \<or> request_header m" for m
    using that by (auto simp: retrieve_request_header_def)
  have plain: "\<exists>m'. retrieve_parts (HOST OR URL) m = Inr m'" if "req_get (trans_txnp m) \<or> request_header m" for m
  proof -
    from h [OF that] obtain m0 where "retrieve_request_header m = Inr m0" by blast
    moreover have "(NOT (valid_parts m) AND (HOST OR URL)) AND URL_WITH_HOST = 0"
      by (rule ccontr, drule and_not_zero) (simp add: part_numbers)
    ultimately show ?thesis by (subst retrieve_parts.simps) (simp add: Let_def)
  qed
  from h [OF assms] obtain m0 where m0: "retrieve_request_header m = Inr m0" "request_header m0" by blast
  show ?thesis
    using plain m0 by (subst retrieve_parts.simps) (auto simp: Let_def rbind_eq_Inr_iff split: if_split)
qed

lemma ip_state_regex_db: "regex_manager_ip_db (snd (get_ip_state d ip db st)) = regex_manager_ip_db st"
  by (simp add: get_ip_state_def world_simps split: option.split)

lemma filter_runs:
  assumes "f \<notin> {CHALLENGER_FILTER_ID, BOT_SNIFFER_FILTER_ID}" and "filter_made B f" and "rules_accepted B"
    and "regex_db_ok (rule_count B) (regex_manager_ip_db st)"
    and "\<forall>k\<in>{IP, HOST}. requested_info f AND k \<noteq> 0 \<longrightarrow> parts k \<noteq> None"
  shows "\<exists>resp parts' st'. filter_on_http_request E B f parts st = Inr (resp, parts', st') \<and>
    regex_db_ok (rule_count B) (regex_manager_ip_db st')"
proof (cases f)
  case REGEX_BANNER_FILTER_ID
  with assms(2) obtain rules where r: "regex_manager B = Some rules" by (auto simp: filter_made_def)
  with assms(3,4) on_http_request_ok [of rules st "lib_full_match E" parts] show ?thesis
    by (auto simp: REGEX_BANNER_FILTER_ID filter_on_http_request_def rules_accepted_def rule_count_def)
next
  case WHITE_LISTER_FILTER_ID
  with assms(5) obtain ip host where "parts IP = Some ip" "parts HOST = Some host"
    by (auto simp: requested_info_def WhiteLister_requested_info_def part_numbers)
  with assms(2,4) show ?thesis
    by (auto simp: WHITE_LISTER_FILTER_ID filter_on_http_request_def filter_made_def WhiteLister_on_http_request_def part_at_def
        split: option.split)
next
  case DENIALATOR_FILTER_ID
  with assms(2,5) obtain d ip where "denialator_filter B = Some d" "parts IP = Some ip"
    by (auto simp: filter_made_def requested_info_def Denialator_requested_info_def part_numbers)
  with assms(4) show ?thesis
    by (simp add: DENIALATOR_FILTER_ID filter_on_http_request_def Denialator_on_http_request_def part_at_def case_prod_beta Let_def
        gettimeofday_def ip_state_regex_db split: option.split)
qed (use assms(1) in auto)

lemma tables_swabber_update [simp]:
  "tables (st\<lparr>local_endpoint := v\<rparr>) = tables st" "tables (st\<lparr>grace_period := i\<rparr>) = tables st"
  "tables (st\<lparr>swabber_port := v\<rparr>) = tables st" "tables (st\<lparr>swabber_server := v\<rparr>) = tables st"
  by (simp_all add: tables_def)

text \<open>Loading the ban interface's configuration keeps the tables, and keeps a socket that is already
  bound to the configured endpoint.\<close>

lemma Swabber_load_config_frame:
  assumes "Swabber_load_config Y conf st = Inr st'"
  shows "tables st' = tables st \<and> (\<forall>s. socket st = Some s \<longrightarrow> local_endpoint_s s = local_endpoint st' \<longrightarrow> socket st' = Some s)"
proof -
  from assms obtain grace port server where
    r: "read_swabber_nodes Y (config_node_list conf) (DEFAULT_GRACE_PERIOD, DEFAULT_PORT, DEFAULT_SERVER) = Inr (grace, port, server)"
    by (auto simp: Swabber_load_config_def rbind_eq_Inr_iff)
  let ?e = "''tcp://'' @ server @ '':'' @ port"
  let ?st1 = "st\<lparr>grace_period := grace, swabber_port := port, swabber_server := server, local_endpoint := ?e\<rparr>"
  from assms r obtain s where s: "socket st = Some s" and
    st': "st' = snd (snd (bind_socket ?e (if local_endpoint_s s \<noteq> ?e then new_socket else s) ?st1))\<lparr>socket :=
      Some (fst (snd (bind_socket ?e (if local_endpoint_s s \<noteq> ?e then new_socket else s) ?st1)))\<rparr>"
    by (auto simp: Swabber_load_config_def Let_def case_prod_beta split: option.splits)
  have "tables st' = tables st" unfolding st' by simp
  moreover have "local_endpoint st' = ?e" unfolding st' by simp
  moreover have "socket st' = Some s" if "local_endpoint_s s = ?e" unfolding st' using that by (simp add: bind_socket_def)
  ultimately show ?thesis using s by simp
qed

lemma new_banjax_state:
  assumes "new_banjax Y load E K fuel host dir b s1 s2 kc st = Some (Inr bx)"
  shows "tables (bx_state bx) = ([], [], [], [], []) \<and> rules_accepted (bx_filters bx) \<and>
    (\<forall>s. s1 = Some s \<longrightarrow> local_endpoint_s s = local_endpoint (bx_state bx) \<longrightarrow> socket (bx_state bx) = Some s)"
proof -
  let ?st0 = "new_swabber s1 (empty_tables host st)"
  from assms obtain c pm st1 B st2 kc' producer where
    "config_ok c" "order_filters Y c = Inr pm" and
    sw: "Swabber_load_config Y (swabber_conf c) ?st0 = Inr st1" and
    b: "build_filters Y E dir s2 (filter_config_map c) pm (no_filters, st1) = Inr (B, st2)" and
    "setup_kafka Y K b (kafka_conf c) kc = Inr (kc', producer)" and
    "bx_config bx = c" "bx_priority_map bx = pm" and d: "bx_filters bx = B" and
    "bx_consumer bx = kc'" and st2: "bx_state bx = st2\<lparr>kafka_producer := producer \<noteq> None\<rparr>"
    by (rule new_banjax_built)
  have "tables ?st0 = ([], [], [], [], [])" "socket ?st0 = Some (case s1 of Some x \<Rightarrow> x | None \<Rightarrow> new_socket)"
    by (simp_all add: tables_def new_swabber_def empty_tables_def)
  with Swabber_load_config_frame [OF sw] build_filters_frame [OF b] d st2 show ?thesis by auto
qed

lemma new_banjax_consumer:
  assumes "new_banjax Y load E K fuel host dir b s1 s2 kc st = Some (Inr bx)" and "bx_consumer bx = Some kc'"
  shows "kc_banjax kc' = b \<and> stored_config kc' = kafka_conf (bx_config bx)"
proof -
  from assms(1) obtain c pm st1 B st2 kc1 producer where
    "config_ok c" "order_filters Y c = Inr pm" and
    "Swabber_load_config Y (swabber_conf c) (new_swabber s1 (empty_tables host st)) = Inr st1" and
    "build_filters Y E dir s2 (filter_config_map c) pm (no_filters, st1) = Inr (B, st2)" and
    k: "setup_kafka Y K b (kafka_conf c) kc = Inr (kc1, producer)" and
    c: "bx_config bx = c" and "bx_priority_map bx = pm" and "bx_filters bx = B" and
    b: "bx_consumer bx = kc1" and "bx_state bx = st2\<lparr>kafka_producer := producer \<noteq> None\<rparr>"
    by (rule new_banjax_built)
  from k b c assms(2) show ?thesis
    by (auto simp: setup_kafka_def rbind_eq_Inr_iff new_kafka_consumer_def KafkaConsumer_reload_config_def Let_def
        split: if_splits option.splits)
qed

lemma ban_without_socket: "socket st = None \<Longrightarrow> zmq_sent (ban ip reason st) = zmq_sent st"
  by (simp add: ban_def send_ban_def flag_time_def get_ip_state_def set_ip_state_def world_simps Let_def case_prod_beta
      split: option.split)

text \<open>C16: What a reload hands over and what it loses. After a reload the new Banjax starts with empty
  tables: no address is flagged, no failures are counted, no rate is remembered and no dynamic
  challenge is in force, whatever the old one held. Its ban interface keeps the old socket if the
  endpoint is unchanged. Its consumer, if there is one, reports to it and works from its configuration,
  and the old Banjax has none. The old Banjax, which transactions that are under way still use, keeps
  its tables but has given its socket away: its bans are no longer sent.\<close>

theorem reload_hands_over_sockets_not_tables:
  assumes "reload_config Y load_file E K fuel host b g = Some (Inr (g', old))"
  shows "tables (bx_state (current_state g')) = ([], [], [], [], []) \<and>
    (\<forall>s. socket (bx_state (current_state g)) = Some s \<longrightarrow>
       local_endpoint_s s = local_endpoint (bx_state (current_state g')) \<longrightarrow> socket (bx_state (current_state g')) = Some s) \<and>
    (\<forall>kc. bx_consumer (current_state g') = Some kc \<longrightarrow>
       kc_banjax kc = b \<and> stored_config kc = kafka_conf (bx_config (current_state g'))) \<and>
    bx_consumer old = None \<and> tables (bx_state old) = tables (bx_state (current_state g)) \<and>
    (\<forall>ip reason. zmq_sent (ban ip reason (bx_state old)) = zmq_sent (bx_state old))"
proof -
  let ?cur = "current_state g"
  let ?old1 = "?cur\<lparr>bx_state := snd (time_now (bx_state ?cur))\<lparr>socket := None\<rparr>\<rparr>"
  let ?old2 = "snd (release_botsniffer_socket ?old1)"
  have swab: "release_swabber_socket (?cur\<lparr>bx_state := snd (time_now (bx_state ?cur))\<rparr>) = (socket (bx_state ?cur), ?old1)"
    by (simp add: release_swabber_socket_def release_socket_def time_now_def)
  from assms obtain new where
    n: "new_banjax Y load_file E K fuel host (config_dir g) b (socket (bx_state ?cur)) (fst (release_botsniffer_socket ?old1))
      (bx_consumer ?old2) (bx_state (?old2\<lparr>bx_consumer := None\<rparr>)) = Some (Inr new)" and
    g': "current_state g' = new" "old = ?old2\<lparr>bx_consumer := None\<rparr>"
    by (auto simp: reload_config_def swab release_kafka_consumer_def case_prod_beta obind_eq_Some_Inr_iff)
  have "tables (bx_state ?old2) = tables (bx_state ?cur) \<and> socket (bx_state ?old2) = None"
    by (simp add: release_botsniffer_socket_def BotSniffer_release_socket_def time_now_def)
  with new_banjax_state [OF n] new_banjax_consumer [OF n] g' show ?thesis by (auto intro: ban_without_socket)
qed

lemma parts_of_fresh_muncher:
  assumes "retrieve_parts r (new_muncher t) = Inr m" and "k \<in> set request_parts" and "r AND k \<noteq> 0"
    and "k \<noteq> URL_WITH_HOST \<or> (\<forall>h. url_host_set t h)"
  shows "\<exists>v. cur_trans_parts m k = Some v"
proof -
  have v: "valid_parts (new_muncher t) = 0" "trans_txnp (new_muncher t) = t"
    by (simp_all add: new_muncher_def update_validity_status_def put_part_def)
  have "k \<in> dom (cur_trans_parts m)"
    using retrieve_parts_grows [OF assms(1) new_muncher_inv] assms(2-4)
    by (auto simp: grows_def fetched_def v host_settable_def split: if_splits)
  then show ?thesis by auto
qed

lemma banjax_queues:
  assumes "new_banjax Y load E K fuel host dir b s1 s2 kc st = Some (Inr bx)"
    and "f \<in> set (task_queues (bx_filters bx) HTTP_REQUEST)"
  shows "f \<noteq> BOT_SNIFFER_FILTER_ID \<and> filter_made (bx_filters bx) f \<and>
    (requested_info f AND k \<noteq> 0 \<longrightarrow> all_filters_requested_part (bx_filters bx) AND k \<noteq> 0)"
proof -
  from assms(1) obtain c pm st1 B st2 kc1 producer where
    "config_ok c" "order_filters Y c = Inr pm" and
    "Swabber_load_config Y (swabber_conf c) (new_swabber s1 (empty_tables host st)) = Inr st1" and
    b: "build_filters Y E dir s2 (filter_config_map c) pm (no_filters, st1) = Inr (B, st2)" and
    "setup_kafka Y K b (kafka_conf c) kc = Inr (kc1, producer)" and
    "bx_config bx = c" "bx_priority_map bx = pm" and d: "bx_filters bx = B" and
    "bx_consumer bx = kc1" "bx_state bx = st2\<lparr>kafka_producer := producer \<noteq> None\<rparr>"
    by (rule new_banjax_built)
  from build_filters_result [OF b] obtain fs where
    "task_queues B HTTP_REQUEST = filter (\<lambda>f. queued_tasks f HTTP_REQUEST) fs" "filter_made B f \<longleftrightarrow> f \<in> set fs"
    "all_filters_requested_part B = fold (\<lambda>f m. m OR requested_info f) fs 0"
    unfolding no_filters_sel append.simps by blast
  with assms(2) d fold_or_covers [of requested_info fs 0 k] show ?thesis
    by (auto simp: queued_tasks_def split: if_splits)
qed

section \<open>Examples\<close>

text \<open>A configuration with a denialator and nothing else.\<close>

definition sample_banjax_loader :: loader where
  "sample_banjax_loader path = (if path = ''d/banjax.conf'' then Some (YMap [(''denialator'', YMap [])]) else None)"

lemma sample_new_banjax:
  "\<exists>bx. new_banjax sample_yaml sample_banjax_loader sample_libs sample_kafka 1 ''edge'' ''d'' b s1 s2 kc st = Some (Inr bx) \<and>
     task_queues (bx_filters bx) HTTP_REQUEST = [DENIALATOR_FILTER_ID] \<and> challenger_filter (bx_filters bx) = None"
proof -
  let ?c = "new_config\<lparr>filter_config_map := [(''denialator'', push_node (YMap []) new_filter_config)]\<rparr>"
  have c: "process_config sample_yaml sample_banjax_loader ''d'' 1 (YMap [(''denialator'', YMap [])]) new_config = Some (Inr ?c)"
    by (simp add: process_config.simps config_entries_def process_node_def add_filter_node_def new_config_def reset_config_def
        new_filter_config_def push_node_def all_filters_names_def DENIALATOR_FILTER_NAME_def)
  have o: "order_filters sample_yaml ?c = Inr [(1, ''denialator'')]"
    by (simp add: order_filters_def new_config_def priority_bounds_def ysize_def ysub_def to_map_def IsDefined_def int_add_def
        push_node_def new_filter_config_def)
  obtain st1 where s: "Swabber_load_config sample_yaml (swabber_conf ?c) (new_swabber s1 (empty_tables ''edge'' st)) = Inr st1"
    by (simp add: Swabber_load_config_def new_config_def new_filter_config_def new_swabber_def Let_def case_prod_beta)
  have b: "build_filters sample_yaml sample_libs ''d'' s2 (filter_config_map ?c) [(1, ''denialator'')] (no_filters, st1) =
      Inr (enqueue DENIALATOR_FILTER_ID (no_filters\<lparr>denialator_filter := Some (new_denialator (Some (global_ip_white_list no_filters)) st1)\<rparr>), st1)"
    by (simp add: filter_id_of_def filter_names make_filter_def push_node_def new_filter_config_def yaml_abort_def)
  have k: "setup_kafka sample_yaml sample_kafka b (kafka_conf ?c) kc = Inr (None, None)"
    by (simp add: setup_kafka_def new_config_def ysub_def to_map_def IsDefined_def)
  have l: "sample_banjax_loader (''d'' @ ''/'' @ CONFIG_FILENAME) = Some (YMap [(''denialator'', YMap [])])"
    by (simp add: sample_banjax_loader_def CONFIG_FILENAME_def)
  show ?thesis
    unfolding new_banjax_def read_configuration_def l option.case c obind_simps o rbind_simps s b k prod.case
    by (simp add: enqueue_def no_filters_def queued_tasks_def all_queues_def)
qed

theorem banjax_is_built_as_configured_witness:
  "\<exists>bx. new_banjax sample_yaml sample_banjax_loader sample_libs sample_kafka 1 ''edge'' ''d'' 0 None None None sample_sniffer = Some (Inr bx) \<and>
     filter_made (bx_filters bx) DENIALATOR_FILTER_ID"
proof -
  obtain bx where bx: "new_banjax sample_yaml sample_banjax_loader sample_libs sample_kafka 1 ''edge'' ''d'' 0 None None None sample_sniffer = Some (Inr bx)"
    "task_queues (bx_filters bx) HTTP_REQUEST = [DENIALATOR_FILTER_ID]" using sample_new_banjax by blast
  from banjax_is_built_as_configured [OF bx(1)] bx(2) have "filter_made (bx_filters bx) DENIALATOR_FILTER_ID"
    by (metis filter_is_subset list.set_intros(1) subset_code(1))
  with bx show ?thesis by blast
qed

lemma obind_returns: "\<exists>v. r = Some (Inr v) \<Longrightarrow> \<exists>x. obind r (\<lambda>v. Some (Inr (h v))) = Some (Inr x)"
  by auto

theorem reload_hands_over_sockets_not_tables_witness:
  "\<exists>bx g' old. reload_config sample_yaml sample_banjax_loader sample_libs sample_kafka 1 ''edge'' 1
       \<lparr>config_dir = ''d'', current_state = bx, restart_time = 0, reload_time = 0\<rparr> = Some (Inr (g', old)) \<and>
     swabber_ip_db (bx_state (current_state g')) = []"
proof -
  obtain bx :: banjax_obj where True by simp
  let ?g = "\<lparr>config_dir = ''d'', current_state = bx, restart_time = 0, reload_time = 0\<rparr>"
  have "\<exists>x. reload_config sample_yaml sample_banjax_loader sample_libs sample_kafka 1 ''edge'' 1 ?g = Some (Inr x)"
    unfolding reload_config_def case_prod_beta Let_def banjax_plugin.simps
    by (rule obind_returns) (use sample_new_banjax in blast)
  then obtain g' old where r: "reload_config sample_yaml sample_banjax_loader sample_libs sample_kafka 1 ''edge'' 1 ?g = Some (Inr (g', old))"
    by (metis surj_pair)
  with reload_hands_over_sockets_not_tables [OF r] show ?thesis by (auto simp: tables_def)
qed

end
