(* ===== verification/RequestSafety.thy ===== *)
theory RequestSafety
  imports Banjax
begin

text \<open>
  Requests through the whole chain of filters, the challenger included: which requests can not make the
  server fail. The memory errors of the challenger come from cookies that are no base64 text and from answers
  that are too long for the digest's buffer; without them every request is decided, and every page is written.
\<close>

section \<open>Cookies of the alphabet\<close>

lemma b64_text_digits:
  assumes "set s \<subseteq> set b64_table"
  obtains ds where "s = map (\<lambda>d. b64_table ! unat d) ds" and "\<forall>d \<in> set ds. mask_bits 6 d"
proof -
  have "\<exists>ds. s = map (\<lambda>d. b64_table ! unat d) ds \<and> (\<forall>d \<in> set ds. mask_bits 6 d)"
    using assms
  proof (induction s)
    case (Cons c s)
    then obtain ds where ds: "s = map (\<lambda>d. b64_table ! unat d) ds" "\<forall>d \<in> set ds. mask_bits 6 d" by auto
    have "length b64_table = 64" by code_simp
    with Cons.prems obtain k where k: "k < 64" "c = b64_table ! k" by (auto simp: in_set_conv_nth)
    define d where "d = (word_of_nat k :: 32 word)"
    have "unat d = k" using k(1) by (simp add: d_def unat_of_nat take_bit_eq_mod)
    moreover have "mask_bits 6 d"
    proof -
      have "unat d < 2 ^ 6" using \<open>unat d = k\<close> k(1) by simp
      then have "take_bit 6 d = d" by (metis take_bit_nat_eq_self_iff unsigned_take_bit_eq unsigned_word_eqI)
      then show ?thesis by (simp add: take_bit_eq_mask)
    qed
    ultimately show ?case using ds k(2) by (intro exI [of _ "d # ds"]) simp
  qed simp
  with that show thesis by blast
qed

lemma Decode_alphabet:
  assumes "set s \<subseteq> set b64_table"
  shows "\<exists>data. Decode s = Inr data \<and> length data = 6 * length s div 8"
proof -
  obtain ds where ds: "s = map (\<lambda>d. b64_table ! unat d) ds" "\<forall>d \<in> set ds. mask_bits 6 d"
    by (rule b64_text_digits [OF assms])
  from decode_loop_digits [of 0 ds "[]" 0 "[]"] ds(2) obtain data bc' acc' where
    d: "decode_loop (map (\<lambda>d. b64_table ! unat d) ds @ []) 0 0 [] = decode_loop [] acc' bc' data"
      "concat (map byte_bits data) @ wbits bc' acc' = concat (map (wbits 6) ds)" "bc' < 8"
    by auto
  have "8 * length data + bc' = 6 * length ds"
    using arg_cong [OF d(2), of length] by (simp add: length_concat comp_def sum_list_triv)
  then have "length data = 6 * length ds div 8" using d(3) by simp
  with d(1) ds(1) show ?thesis by (simp add: Decode_def)
qed

lemma alphabet_no_NUL: "set s \<subseteq> set b64_table \<Longrightarrow> cstr s = s"
proof -
  have "NUL \<notin> set b64_table" by (simp add: b64_table_def)
  then show "set s \<subseteq> set b64_table \<Longrightarrow> cstr s = s" by (intro cstr_id) auto
qed

lemma ValidateCookie_returns:
  assumes "set c \<subseteq> set b64_table" and "fits_ibuf answer ip"
  shows "\<exists>r. ValidateCookie hmac answer secret now ip c = Inr r"
proof -
  obtain data where "Decode c = Inr data" "length data = 6 * length c div 8" using Decode_alphabet [OF assms(1)] by blast
  then show ?thesis
    using assms(2) alphabet_no_NUL [OF assms(1)]
    by (simp add: ValidateCookie_def Let_def GenerateCookieHash_eq cookie_sizes)
qed

lemma check_auth_returns:
  assumes "set c \<subseteq> set b64_table" and "42 \<le> length pw"
  shows "\<exists>b. check_auth_validity L c pw = Inr b"
proof (cases "length c < COOKIE_B64_LENGTH + length pw")
  case True
  then show ?thesis using alphabet_no_NUL [OF assms(1)] by (auto simp: check_auth_validity_def)
next
  case False
  let ?d = "drop COOKIE_B64_LENGTH c"
  have "set ?d \<subseteq> set b64_table" using assms(1) set_drop_subset [of COOKIE_B64_LENGTH c] by blast
  then obtain data where "Decode ?d = Inr data" "length data = 6 * length ?d div 8" using Decode_alphabet by blast
  moreover have "42 \<le> length ?d" using False assms(2) by simp
  ultimately show ?thesis
    using False alphabet_no_NUL [OF assms(1)] by (simp add: check_auth_validity_def SHA256_DIGEST_LENGTH_def Let_def)
qed

section \<open>The challenger\<close>

text \<open>The first \<open>deflect\<close> cookie of the request, if it has one, is a text of the base64 alphabet.\<close>

definition deflect_clean :: "transaction_parts \<Rightarrow> bool" where
  "deflect_clean parts =
     (case parts COOKIE of
        None \<Rightarrow> False
      | Some jar \<Rightarrow>
          (case find (\<lambda>c. cookie_name c = ''deflect'') (parse_jar jar) of
             None \<Rightarrow> True
           | Some c \<Rightarrow> set (cookie_value c) \<subseteq> set b64_table))"

text \<open>The password hash of a login challenge has 42 characters or more, as a digest in base64 has.\<close>

definition auth_ok :: "host_challenge_spec \<Rightarrow> bool" where
  "auth_ok ch \<longleftrightarrow> (challenge_type ch = CHALLENGE_AUTH \<longrightarrow> 42 \<le> length (password_hash ch))"

lemma report_if_regex_db [simp]: "regex_manager_ip_db (report_if C host ip p st) = regex_manager_ip_db st"
  using report_only(1) [of st host ip p] by (auto simp: report_if_def reports_only_def)

lemma set_count_regex_db [simp]: "regex_manager_ip_db (set_count ip n st) = regex_manager_ip_db st"
  by (simp add: set_count_def set_ip_state_def world_simps Let_def)

lemma drop_count_regex_db [simp]: "regex_manager_ip_db (drop_count ip st) = regex_manager_ip_db st"
  by (simp add: drop_count_def drop_ip_def world_simps Let_def)

lemma challenge_prevailed_returns:
  "auth_ok ch \<Longrightarrow> set c \<subseteq> set b64_table \<Longrightarrow> \<exists>b. challenge_prevailed L C ch c = Inr b"
  by (cases "challenge_type ch") (auto simp: challenge_prevailed_def auth_ok_def check_auth_returns)

lemma check_cookie_returns:
  assumes "deflect_clean parts" and "parts IP = Some ip" and "parts HOST = Some host" and "fits_ibuf answer ip"
    and "banjax C" and "auth_ok ch"
  shows "\<exists>ok st'. check_cookie L C answer parts ch st = Inr (ok, st') \<and> regex_manager_ip_db st' = regex_manager_ip_db st"
proof -
  from assms(1) obtain jar where jar: "parts COOKIE = Some jar" by (auto simp: deflect_clean_def split: option.splits)
  show ?thesis
  proof (cases "find (\<lambda>c. cookie_name c = ''deflect'') (parse_jar jar)")
    case None
    with jar assms show ?thesis by (auto simp: check_cookie_def part_at_def)
  next
    case (Some c)
    then have abc: "set (cookie_value c) \<subseteq> set b64_table" using assms(1) jar by (simp add: deflect_clean_def)
    obtain b where b: "challenge_prevailed L C ch (cookie_value c) = Inr b" using challenge_prevailed_returns [OF assms(6) abc] by blast
    have "set (take COOKIE_B64_LENGTH (cookie_value c)) \<subseteq> set b64_table" using abc set_take_subset by fast
    then obtain r where r: "ValidateCookie (hmac_sha1 L) answer (hashed_key C) (fst (clock st (tick st))) ip
        (take COOKIE_B64_LENGTH (cookie_value c)) = Inr r"
      using ValidateCookie_returns [OF _ assms(4)] by blast
    have rep: "regex_manager_ip_db (snd (report_pass_or_failure2 host ip p s)) = regex_manager_ip_db s" for p s
      using report_only(2) [of s host ip p] by (auto simp: reports_only_def)
    from b r Some jar assms(2,3,5) show ?thesis
      by (simp add: check_cookie_def part_at_def world_simps rep Let_def)
  qed
qed

lemma failure_response_returns:
  assumes "parts IP = Some ip" and "parts HOST = Some host"
  shows "\<exists>resp st'. failure_response ch ck parts st = Inr (resp, st') \<and> regex_manager_ip_db st' = regex_manager_ip_db st"
proof -
  have "\<exists>b st'. report_failure ch parts st = Inr (b, st') \<and> regex_manager_ip_db st' = regex_manager_ip_db st"
  proof (cases "get_ip_state 0 ip (challenger_ip_db st) st")
    case (Pair r st1)
    then have "regex_manager_ip_db st1 = regex_manager_ip_db st" using ip_state_regex_db [of 0 ip "challenger_ip_db st" st] by simp
    with Pair assms show ?thesis
      by (auto simp: report_failure_def part_at_def Let_def split: option.split)
  qed
  then show ?thesis by (auto simp: failure_response_def)
qed

lemma run_challenges_returns:
  assumes "deflect_clean parts" and "parts IP = Some ip" and "parts HOST = Some host" and "parts URL_WITH_HOST = Some url"
    and "fits_ibuf [] ip" and "banjax C" and "\<forall>ch \<in> set chs. auth_ok ch"
  shows "\<exists>resp st'. run_challenges L C parts host ip chs st = Inr (resp, st') \<and> regex_manager_ip_db st' = regex_manager_ip_db st"
  using assms(7)
proof (induction chs arbitrary: st)
  case Nil
  then show ?case by (simp add: report_success_def)
next
  case (Cons ch chs)
  have "\<forall>ch \<in> set chs. auth_ok ch" using Cons.prems by simp
  note IH = Cons.IH [OF this]
  from Cons.prems check_cookie_returns [OF assms(1-3,5,6), of ch L st] obtain ok st1 where
    ok: "check_cookie L C [] parts ch st = Inr (ok, st1)" "regex_manager_ip_db st1 = regex_manager_ip_db st" by auto
  have fail: "\<exists>resp st'. failure_response ch ck parts (report_if C host ip p st1) = Inr (resp, st') \<and>
      regex_manager_ip_db st' = regex_manager_ip_db st" for ck p
    using failure_response_returns [OF assms(2,3), of ch ck "report_if C host ip p st1"] ok(2) by simp
  have on: "\<exists>resp st'. run_challenges L C parts host ip chs (report_if C host ip p s) = Inr (resp, st') \<and>
      regex_manager_ip_db st' = regex_manager_ip_db st" if "s = st1 \<or> s = report_success ip st1" for p s
    using IH [of "report_if C host ip p s"] ok(2) that by (auto simp: report_success_def)
  show ?case
    using IH [of st] fail on ok assms(4)
    by (cases "challenge_type ch") (simp_all add: part_at_def custom_response_def report_success_def Let_def)
qed

text \<open>All challenges that can be chosen for a request.\<close>

definition all_challenges :: "(host_challenge_spec \<Rightarrow> bool) \<Rightarrow> challenger \<Rightarrow> 's challenger_state_scheme \<Rightarrow> bool" where
  "all_challenges P C st \<longleftrightarrow>
     (\<forall>host chs. host_challenges_static C host = Some chs \<longrightarrow> (\<forall>ch \<in> set chs. P ch)) \<and>
     (\<forall>(k, ch) \<in> set (host_to_challenge_dynamic st). P ch) \<and> (\<forall>(k, ch) \<in> set (ip_to_challenge_dynamic st). P ch)"

abbreviation challenges_ok :: "challenger \<Rightarrow> 's challenger_state_scheme \<Rightarrow> bool" where
  "challenges_ok \<equiv> all_challenges auth_ok"

lemma select_challenges_ok:
  assumes "all_challenges P C st" and "select_challenges C host ip st = (r, st1)"
  shows "regex_manager_ip_db st1 = regex_manager_ip_db st \<and> (\<forall>chs. r = Some chs \<longrightarrow> (\<forall>ch \<in> set chs. P ch))"
  using assms
  by (auto simp: select_challenges_def all_challenges_def world_simps split: option.splits if_splits dest!: map_of_SomeD)

lemma on_http_request_returns:
  assumes "deflect_clean parts" and "parts IP = Some ip" and "parts HOST = Some host" and "parts URL_WITH_HOST = Some url"
    and "fits_ibuf [] ip" and "banjax C" and "challenges_ok C st"
  shows "\<exists>resp st'. Challenger_on_http_request L C parts st = Inr (resp, st') \<and> regex_manager_ip_db st' = regex_manager_ip_db st"
proof -
  obtain r st1 where sel: "select_challenges C host ip st = (r, st1)" by fastforce
  note ok = select_challenges_ok [OF assms(7) sel]
  from assms(1) obtain jar where jar: "parts COOKIE = Some jar" by (auto simp: deflect_clean_def split: option.splits)
  show ?thesis
  proof (cases r)
    case None
    with ok sel assms(2,3) show ?thesis by (simp add: Challenger_on_http_request_def part_at_def)
  next
    case (Some chs)
    with run_challenges_returns [OF assms(1-6), of chs L st1] ok sel assms(2,3) jar show ?thesis
      by (simp add: Challenger_on_http_request_def part_at_def)
  qed
qed

section \<open>The chain\<close>

text \<open>The filters other than the challenger do not touch the dynamic challenges.\<close>

definition dynamic_challenges :: "'s challenger_state_scheme \<Rightarrow> (string \<times> host_challenge_spec) list \<times> (string \<times> host_challenge_spec) list" where
  "dynamic_challenges st = (host_to_challenge_dynamic st, ip_to_challenge_dynamic st)"

lemma dynamic_challenges_update [simp]:
  "dynamic_challenges (st\<lparr>tick := n\<rparr>) = dynamic_challenges st" "dynamic_challenges (st\<lparr>regex_manager_ip_db := db\<rparr>) = dynamic_challenges st"
  by (simp_all add: dynamic_challenges_def)

lemma ban_dynamic [simp]: "dynamic_challenges (ban ip r st) = dynamic_challenges st"
proof -
  have "swabber_state.more (ban ip r st) = swabber_state.more st" by simp
  then show ?thesis by (cases "ban ip r st"; cases st) (simp add: dynamic_challenges_def)
qed

lemma get_ip_state_dynamic: "dynamic_challenges (snd (get_ip_state d ip db st)) = dynamic_challenges st"
  by (simp add: get_ip_state_def world_simps split: option.split)

lemma store_state_dynamic [simp]: "dynamic_challenges (store_state ip v st) = dynamic_challenges st"
  by (simp add: store_state_def set_ip_state_def world_simps Let_def)

lemma try_match_loop_dynamic:
  "try_match_loop fm n ip rec host rules ip_state st = Inr (r, st') \<Longrightarrow> dynamic_challenges st' = dynamic_challenges st"
proof (induction fm n ip rec host rules ip_state st rule: try_match_loop.induct)
  case (2 fm n ip rec host rule rules ip_state st)
  let ?st1 = "st\<lparr>tick := Suc (tick st)\<rparr>"
  obtain s2 st2 where q: "(if ip_state = None \<or> ip_state = Some []
      then get_ip_state [] ip (regex_manager_ip_db ?st1) ?st1 else (ip_state, ?st1)) = (s2, st2)" by (metis surj_pair)
  then have "dynamic_challenges st2 = dynamic_challenges st"
    using get_ip_state_dynamic [of "[]" ip "regex_manager_ip_db ?st1" ?st1] by (auto split: if_splits)
  with 2 q show ?case
    by (auto simp: world_simps Let_def split: if_splits option.splits)
qed (auto split: option.splits if_splits)

lemma regex_dynamic:
  "RegexManager_on_http_request fm rules parts st = Inr (resp, parts', st') \<Longrightarrow> dynamic_challenges st' = dynamic_challenges st"
  by (auto simp: RegexManager_on_http_request_def rbind_eq_Inr_iff Let_def try_match_def
      dest!: try_match_loop_dynamic split: option.splits)

lemma denialator_dynamic:
  "Denialator_on_http_request d parts st = Inr (resp, st') \<Longrightarrow> dynamic_challenges st' = dynamic_challenges st"
  by (auto simp: Denialator_on_http_request_def rbind_eq_Inr_iff world_simps case_prod_beta Let_def
      get_ip_state_dynamic split: if_splits option.splits)

lemma filter_dynamic:
  assumes "f \<noteq> CHALLENGER_FILTER_ID" and "filter_on_http_request E B f parts st = Inr (resp, parts', st')"
  shows "dynamic_challenges st' = dynamic_challenges st"
proof (cases f)
  case REGEX_BANNER_FILTER_ID
  with assms(2) show ?thesis by (auto simp: filter_on_http_request_def dest!: regex_dynamic split: option.splits)
next
  case DENIALATOR_FILTER_ID
  with assms(2) show ?thesis
    by (auto simp: filter_on_http_request_def rbind_eq_Inr_iff dest!: denialator_dynamic split: option.splits)
qed (use assms in \<open>auto simp: filter_on_http_request_def rbind_eq_Inr_iff split: option.splits if_splits\<close>)

text \<open>What the challenger needs of a request and of its tables.\<close>

definition challenger_ready :: "filters \<Rightarrow> transaction_parts \<Rightarrow> 's challenger_state_scheme \<Rightarrow> bool" where
  "challenger_ready B parts st \<longleftrightarrow>
     (\<exists>C ip host url. challenger_filter B = Some C \<and> banjax C \<and> challenges_ok C st \<and> deflect_clean parts \<and>
        parts IP = Some ip \<and> parts HOST = Some host \<and> parts URL_WITH_HOST = Some url \<and> fits_ibuf [] ip)"

lemma challenges_ok_dynamic: "dynamic_challenges st' = dynamic_challenges st \<Longrightarrow> all_challenges P C st' = all_challenges P C st"
  by (simp add: all_challenges_def dynamic_challenges_def)

lemma deflect_clean_mono:
  assumes "deflect_clean parts" and "parts \<subseteq>\<^sub>m parts'"
  shows "deflect_clean parts'"
proof -
  from assms(1) obtain jar where jar: "parts COOKIE = Some jar" by (auto simp: deflect_clean_def split: option.splits)
  with assms(2) have "parts' COOKIE = Some jar" by (metis domI map_le_def)
  with assms(1) jar show ?thesis by (simp add: deflect_clean_def)
qed

lemma challenger_ready_mono:
  assumes "challenger_ready B parts st" and "parts \<subseteq>\<^sub>m parts'" and "dynamic_challenges st' = dynamic_challenges st"
  shows "challenger_ready B parts' st'"
proof -
  from assms(1) obtain C ip host url where C: "challenger_filter B = Some C" "banjax C" "challenges_ok C st" and
    p: "deflect_clean parts" "parts IP = Some ip" "parts HOST = Some host" "parts URL_WITH_HOST = Some url" "fits_ibuf [] ip"
    unfolding challenger_ready_def by blast
  have "parts' k = Some v" if "parts k = Some v" for k v using that assms(2) by (metis domI map_le_def)
  with p(2-4) have "parts' IP = Some ip" "parts' HOST = Some host" "parts' URL_WITH_HOST = Some url" by blast+
  with C p(5) deflect_clean_mono [OF p(1) assms(2)] challenges_ok_dynamic [OF assms(3)]
  show ?thesis unfolding challenger_ready_def by blast
qed

lemma challenger_runs:
  assumes "challenger_ready B parts st"
  shows "\<exists>resp st'. filter_on_http_request E B CHALLENGER_FILTER_ID parts st = Inr (resp, parts, st') \<and>
    regex_manager_ip_db st' = regex_manager_ip_db st"
proof -
  from assms obtain C ip host url where C: "challenger_filter B = Some C" "banjax C" "challenges_ok C st" and
    p: "deflect_clean parts" "parts IP = Some ip" "parts HOST = Some host" "parts URL_WITH_HOST = Some url" "fits_ibuf [] ip"
    unfolding challenger_ready_def by blast
  let ?C = "C\<lparr>ch_white_list := Some (global_ip_white_list B)\<rparr>"
  have "banjax ?C" "challenges_ok ?C st" using C(2,3) by (simp_all add: all_challenges_def)
  from on_http_request_returns [OF p this, of "lib_challenge E"] C(1) show ?thesis
    by (auto simp: filter_on_http_request_def)
qed

lemma chain_returns:
  assumes "rules_accepted B" and "regex_db_ok (rule_count B) (regex_manager_ip_db st)" and "distinct fs"
    and "\<forall>f\<in>set fs. f \<noteq> BOT_SNIFFER_FILTER_ID \<and> filter_made B f \<and>
      (\<forall>k\<in>{IP, HOST}. requested_info f AND k \<noteq> 0 \<longrightarrow> cur_trans_parts (transaction_muncher td) k \<noteq> None)"
    and "CHALLENGER_FILTER_ID \<in> set fs \<longrightarrow> challenger_ready B (cur_trans_parts (transaction_muncher td)) st"
  shows "\<exists>td' st'. run_filters E B fs td st = Inr (td', st') \<and> regex_db_ok (rule_count B) (regex_manager_ip_db st')"
  using assms(2-5)
proof (induction fs arbitrary: td st)
  case (Cons f fs)
  let ?parts = "cur_trans_parts (transaction_muncher td)"
  have "\<exists>resp parts' st'. filter_on_http_request E B f ?parts st = Inr (resp, parts', st') \<and>
    regex_db_ok (rule_count B) (regex_manager_ip_db st')"
  proof (cases "f = CHALLENGER_FILTER_ID")
    case True
    with Cons.prems(4) challenger_runs [of B ?parts st E] Cons.prems(1) show ?thesis by fastforce
  next
    case False
    with Cons.prems(3) show ?thesis by (intro filter_runs [OF _ _ assms(1) Cons.prems(1)]) simp_all
  qed
  then obtain resp parts' st' where r: "filter_on_http_request E B f ?parts st = Inr (resp, parts', st')" and
    ok: "regex_db_ok (rule_count B) (regex_manager_ip_db st')" by blast
  from filter_frame [OF r] have sub: "?parts \<subseteq>\<^sub>m parts'" by blast
  then have there: "parts' k \<noteq> None" if "?parts k \<noteq> None" for k using that by (metis domI domIff map_le_def)
  have ready: "challenger_ready B parts' st'" if "CHALLENGER_FILTER_ID \<in> set fs"
    using challenger_ready_mono [OF _ sub] filter_dynamic [OF _ r] Cons.prems(2,4) that by auto
  have "\<exists>td' st''. run_filters E B fs td1 st' = Inr (td', st'') \<and> regex_db_ok (rule_count B) (regex_manager_ip_db st'')"
    if "cur_trans_parts (transaction_muncher td1) = parts'" for td1
    by (rule Cons.IH [OF ok]) (use Cons.prems(2,3) there ready that in auto)
  with r ok show ?case by (cases "response_type resp") (simp_all add: Let_def)
qed simp

section \<open>Every request is decided\<close>

text \<open>The challenger of a Banjax has its interface, and no filter is queued twice.\<close>

definition challenger_wired :: "filters \<Rightarrow> bool" where
  "challenger_wired B \<longleftrightarrow> (\<forall>C. challenger_filter B = Some C \<longrightarrow> banjax C)"

lemma make_filter_wired: "make_filter Y E dir s f conf (B, st) = Inr (B', st') \<Longrightarrow> challenger_wired B \<Longrightarrow> challenger_wired B'"
  by (cases f) (auto simp: make_filter_def rbind_eq_Inr_iff challenger_wired_def Challenger_load_config_def)

lemma build_filters_wired:
  "build_filters Y E dir s confs pm (B, st) = Inr (B', st') \<Longrightarrow> challenger_wired B \<Longrightarrow> challenger_wired B'"
proof (induction pm arbitrary: B st)
  case (Cons p pm)
  from Cons.prems(1) obtain f B1 st1 where "filter_id_of (snd p) = Some f"
    and mk: "make_filter Y E dir s f (case map_of confs (snd p) of Some c \<Rightarrow> c | None \<Rightarrow> new_filter_config) (B, st) = Inr (B1, st1)"
    and rest: "build_filters Y E dir s confs pm (enqueue f B1, st1) = Inr (B', st')"
    by (rule build_filters_ConsE)
  have "challenger_wired (enqueue f B1) = challenger_wired B1" by (simp add: challenger_wired_def enqueue_def)
  then show ?case using Cons.IH [OF rest] make_filter_wired [OF mk Cons.prems(2)] by simp
qed auto

lemma new_banjax_wired:
  assumes "new_banjax Y load E K fuel host dir b s1 s2 kc st = Some (Inr bx)"
  shows "challenger_wired (bx_filters bx)" and "distinct (task_queues (bx_filters bx) HTTP_REQUEST)"
proof -
  from assms obtain c pm st1 B st2 kc' producer where
    c: "config_ok c" "order_filters Y c = Inr pm" and
    "Swabber_load_config Y (swabber_conf c) (new_swabber s1 (empty_tables host st)) = Inr st1" and
    b: "build_filters Y E dir s2 (filter_config_map c) pm (no_filters, st1) = Inr (B, st2)" and
    "setup_kafka Y K b (kafka_conf c) kc = Inr (kc', producer)" and
    "bx_config bx = c" "bx_priority_map bx = pm" and d: "bx_filters bx = B" and
    "bx_consumer bx = kc'" "bx_state bx = st2\<lparr>kafka_producer := producer \<noteq> None\<rparr>"
    by (rule new_banjax_built)
  have "challenger_wired no_filters" by (simp add: challenger_wired_def no_filters_def)
  then show "challenger_wired (bx_filters bx)" using build_filters_wired [OF b] d by simp
  from build_filters_result [OF b] obtain fs where fs: "map (\<lambda>p. filter_id_of (snd p)) pm = map Some fs"
    "task_queues B HTTP_REQUEST = filter (\<lambda>f. queued_tasks f HTTP_REQUEST) fs"
    unfolding no_filters_sel append.simps by blast
  have "distinct fs"
    by (rule map_Some_inj [of filter_id_of "map snd pm"])
      (use fs(1) order_filters_sorted [OF c] filter_id_of_inject in \<open>auto simp: comp_def\<close>)
  with fs(2) d show "distinct (task_queues (bx_filters bx) HTTP_REQUEST)" by simp
qed

text \<open>An address in dotted notation is short, so the one of a client fits the buffer of the digest.\<close>

lemma length_decimal_nat: "n < 1000 \<Longrightarrow> length (decimal_nat n) \<le> 3"
  by (simp add: decimal_nat.simps [of n] decimal_nat.simps [of "n div 10"] decimal_nat.simps [of "n div 10 div 10"])

lemma length_inet_ntoa: "length (inet_ntoa a) \<le> 15"
proof -
  have "length (decimal_nat (unat (w AND 0xff))) \<le> 3" for w :: "32 word"
    using byte_of_word_less [of w] by (intro length_decimal_nat) linarith
  from this [of "drop_bit 24 a"] this [of "drop_bit 16 a"] this [of "drop_bit 8 a"] this [of a] show ?thesis
    by (simp add: inet_ntoa_def)
qed

lemma client_ip_short: "part_ref t IP = Some ip \<Longrightarrow> length ip \<le> 15"
  using length_inet_ntoa by (auto simp: part_ref_eqs split: option.splits)

lemma fits_ibuf_short: "length answer + length ip \<le> 192 \<Longrightarrow> fits_ibuf answer ip"
proof -
  have "length (cstr s) \<le> length s" for s unfolding cstr_def by (rule length_takeWhile_le)
  from this [of answer] this [of ip] show "length answer + length ip \<le> 192 \<Longrightarrow> fits_ibuf answer ip"
    by (simp add: fits_ibuf_def cookie_sizes)
qed

text \<open>C3: Every request is decided. Take any configuration that is accepted. For every request, each
  filter in the queue finds the parts it asked for (the url with its host only if the server lets the
  host be set). And the handler of a request whose header the server has never throws, never goes through a
  null pointer and never reads or writes past the end of a buffer, for any contents of the regex table that earlier
  requests can have left; it passes exactly one event back, and it leaves that table in such a state again. If
  the challenger is configured this is so for a request with a \<open>deflect\<close> cookie in base64 (or none), when the
  server lets the host be set and the password hashes of the challenges, those that came from Kafka included, have at
  least 42 characters, as a digest in base64 has.\<close>

theorem every_request_is_decided:
  assumes "new_banjax Y load_file E K fuel host dir b s1 s2 kc st0 = Some (Inr bx)"
  shows "(\<forall>m f k. retrieve_parts (all_filters_requested_part (bx_filters bx)) (new_muncher t) = Inr m \<longrightarrow>
      f \<in> set (task_queues (bx_filters bx) HTTP_REQUEST) \<longrightarrow> k \<in> set request_parts \<longrightarrow> requested_info f AND k \<noteq> 0 \<longrightarrow>
      k \<noteq> URL_WITH_HOST \<or> (\<forall>h. url_host_set t h) \<longrightarrow> (\<exists>v. part_at (cur_trans_parts m) k = Inr v)) \<and>
    regex_db_ok (rule_count (bx_filters bx)) (regex_manager_ip_db (bx_state bx)) \<and>
    (\<forall>st. req_get t \<longrightarrow> regex_db_ok (rule_count (bx_filters bx)) (regex_manager_ip_db st) \<longrightarrow>
       (\<forall>C. challenger_filter (bx_filters bx) = Some C \<longrightarrow>
          (\<forall>h. url_host_set t h) \<and> challenges_ok C st \<and> deflect_clean (part_ref t)) \<longrightarrow>
       (\<exists>td' st'. handle_request E (bx_filters bx) (new_transaction_data t store_ok set_ok) st = Inr (td', st') \<and>
          length (reenabled td') = 1 \<and> regex_db_ok (rule_count (bx_filters bx)) (regex_manager_ip_db st')))"
proof (intro conjI allI impI)
  let ?B = "bx_filters bx"
  note q = banjax_queues [OF assms] and parts = parts_of_fresh_muncher [of "all_filters_requested_part ?B" t]
  show found: "\<exists>v. part_at (cur_trans_parts m) k = Inr v"
    if "retrieve_parts (all_filters_requested_part ?B) (new_muncher t) = Inr m" "f \<in> set (task_queues ?B HTTP_REQUEST)"
      "k \<in> set request_parts" "requested_info f AND k \<noteq> 0" "k \<noteq> URL_WITH_HOST \<or> (\<forall>h. url_host_set t h)" for m f k
    using parts [OF that(1,3) _ that(5)] q [OF that(2)] that(4) by (auto simp: part_at_def)
  show "regex_db_ok (rule_count ?B) (regex_manager_ip_db (bx_state bx))"
    using new_banjax_state [OF assms] by (simp add: tables_def regex_db_ok_def db_inv_def)
  fix st :: "'a sniffer_state_scheme"
  assume c: "req_get t" "regex_db_ok (rule_count ?B) (regex_manager_ip_db st)" and
    ch: "\<forall>C. challenger_filter ?B = Some C \<longrightarrow> (\<forall>h. url_host_set t h) \<and> challenges_ok C st \<and> deflect_clean (part_ref t)"
  have "trans_txnp (new_muncher t) = t" by (simp add: new_muncher_def update_validity_status_def put_part_def)
  with c(1) retrieve_parts_returns [of "new_muncher t"] obtain m where
    m: "retrieve_parts (all_filters_requested_part ?B) (new_muncher t) = Inr m" by metis
  let ?td = "(new_transaction_data t store_ok set_ok)\<lparr>transaction_muncher := m\<rparr>"
  have each: "f \<noteq> BOT_SNIFFER_FILTER_ID \<and> filter_made ?B f \<and>
      (\<forall>k\<in>{IP, HOST}. requested_info f AND k \<noteq> 0 \<longrightarrow> cur_trans_parts (transaction_muncher ?td) k \<noteq> None)"
    if "f \<in> set (task_queues ?B HTTP_REQUEST)" for f
    using q [OF that] parts [OF m, of IP] parts [OF m, of HOST]
    by (auto simp: request_parts_def part_numbers)
  have ready: "challenger_ready ?B (cur_trans_parts (transaction_muncher ?td)) st"
    if "CHALLENGER_FILTER_ID \<in> set (task_queues ?B HTTP_REQUEST)"
  proof -
    from q [OF that, of IP] obtain C where C: "challenger_filter ?B = Some C" by (auto simp: filter_made_def)
    with ch have ok: "\<forall>h. url_host_set t h" "challenges_ok C st" "deflect_clean (part_ref t)" by blast+
    have there: "\<exists>v. cur_trans_parts m k = Some v" if "k \<in> {IP, HOST, URL_WITH_HOST, COOKIE}" for k
      using found [OF m \<open>CHALLENGER_FILTER_ID \<in> _\<close>, of k] that ok(1)
      by (auto simp: request_parts_def requested_info_def Challenger_requested_info_def part_numbers part_at_def split: option.splits)
    from there obtain ip host url jar where p: "cur_trans_parts m IP = Some ip" "cur_trans_parts m HOST = Some host"
      "cur_trans_parts m URL_WITH_HOST = Some url" "cur_trans_parts m COOKIE = Some jar" by fastforce
    from p(4) fresh_part_value [OF m p(4)] ok(3) have "deflect_clean (cur_trans_parts m)"
      by (simp add: deflect_clean_def parts_not_validity)
    moreover have "fits_ibuf [] ip" using client_ip_short fresh_part_value [OF m p(1)] by (intro fits_ibuf_short) fastforce
    ultimately show ?thesis using C ok p new_banjax_wired(1) [OF assms] by (auto simp: challenger_ready_def challenger_wired_def)
  qed
  have "rules_accepted ?B" using new_banjax_state [OF assms] by blast
  from chain_returns [OF this c(2) new_banjax_wired(2) [OF assms], of ?td E] each ready
  obtain td' st' where r: "run_filters E ?B (task_queues ?B HTTP_REQUEST) ?td st = Inr (td', st')"
    "regex_db_ok (rule_count ?B) (regex_manager_ip_db st')" by blast
  from run_filters_reenables [OF r(1)] have "length (reenabled td') = 1" by (simp add: new_transaction_data_def)
  then show "\<exists>td' st'. handle_request E ?B (new_transaction_data t store_ok set_ok) st = Inr (td', st') \<and>
      length (reenabled td') = 1 \<and> regex_db_ok (rule_count ?B) (regex_manager_ip_db st')"
    using r m by (auto simp: handle_request_def new_transaction_data_def)
qed

text \<open>A configuration with a challenger that asks for a captcha on one host.\<close>

definition captcha_yaml :: yaml where
  "captcha_yaml =
     YMap [(''challenges'', YSequence [YMap [(''name'', YScalar ''n''), (''challenge_type'', YScalar ''captcha''),
             (''validity_period'', YScalar ''60''), (''domains'', YSequence [YScalar ''example.org''])]]),
           (''key'', YScalar ''k''), (''difficulty'', YScalar ''0'')]"

definition captcha_loader :: loader where
  "captcha_loader path = (if path = ''d/banjax.conf'' then Some (YMap [(''challenger'', captcha_yaml)]) else None)"

definition captcha_only :: "challenger \<Rightarrow> bool" where
  "captcha_only C \<longleftrightarrow> banjax C \<and>
     (\<exists>ch. (\<forall>host. host_challenges_static C host = (if host = ''example.org'' then Some [ch] else None)) \<and>
        challenge_type ch = CHALLENGE_CAPTCHA \<and> white_listed_ips ch = [] \<and> challenge_validity_period ch = 60 \<and>
        fail_tolerance_threshold ch = 0)"

lemma captcha_config:
  "\<exists>C st'. Challenger_load_config sample_yaml sample_lib ''d'' wl True captcha_yaml st = Inr (C, st') \<and> captcha_only C"
proof -
  have num: "stoi ''60'' = Inr 60" "stoi ''0'' = Inr 0" by code_simp+
  show ?thesis
    by (simp add: Challenger_load_config_def captcha_yaml_def ysub_def to_map_def field_def field_or_def sample_yaml_def num
        parse_single_challenge_def time_now_def yelems_def IsDefined_def challenge_type_of_def push_challenge_def load_dynamic_def
        captcha_only_def Let_def)
qed

lemma captcha_banjax:
  "\<exists>bx C. new_banjax sample_yaml captcha_loader sample_libs sample_kafka 1 ''edge'' ''d'' b s1 s2 kc st = Some (Inr bx) \<and>
     challenger_filter (bx_filters bx) = Some C \<and>
     captcha_only C \<and> all_filters_requested_part (bx_filters bx) = Challenger_requested_info \<and>
     task_queues (bx_filters bx) HTTP_REQUEST = [CHALLENGER_FILTER_ID] \<and> global_ip_white_list (bx_filters bx) = empty_white_list"
proof -
  let ?c = "new_config\<lparr>filter_config_map := [(''challenger'', push_node captcha_yaml new_filter_config)]\<rparr>"
  have c: "process_config sample_yaml captcha_loader ''d'' 1 (YMap [(''challenger'', captcha_yaml)]) new_config = Some (Inr ?c)"
    by (simp add: process_config.simps config_entries_def process_node_def add_filter_node_def new_config_def reset_config_def
        new_filter_config_def push_node_def all_filters_names_def filter_names captcha_yaml_def)
  have o: "order_filters sample_yaml ?c = Inr [(1, ''challenger'')]"
    by (simp add: order_filters_def new_config_def priority_bounds_def ysize_def ysub_def to_map_def IsDefined_def int_add_def
        push_node_def new_filter_config_def captcha_yaml_def)
  obtain st1 where s: "Swabber_load_config sample_yaml (swabber_conf ?c) (new_swabber s1 (empty_tables ''edge'' st)) = Inr st1"
    by (simp add: Swabber_load_config_def new_config_def new_filter_config_def new_swabber_def Let_def case_prod_beta)
  have m: "merge_config YNull [captcha_yaml] = Inr captcha_yaml"
    by (simp add: captcha_yaml_def ysub_def yset_def to_map_def)
  obtain C st2 where ch: "Challenger_load_config sample_yaml sample_lib ''d'' (Some (global_ip_white_list no_filters)) True captcha_yaml st1 = Inr (C, st2)"
    "captcha_only C" using captcha_config by blast
  have b: "build_filters sample_yaml sample_libs ''d'' s2 (filter_config_map ?c) [(1, ''challenger'')] (no_filters, st1) =
      Inr (enqueue CHALLENGER_FILTER_ID (no_filters\<lparr>challenger_filter := Some C\<rparr>), st2)"
    by (simp add: filter_id_of_def filter_names make_filter_def push_node_def new_filter_config_def yaml_abort_def m [simplified] ch(1) sample_libs_def)
  have k: "setup_kafka sample_yaml sample_kafka b (kafka_conf ?c) kc = Inr (None, None)"
    by (simp add: setup_kafka_def new_config_def ysub_def to_map_def IsDefined_def)
  have l: "captcha_loader (''d'' @ ''/'' @ CONFIG_FILENAME) = Some (YMap [(''challenger'', captcha_yaml)])"
    by (simp add: captcha_loader_def CONFIG_FILENAME_def)
  show ?thesis
    unfolding new_banjax_def read_configuration_def l option.case c obind_simps o rbind_simps s b k prod.case
    using ch(2) by (simp add: enqueue_def no_filters_def requested_info_def queued_tasks_def all_queues_def)
qed

lemma captcha_challenges:
  assumes "captcha_only C" and "dynamic_challenges st = ([], [])"
    and "\<And>ch. challenge_type ch = CHALLENGE_CAPTCHA \<Longrightarrow> challenge_validity_period ch = 60 \<Longrightarrow> P ch"
  shows "all_challenges P C st"
proof -
  from assms(1) obtain ch where "\<And>host. host_challenges_static C host = (if host = ''example.org'' then Some [ch] else None)"
    "challenge_type ch = CHALLENGE_CAPTCHA" "challenge_validity_period ch = 60" unfolding captcha_only_def by blast
  with assms(2,3) show ?thesis by (simp add: all_challenges_def dynamic_challenges_def)
qed

lemma sample_deflect_clean: "deflect_clean (part_ref sample_txn)"
proof -
  have "parse_jar [] = []" by code_simp
  then show ?thesis
    by (simp add: deflect_clean_def part_ref_eqs field_ref_def sample_txn_def TS_MIME_FIELD_HOST_def TS_MIME_FIELD_COOKIE_def)
qed

theorem every_request_is_decided_witness:
  "\<exists>bx C td' st'. new_banjax sample_yaml captcha_loader sample_libs sample_kafka 1 ''edge'' ''d'' 0 None None None sample_sniffer = Some (Inr bx) \<and>
     challenger_filter (bx_filters bx) = Some C \<and>
     handle_request sample_libs (bx_filters bx) (new_transaction_data sample_txn True True) (bx_state bx) = Inr (td', st') \<and>
     length (reenabled td') = 1"
proof -
  obtain bx C where bx: "new_banjax sample_yaml captcha_loader sample_libs sample_kafka 1 ''edge'' ''d'' 0 None None None sample_sniffer = Some (Inr bx)"
    "challenger_filter (bx_filters bx) = Some C"
    "captcha_only C" using captcha_banjax by blast
  have "tables (bx_state bx) = ([], [], [], [], [])" using new_banjax_state [OF bx(1)] by blast
  then have "challenges_ok C (bx_state bx)"
    by (intro captcha_challenges [OF bx(3)]) (simp_all add: auth_ok_def tables_def dynamic_challenges_def)
  moreover note sample_deflect_clean
  moreover have "req_get sample_txn" "\<forall>h. url_host_set sample_txn h" by (simp_all add: sample_txn_def)
  ultimately have "\<exists>td' st'. handle_request sample_libs (bx_filters bx) (new_transaction_data sample_txn True True) (bx_state bx) = Inr (td', st') \<and>
      length (reenabled td') = 1"
    using every_request_is_decided [OF bx(1), of sample_txn True True] bx(2) by fastforce
  with bx(1,2) show ?thesis by blast
qed

section \<open>Every page is written\<close>

lemma GenerateCookie_returns:
  assumes "\<forall>k m. length (hmac k m) = HASH_LENGTH" and "fits_ibuf answer ip"
  shows "\<exists>c. GenerateCookie hmac answer secret t ip = Inr c"
  using GenerateCookie_image [OF assms] by blast

lemma report_failure_returns:
  assumes "parts IP = Some ip" and "parts HOST = Some host"
  shows "\<exists>b st'. report_failure ch parts st = Inr (b, st')"
  using assms by (auto simp: report_failure_def part_at_def Let_def case_prod_beta split: option.split)

text \<open>The three pages of \<open>generate_html\<close>: the image, the answer to an answer, the challenge.\<close>

lemma image_returns:
  assumes "\<forall>k m. length (hmac_sha1 L k m) = HASH_LENGTH" and "is_captcha_url url" and "length url + length ip \<le> 192"
    and "random_ok (urandom L (tick st))" and "word_width (random_word (urandom L (tick st))) < 170"
  shows "\<exists>page r st'. generate_html L C ip t url parts ch resp st = Inr (page, r, st')"
proof -
  let ?R = "urandom L (tick st)"
  obtain im g where img: "captcha_image ?R (replicate 6 0) = Inr (im, captcha_text ?R)" "makegif im (replicate gifsize 0) = Inr g"
    by (rule captcha_served [OF assms(4,5), of "replicate gifsize 0"]) simp
  have "length (captcha_text ?R) = 5" using assms(4) by (simp add: captcha_text_def random_word_def random_ok_def)
  moreover have "9 \<le> length url"
  proof -
    from assms(2) have "occurs ''__captcha'' url" by (simp add: is_captcha_url_def srfind_None_iff)
    then show ?thesis by (auto simp: occurs_def)
  qed
  ultimately have "fits_ibuf (captcha_text ?R) ip" using assms(3) by (intro fits_ibuf_short) simp
  then obtain c where "GenerateCookie (hmac_sha1 L) (captcha_text ?R) (hashed_key C) (fst (clock st (tick st)) + 120) ip = Inr c"
    using GenerateCookie_returns [OF assms(1)] by blast
  with img assms(2) show ?thesis by (simp add: generate_html_def world_simps Let_def)
qed

lemma answer_returns:
  assumes "\<forall>k m. length (hmac_sha1 L k m) = HASH_LENGTH" and "\<not> is_captcha_url url" and "is_captcha_answer url"
    and "length url + length ip \<le> 192" and "deflect_clean parts" and "parts IP = Some ip" and "parts HOST = Some host"
    and "parts URL_WITH_HOST = Some url" and "banjax C" and "auth_ok ch"
  shows "\<exists>page r st'. generate_html L C ip t url parts ch resp st = Inr (page, r, st')"
proof -
  from assms(3) obtain n where n: "srfind ''__validate/'' url = Some n" by (auto simp: is_captcha_answer_def)
  let ?a = "drop (n + 11) url"
  have "fits_ibuf ?a ip" "fits_ibuf [] ip" using assms(4) by (auto intro!: fits_ibuf_short)
  from check_cookie_returns [OF assms(5-7) this(1) assms(9,10), of L st] GenerateCookie_returns [OF assms(1) this(2), of "hashed_key C" t]
  obtain ok st1 c where ok: "check_cookie L C ?a parts ch st = Inr (ok, st1)" and
    c: "GenerateCookie (hmac_sha1 L) [] (hashed_key C) t ip = Inr c" by blast
  obtain b st2 where "report_failure ch parts st1 = Inr (b, st2)" using report_failure_returns [OF assms(6,7)] by blast
  with ok c n assms(2,3,8) show ?thesis by (simp add: generate_html_def part_at_def Let_def)
qed

lemma page_returns:
  assumes "\<forall>k m. length (hmac_sha1 L k m) = HASH_LENGTH" and "\<not> is_captcha_url url" and "\<not> is_captcha_answer url"
    and "fits_ibuf [] ip" and "format_validity_time_for_cookie t = Inr t_str"
  shows "\<exists>page r st'. generate_html L C ip t url parts ch resp st = Inr (page, r, st')"
  using assms GenerateCookie_returns [OF assms(1,4), of "hashed_key C" t] by (auto simp: generate_html_def Let_def)

text \<open>The challenger writes every page: the image of a captcha, the reply to an answer, the page of a challenge, that
  of a banned client.\<close>

lemma challenge_page_returns:
  assumes "\<forall>k m. length (hmac_sha1 L k m) = HASH_LENGTH" and "responding_challenge resp = Some ch" and "alternative_url resp = []"
    and "deflect_clean parts" and "parts IP = Some ip" and "parts HOST = Some host" and "parts URL_WITH_HOST = Some url"
    and "banjax C" and "auth_ok ch" and "length url + length ip \<le> 192"
    and "random_ok (urandom L (Suc (tick st)))" and "word_width (random_word (urandom L (Suc (tick st)))) < 170"
    and "format_validity_time_for_cookie (fst (clock st (tick st)) + challenge_validity_period ch) = Inr t_str"
  shows "\<exists>page r st'. Challenger_generate_response L C parts resp st = Inr (page, r, st')"
proof (cases "banned_ip resp")
  case True
  then show ?thesis by (simp add: Challenger_generate_response_def)
next
  case False
  let ?t = "fst (clock st (tick st)) + challenge_validity_period ch" and ?st = "st\<lparr>tick := Suc (tick st)\<rparr>"
  have "\<exists>page r st'. generate_html L C ip ?t url parts ch resp ?st = Inr (page, r, st')"
  proof (cases "is_captcha_url url")
    case True
    then show ?thesis by (intro image_returns [OF assms(1) _ assms(10)]) (use assms(11,12) in simp_all)
  next
    case no: False
    show ?thesis
    proof (cases "is_captcha_answer url")
      case True
      then show ?thesis by (intro answer_returns [OF assms(1) no _ assms(10,4-9)])
    next
      case False
      have "fits_ibuf [] ip" using assms(10) by (intro fits_ibuf_short) simp
      from page_returns [OF assms(1) no False this assms(13)] show ?thesis .
    qed
  qed
  with False assms(2,3,5-7) show ?thesis by (simp add: Challenger_generate_response_def part_at_def world_simps)
qed

end
