(* ===== verification/TransactionLife.thy ===== *)
theory TransactionLife
  imports RequestSafety
begin

text \<open>
  A transaction from its request to its close: a request that a filter answers gets the page of that filter, and
  the handlers of the response and of the close come to an end, whatever other transactions do in between.
\<close>

section \<open>What a filter answers with\<close>

text \<open>An answer that can be turned into a page: it comes from a filter that writes pages, and one of the
  challenger says which challenge it stands for.\<close>

definition answer_ok :: "(host_challenge_spec \<Rightarrow> bool) \<Rightarrow> filters \<Rightarrow> challenge_response \<Rightarrow> bool" where
  "answer_ok P B resp \<longleftrightarrow>
     (\<exists>rd f. response_data resp = Some rd \<and> response_generator rd = Some f \<and>
        (f \<in> {REGEX_BANNER_FILTER_ID, DENIALATOR_FILTER_ID} \<or>
         f = CHALLENGER_FILTER_ID \<and> challenger_filter B \<noteq> None \<and> alternative_url rd = [] \<and>
         (\<exists>ch. responding_challenge rd = Some ch \<and> P ch)))"

lemma failure_response_answer:
  "failure_response ch ck parts st = Inr (resp, st') \<Longrightarrow>
   \<exists>rd. response_data resp = Some rd \<and> response_generator rd = Some CHALLENGER_FILTER_ID \<and> responding_challenge rd = Some ch \<and>
     alternative_url rd = []"
  by (auto simp: failure_response_def rbind_eq_Inr_iff new_extended_response_def split: if_splits)

lemma run_challenges_answer:
  "run_challenges L C parts host ip chs st = Inr (resp, st') \<Longrightarrow> response_type resp = I_RESPOND \<Longrightarrow>
   \<exists>ch \<in> set chs. \<exists>rd. response_data resp = Some rd \<and> response_generator rd = Some CHALLENGER_FILTER_ID \<and>
     responding_challenge rd = Some ch \<and> alternative_url rd = []"
proof (induction chs arbitrary: st)
  case (Cons ch chs)
  note IH = Cons.IH and F = failure_response_answer
  from Cons.prems show ?case
    by (auto simp: rbind_eq_Inr_iff custom_response_def new_extended_response_def Let_def
        split: if_splits ChallengeType.splits dest!: IH F)
qed auto

lemma challenger_answer:
  assumes "Challenger_on_http_request L C parts st = Inr (resp, st')" and "response_type resp = I_RESPOND" and "all_challenges P C st"
  shows "\<exists>ch rd. response_data resp = Some rd \<and> response_generator rd = Some CHALLENGER_FILTER_ID \<and>
     responding_challenge rd = Some ch \<and> alternative_url rd = [] \<and> P ch"
proof -
  from assms(1) obtain host ip where r: "(case select_challenges C host ip st of
       (None, st1) \<Rightarrow> Inr (plain_response GO_AHEAD_NO_COMMENT, st1)
     | (Some chs, st1) \<Rightarrow> rbind (part_at parts COOKIE) (\<lambda>_. run_challenges L C parts host ip chs st1)) = Inr (resp, st')"
    by (auto simp: Challenger_on_http_request_def rbind_eq_Inr_iff)
  obtain q st1 where q: "select_challenges C host ip st = (q, st1)" by fastforce
  with r assms(2) obtain chs where sel: "select_challenges C host ip st = (Some chs, st1)"
    and run: "run_challenges L C parts host ip chs st1 = Inr (resp, st')"
    by (cases q) (auto simp: rbind_eq_Inr_iff)
  from run_challenges_answer [OF run assms(2)] select_challenges_ok [OF assms(3) sel] show ?thesis by blast
qed

lemma filter_answer:
  assumes "filter_on_http_request E B f parts st = Inr (resp, parts', st')" and "response_type resp = I_RESPOND"
    and "f = CHALLENGER_FILTER_ID \<Longrightarrow> \<forall>C. challenger_filter B = Some C \<longrightarrow> all_challenges P C st"
  shows "answer_ok P B resp"
proof (cases "f = CHALLENGER_FILTER_ID")
  case True
  with assms(1) obtain C where C: "challenger_filter B = Some C"
    and r: "Challenger_on_http_request (lib_challenge E) (C\<lparr>ch_white_list := Some (global_ip_white_list B)\<rparr>) parts st = Inr (resp, st')"
    by (auto simp: filter_on_http_request_def rbind_eq_Inr_iff split: option.splits)
  have "all_challenges P (C\<lparr>ch_white_list := Some (global_ip_white_list B)\<rparr>) st"
    using assms(3) [OF True] C by (simp add: all_challenges_def)
  from challenger_answer [OF r assms(2) this] C show ?thesis by (auto simp: answer_ok_def)
next
  case False
  with assms(1,2) show ?thesis
    by (cases f) (auto simp: filter_on_http_request_def RegexManager_on_http_request_def Denialator_on_http_request_def
        WhiteLister_on_http_request_def rbind_eq_Inr_iff answer_ok_def generator_response_def new_extended_response_def Let_def
        case_prod_beta split: option.splits if_splits)
qed

lemma run_filters_answer:
  assumes "run_filters E B fs td st = Inr (td', st')" and "distinct fs"
    and "response_type (response_info td) \<noteq> I_RESPOND" and "response_type (response_info td') = I_RESPOND"
    and "CHALLENGER_FILTER_ID \<in> set fs \<longrightarrow> (\<forall>C. challenger_filter B = Some C \<longrightarrow> all_challenges P C st)"
  shows "answer_ok P B (response_info td')"
  using assms
proof (induction fs arbitrary: td st)
  case (Cons f fs)
  let ?parts = "cur_trans_parts (transaction_muncher td)"
  from Cons.prems(1) obtain resp parts' st1 where r: "filter_on_http_request E B f ?parts st = Inr (resp, parts', st1)"
    by (auto simp: rbind_eq_Inr_iff)
  show ?case
  proof (cases "response_type resp = I_RESPOND")
    case True
    with Cons.prems(1) r have "response_info td' = resp" by (auto simp: Let_def reenable_def)
    with filter_answer [OF r True, of P] Cons.prems(5) show ?thesis by simp
  next
    case False
    then obtain td1 where run: "run_filters E B fs td1 st1 = Inr (td', st')" and td1: "response_info td1 = response_info td"
      using Cons.prems(1,3,4) r by (auto simp: Let_def reenable_def split: ResponseType.splits)
    have "CHALLENGER_FILTER_ID \<in> set fs \<longrightarrow> (\<forall>C. challenger_filter B = Some C \<longrightarrow> all_challenges P C st1)"
      using Cons.prems(2,5) challenges_ok_dynamic [OF filter_dynamic [OF _ r]] by auto
    with Cons.IH [OF run _ _ Cons.prems(4)] Cons.prems(2,3) td1 show ?thesis by simp
  qed
qed (auto simp: reenable_def)

section \<open>The muncher of a handled transaction\<close>

lemma banjax_requests:
  assumes "new_banjax Y load E K fuel host dir b s1 s2 kc st = Some (Inr bx)"
  shows "\<forall>k\<in>set response_parts. all_filters_requested_part (bx_filters bx) AND k = 0"
    and "challenger_filter (bx_filters bx) \<noteq> None \<Longrightarrow> Challenger_requested_info AND k \<noteq> 0 \<Longrightarrow>
      all_filters_requested_part (bx_filters bx) AND k \<noteq> 0"
proof -
  from assms obtain c pm st1 B st2 kc' producer where
    "config_ok c" "order_filters Y c = Inr pm" and
    "Swabber_load_config Y (swabber_conf c) (new_swabber s1 (empty_tables host st)) = Inr st1" and
    b: "build_filters Y E dir s2 (filter_config_map c) pm (no_filters, st1) = Inr (B, st2)" and
    "setup_kafka Y K b (kafka_conf c) kc = Inr (kc', producer)" and
    "bx_config bx = c" "bx_priority_map bx = pm" and d: "bx_filters bx = B" and
    "bx_consumer bx = kc'" "bx_state bx = st2\<lparr>kafka_producer := producer \<noteq> None\<rparr>"
    by (rule new_banjax_built)
  from build_filters_result [OF b] obtain fs where fs: "\<forall>g. filter_made B g \<longleftrightarrow> g \<in> set fs"
    "all_filters_requested_part B = fold (\<lambda>f m. m OR requested_info f) fs 0"
    unfolding no_filters_sel by auto
  have "requested_info f AND k = 0" if "k \<in> set response_parts" for f k
    using that by (cases f) (auto simp: requested_info_def RegexManager_requested_info_def Challenger_requested_info_def
        BotSniffer_requested_info_def WhiteLister_requested_info_def Denialator_requested_info_def response_parts_def part_numbers)
  note none = this
  show "\<forall>k\<in>set response_parts. all_filters_requested_part (bx_filters bx) AND k = 0"
  proof (rule ballI, rule ccontr)
    fix k assume k: "k \<in> set response_parts" "all_filters_requested_part (bx_filters bx) AND k \<noteq> 0"
    from k(2) obtain f where "requested_info f AND k \<noteq> 0" unfolding d fs(2) fold_or_covers by auto
    with none [OF k(1)] show False by simp
  qed
  show "all_filters_requested_part (bx_filters bx) AND k \<noteq> 0"
    if "challenger_filter (bx_filters bx) \<noteq> None" "Challenger_requested_info AND k \<noteq> 0"
  proof -
    have "filter_made B CHALLENGER_FILTER_ID" using that(1) by (simp add: d filter_made_def)
    then have "CHALLENGER_FILTER_ID \<in> set fs" using fs(1) by blast
    moreover have "requested_info CHALLENGER_FILTER_ID = Challenger_requested_info" by (simp add: requested_info_def)
    ultimately have "\<exists>f\<in>set fs. requested_info f AND k \<noteq> 0" using that(2) by (intro bexI) simp_all
    then show ?thesis unfolding d fs(2) by (subst fold_or_covers) blast
  qed
qed

text \<open>The muncher of transaction \<open>t\<close> once the request was handled: everything the filters ask for is marked, and
  the parts of the request have their values.\<close>

definition munched :: "filters \<Rightarrow> txn \<Rightarrow> muncher \<Rightarrow> bool" where
  "munched B t m \<longleftrightarrow>
     muncher_inv m \<and> NOT (valid_parts m) AND all_filters_requested_part B = 0 \<and>
     resp_get (trans_txnp m) = resp_get t \<and> url_host_set (trans_txnp m) = url_host_set t \<and>
     (\<forall>k\<in>set request_parts. all_filters_requested_part B AND k \<noteq> 0 \<longrightarrow> cur_trans_parts m k = part_ref t k \<and> part_ref t k \<noteq> None)"

lemma munched_retrieve: "munched B t m \<Longrightarrow> retrieve_parts (all_filters_requested_part B) m = Inr m"
  by (subst retrieve_parts_unfold) (simp add: munched_def)

lemma munched_mono:
  assumes "munched B t m" and "muncher_inv m'" and "cur_trans_parts m |` set request_parts \<subseteq>\<^sub>m cur_trans_parts m'"
    and "valid_parts m AND valid_parts m' = valid_parts m"
    and "resp_get (trans_txnp m') = resp_get (trans_txnp m)" and "url_host_set (trans_txnp m') = url_host_set (trans_txnp m)"
  shows "munched B t m'"
proof -
  have "NOT (valid_parts m') AND r = 0" if "NOT (valid_parts m) AND r = 0" for r :: "64 word"
  proof -
    have "NOT (valid_parts m') AND r = NOT (valid_parts m') AND (NOT (valid_parts m) AND r)"
      using assms(4) by (auto simp: bit_eq_iff bit_simps) 
    with that show ?thesis by simp
  qed
  moreover have "cur_trans_parts m' k = cur_trans_parts m k" if "k \<in> set request_parts" "cur_trans_parts m k \<noteq> None" for k
  proof -
    have "k \<in> dom (cur_trans_parts m |` set request_parts)" using that by auto
    with assms(3) have "(cur_trans_parts m |` set request_parts) k = cur_trans_parts m' k" unfolding map_le_def by blast
    with that(1) show ?thesis by simp
  qed
  ultimately show ?thesis using assms(1,2,5,6) unfolding munched_def by simp
qed

text \<open>Filters read parts with \<open>operator[]\<close> at most.\<close>

lemma regex_parts_inv:
  assumes "muncher_inv m"
  shows "muncher_inv (m\<lparr>cur_trans_parts := regex_parts (cur_trans_parts m)\<rparr>)"
proof -
  have read: "muncher_inv (m\<lparr>cur_trans_parts := snd (part_index p k)\<rparr>)"
    if "muncher_inv (m\<lparr>cur_trans_parts := p\<rparr>)" "k \<noteq> VALIDITY_STAT" for p k
  proof -
    have "muncher_step (m\<lparr>cur_trans_parts := p\<rparr>) (Part_Read k) (m\<lparr>cur_trans_parts := snd (part_index p k)\<rparr>)"
      using step_read [OF that(2), of "m\<lparr>cur_trans_parts := p\<rparr>"] by simp
    from munch.inv_step [OF that(1) this] show ?thesis .
  qed
  have "muncher_inv (m\<lparr>cur_trans_parts := cur_trans_parts m\<rparr>)" using assms by simp
  then show ?thesis
    by (simp add: regex_parts_def) (intro read; simp add: part_numbers)
qed

lemma filter_munched:
  assumes "filter_on_http_request E B f (cur_trans_parts m) st = Inr (resp, parts', st')" and "munched B t m"
  shows "munched B t (m\<lparr>cur_trans_parts := parts'\<rparr>)"
proof (rule munched_mono [OF assms(2)])
  have "parts' = cur_trans_parts m \<or> parts' = regex_parts (cur_trans_parts m)"
    using assms(1)
    by (cases f) (auto simp: filter_on_http_request_def rbind_eq_Inr_iff dest!: regex_frame split: option.splits if_splits)
  with assms(2) regex_parts_inv show "muncher_inv (m\<lparr>cur_trans_parts := parts'\<rparr>)" by (auto simp: munched_def)
  show "cur_trans_parts m |` set request_parts \<subseteq>\<^sub>m cur_trans_parts (m\<lparr>cur_trans_parts := parts'\<rparr>)"
    using filter_frame [OF assms(1)] by (auto simp: map_le_def restrict_map_def)
qed simp_all

lemma run_filters_munched:
  "run_filters E B fs td st = Inr (td', st') \<Longrightarrow> munched B t (transaction_muncher td) \<Longrightarrow> munched B t (transaction_muncher td')"
proof (induction fs arbitrary: td st)
  case (Cons f fs)
  from Cons.prems(1) obtain resp parts' st1 where
    r: "filter_on_http_request E B f (cur_trans_parts (transaction_muncher td)) st = Inr (resp, parts', st1)"
    by (auto simp: rbind_eq_Inr_iff)
  from filter_munched [OF r Cons.prems(2)] Cons.prems(1) r show ?case
    by (auto simp: Let_def reenable_def dest!: Cons.IH split: ResponseType.splits)
qed (auto simp: reenable_def)

lemma request_munched:
  assumes "handle_request E B (new_transaction_data t store_ok set_ok) st = Inr (td', st')"
    and "\<forall>k\<in>set response_parts. all_filters_requested_part B AND k = 0" and "\<forall>h. url_host_set t h"
  shows "munched B t (transaction_muncher td')"
proof -
  let ?r = "all_filters_requested_part B"
  from assms(1) obtain m where m: "retrieve_parts ?r (new_muncher t) = Inr m"
    and run: "run_filters E B (task_queues B HTTP_REQUEST) ((new_transaction_data t store_ok set_ok)\<lparr>transaction_muncher := m\<rparr>) st = Inr (td', st')"
    by (auto simp: handle_request_def rbind_eq_Inr_iff new_transaction_data_def)
  have t: "trans_txnp (new_muncher t) = t" by (simp add: new_muncher_def update_validity_status_def)
  note g = retrieve_parts_grows [OF m new_muncher_inv]
  have "cur_trans_parts m k = part_ref t k \<and> part_ref t k \<noteq> None" if "k \<in> set request_parts" "?r AND k \<noteq> 0" for k
  proof -
    have "\<exists>v. cur_trans_parts m k = Some v" using parts_of_fresh_muncher [OF m that] assms(3) by blast
    then obtain v where "cur_trans_parts m k = Some v" by blast
    moreover have "k \<noteq> VALIDITY_STAT" using that(1) by (auto simp: request_parts_def part_numbers)
    ultimately show ?thesis using fresh_part_value [OF m] by simp
  qed
  moreover have "NOT (valid_parts m) AND ?r = 0"
    using g by (auto simp: bit_eq_iff bit_simps)
  moreover have "resp_get (trans_txnp m) = resp_get t" "url_host_set (trans_txnp m) = url_host_set t"
    using retrieve_parts_txn [OF m] t by auto
  ultimately have "munched B t m" using retrieve_parts_inv [OF new_muncher_inv m assms(2)] by (simp add: munched_def)
  with run_filters_munched [OF run] show ?thesis by simp
qed

section \<open>The response\<close>

text \<open>What the pages need of the libraries: digests of the right length and random words that fit the image. And
  of a challenge: its password hash is long enough, and its expiry can be printed.\<close>

definition lib_serves :: "challenge_lib \<Rightarrow> bool" where
  "lib_serves L \<longleftrightarrow> (\<forall>k m. length (hmac_sha1 L k m) = HASH_LENGTH) \<and>
     (\<forall>n. random_ok (urandom L n) \<and> word_width (random_word (urandom L n)) < 170)"

definition servable :: "(nat \<Rightarrow> int \<times> int) \<Rightarrow> host_challenge_spec \<Rightarrow> bool" where
  "servable clk ch \<longleftrightarrow> auth_ok ch \<and> (\<forall>n. \<exists>s. format_validity_time_for_cookie (fst (clk n) + challenge_validity_period ch) = Inr s)"

lemma munched_step:
  assumes "munched B t m" and "muncher_step m e m'" and "cur_trans_parts m' = cur_trans_parts m" and "valid_parts m' = valid_parts m"
    and "resp_get (trans_txnp m') = resp_get (trans_txnp m)" and "url_host_set (trans_txnp m') = url_host_set (trans_txnp m)"
  shows "munched B t m'"
  using assms munch.inv_step [OF _ assms(2)] by (intro munched_mono [OF assms(1)]) (auto simp: munched_def map_le_def restrict_map_def)

lemma set_status_munched:
  assumes "munched B t m" and "resp_get t"
  shows "\<exists>m'. set_status reason s m = Inr m' \<and> munched B t m'"
proof -
  from assms obtain m' where m': "set_status reason s m = Inr m'"
    by (cases "response_header m") (auto simp: set_status_def need_response_header_def retrieve_response_header_def munched_def)
  have "resp_get (trans_txnp m') = resp_get (trans_txnp m)"
    using m' by (auto simp: set_status_def rbind_eq_Inr_iff dest!: need_response_header_frame)
  with response_changed_frame [OF disjI1 [OF m']] munched_step [OF assms(1) step_status [OF m']] m' show ?thesis by blast
qed

lemma append_header_munched:
  assumes "munched B t m" and "resp_get t"
  shows "\<exists>m'. append_header n v m = Inr m' \<and> munched B t m'"
proof -
  from assms obtain m' where m': "append_header n v m = Inr m'"
    by (cases "response_header m") (auto simp: append_header_def need_response_header_def retrieve_response_header_def munched_def Let_def)
  have "resp_get (trans_txnp m') = resp_get (trans_txnp m)"
    using m' by (cases "field_create (trans_txnp m) (fields_created (trans_txnp m))")
      (auto simp: append_header_def rbind_eq_Inr_iff Let_def dest!: need_response_header_frame)
  with response_changed_frame [OF disjI2 [OF m']] munched_step [OF assms(1) step_header [OF m']] m' show ?thesis by blast
qed

lemma append_headers_munched:
  "munched B t m \<Longrightarrow> resp_get t \<Longrightarrow> \<exists>m'. append_headers hs m = Inr m' \<and> munched B t m'"
proof (induction hs arbitrary: m)
  case (Cons h hs)
  obtain n v where h: "h = (n, v)" by (cases h)
  from append_header_munched [OF Cons.prems] obtain m1 where "append_header n v m = Inr m1" "munched B t m1" by blast
  with Cons.IH [of m1] Cons.prems(2) h show ?case by simp
qed simp

lemma retrieve_response_parts_frame:
  assumes "retrieve_response_parts r m = Inr m'"
  shows "trans_txnp m' = trans_txnp m \<and> (\<forall>k\<in>set request_parts. cur_trans_parts m' k = cur_trans_parts m k) \<and>
    (\<exists>v. valid_parts m' = valid_parts m OR v)"
proof (cases "NOT (valid_parts m) AND r = 0")
  case True
  with assms show ?thesis by (auto simp: retrieve_response_parts_def intro: exI [of _ 0])
next
  case False
  with assms obtain m0 where m0: "need_response_header m = Inr m0"
    by (auto simp: retrieve_response_parts_def rbind_eq_Inr_iff Let_def)
  let ?a = "if (NOT (valid_parts m) AND r) AND STATUS \<noteq> 0 then STATUS else 0"
  let ?b = "if (NOT (valid_parts m) AND r) AND CONTENT_LENGTH \<noteq> 0 then CONTENT_LENGTH else 0"
  have "trans_txnp m' = trans_txnp m \<and> valid_parts m' = valid_parts m OR (?a OR ?b)"
    using assms False m0 need_response_header_frame [OF m0]
    by (auto simp: retrieve_response_parts_def update_validity_status_def Let_def or.assoc)
  moreover have "\<forall>k\<in>set request_parts. cur_trans_parts m' k = cur_trans_parts m k"
    using assms False m0 need_response_header_frame [OF m0]
    by (auto simp: retrieve_response_parts_def update_validity_status_def Let_def request_parts_def part_numbers)
  ultimately show ?thesis by blast
qed

lemma response_parts_munched:
  assumes "munched B t m" and "resp_get t"
  shows "\<exists>status m1 m2. get_response_status m = Inr (status, m1) \<and> retrieve_response_parts r m1 = Inr m2 \<and> munched B t m2"
proof -
  have rg: "resp_get (trans_txnp m)" using assms by (simp add: munched_def)
  define m1 where "m1 = m\<lparr>response_header := True\<rparr>"
  have m1: "get_response_status m = Inr (resp_status (trans_txnp m), m1)"
    using rg by (auto simp: get_response_status_def need_response_header_def retrieve_response_header_def m1_def)
  have "muncher_inv m1 = muncher_inv m" by (auto simp: m1_def muncher_inv_def host_settable_def)
  with assms(1) have k1: "munched B t m1" by (simp add: m1_def munched_def)
  have "need_response_header m1 = Inr m1" by (simp add: need_response_header_def m1_def)
  then obtain m2 where m2: "retrieve_response_parts r m1 = Inr m2"
    by (cases "NOT (valid_parts m1) AND r = 0") (auto simp: retrieve_response_parts_def Let_def)
  note same = retrieve_response_parts_frame [OF m2]
  have "cur_trans_parts m1 |` set request_parts \<subseteq>\<^sub>m cur_trans_parts m2" using same by (auto simp: map_le_def restrict_map_def)
  moreover have "valid_parts m1 AND valid_parts m2 = valid_parts m1" using same by (auto simp: bit_eq_iff bit_simps)
  ultimately have "munched B t m2"
    using k1 same retrieve_response_parts_inv [OF _ m2] by (intro munched_mono [OF k1]) (simp_all add: munched_def)
  with m1 m2 show ?thesis by blast
qed

text \<open>Requests whose pages can be written: the \<open>deflect\<close> cookie is base64, and the url is short enough for an answer
  in it to fit the digest's buffer. And filters that are put together as Banjax does it.\<close>

definition simple_request :: "txn \<Rightarrow> bool" where
  "simple_request t \<longleftrightarrow> deflect_clean (part_ref t) \<and> (\<forall>url. part_ref t URL_WITH_HOST = Some url \<longrightarrow> length url \<le> 177)"

definition filters_wired :: "filters \<Rightarrow> bool" where
  "filters_wired B \<longleftrightarrow> challenger_wired B \<and> distinct (task_queues B HTTP_REQUEST) \<and>
     (\<forall>k\<in>set response_parts. all_filters_requested_part B AND k = 0) \<and>
     (challenger_filter B \<noteq> None \<longrightarrow> (\<forall>k. Challenger_requested_info AND k \<noteq> 0 \<longrightarrow> all_filters_requested_part B AND k \<noteq> 0))"

definition pages_ok :: "libs \<Rightarrow> filters \<Rightarrow> txn \<Rightarrow> bool" where
  "pages_ok E B t \<longleftrightarrow> (challenger_filter B \<noteq> None \<longrightarrow> simple_request t \<and> lib_serves (lib_challenge E))"

lemma generate_html_keeps:
  "generate_html L C ip tm url parts ch resp st = Inr (page, r, st') \<Longrightarrow>
   response_generator r = response_generator resp \<and> responding_challenge r = responding_challenge resp \<and>
   alternative_url r = alternative_url resp"
  by (cases "is_captcha_url url"; cases "is_captcha_answer url")
     (auto simp: generate_html_def rbind_eq_Inr_iff set_content_type_def Let_def case_prod_beta split: if_splits)

lemma generate_response_keeps:
  "generate_response E B parts rd st = Inr (page, r, st') \<Longrightarrow>
   response_generator r = response_generator rd \<and> responding_challenge r = responding_challenge rd \<and>
   alternative_url r = alternative_url rd"
  by (auto simp: generate_response_def Challenger_generate_response_def rbind_eq_Inr_iff Let_def case_prod_beta
      dest!: generate_html_keeps split: option.splits FilterIDType.splits if_splits)

lemma page_for_answer:
  assumes "munched B t m" and "filters_wired B" and "pages_ok E B t"
    and "answer_ok (servable (clock st)) B resp" and "response_data resp = Some rd"
  shows "\<exists>page rd' st'. generate_response E B (cur_trans_parts m) rd st = Inr (page, rd', st')"
proof -
  from assms(4,5) obtain f where f: "response_generator rd = Some f" and
    kind: "f \<in> {REGEX_BANNER_FILTER_ID, DENIALATOR_FILTER_ID} \<or>
       f = CHALLENGER_FILTER_ID \<and> challenger_filter B \<noteq> None \<and> alternative_url rd = [] \<and>
       (\<exists>ch. responding_challenge rd = Some ch \<and> servable (clock st) ch)" by (auto simp: answer_ok_def)
  show ?thesis
  proof (cases "f = CHALLENGER_FILTER_ID")
    case False
    with kind f show ?thesis by (auto simp: generate_response_def)
  next
    case True
    with kind obtain C ch where C: "challenger_filter B = Some C" and ch: "responding_challenge rd = Some ch" "servable (clock st) ch"
      and alt: "alternative_url rd = []" by auto
    from assms(3) C have ok: "simple_request t" "lib_serves (lib_challenge E)" by (simp_all add: pages_ok_def)
    let ?p = "cur_trans_parts m" and ?C = "C\<lparr>ch_white_list := Some (global_ip_white_list B)\<rparr>" and ?L = "lib_challenge E"
    have val: "?p k = part_ref t k \<and> part_ref t k \<noteq> None" if "k \<in> {IP, HOST, URL_WITH_HOST, COOKIE}" for k
    proof -
      have "Challenger_requested_info AND k \<noteq> 0" "k \<in> set request_parts"
        using that by (auto simp: Challenger_requested_info_def request_parts_def part_numbers)
      with assms(1,2) C show ?thesis by (simp add: munched_def filters_wired_def)
    qed
    from val obtain ip host url where p: "?p IP = Some ip" "?p HOST = Some host" "?p URL_WITH_HOST = Some url"
      "part_ref t IP = Some ip" "part_ref t URL_WITH_HOST = Some url" by (metis insertCI not_None_eq)
    have clean: "deflect_clean ?p" using ok(1) val [of COOKIE] by (simp add: simple_request_def deflect_clean_def)
    have short: "length url + length ip \<le> 192" using client_ip_short [OF p(4)] p(5) ok(1) by (fastforce simp: simple_request_def)
    have lib: "\<forall>k m. length (hmac_sha1 ?L k m) = HASH_LENGTH" "random_ok (urandom ?L n)" "word_width (random_word (urandom ?L n)) < 170" for n
      using ok(2) by (simp_all add: lib_serves_def)
    have bx: "banjax ?C" using assms(2) C by (simp add: filters_wired_def challenger_wired_def)
    from ch(2) obtain s where s: "auth_ok ch" "format_validity_time_for_cookie (fst (clock st (tick st)) + challenge_validity_period ch) = Inr s"
      by (auto simp: servable_def)
    have "\<exists>page rd' st'. Challenger_generate_response ?L ?C ?p rd st = Inr (page, rd', st')"
      by (rule challenge_page_returns [OF lib(1) ch(1) alt clean p(1-3) bx s(1) short lib(2,3) s(2)])
    then show ?thesis using f True C by (simp add: generate_response_def)
  qed
qed

text \<open>The state of a transaction between the handlers.\<close>

definition in_life :: "(host_challenge_spec \<Rightarrow> bool) \<Rightarrow> filters \<Rightarrow> txn \<Rightarrow> transaction_data \<Rightarrow> bool" where
  "in_life P B t td \<longleftrightarrow> munched B t (transaction_muncher td) \<and>
     (response_type (response_info td) = I_RESPOND \<longrightarrow> answer_ok P B (response_info td))"

definition answered :: "transaction_data \<Rightarrow> bool" where
  "answered td \<longleftrightarrow> response_type (response_info td) = I_RESPOND"

definition body_sent :: "transaction_data \<Rightarrow> bool" where
  "body_sent td \<longleftrightarrow> (\<exists>body ct. error_body td = Some (body, ct) \<and> body \<noteq> [])"

lemma set_error_body_sel [simp]:
  "transaction_muncher (set_error_body b td) = transaction_muncher td"
  "response_type (response_info (set_error_body b td)) = response_type (response_info td)"
  "answer_ok P B (response_info (set_error_body b td)) = answer_ok P B (response_info td)"
  "b \<noteq> [] \<Longrightarrow> body_sent (set_error_body b td)"
  by (auto simp: set_error_body_def get_and_release_content_type_def answer_ok_def body_sent_def split: option.split)

lemma reenable_sel [simp]:
  "transaction_muncher (reenable e td) = transaction_muncher td" "response_info (reenable e td) = response_info td"
  "body_sent (reenable e td) = body_sent td"
  by (simp_all add: reenable_def body_sent_def)

lemma respond_served:
  assumes "in_life (servable (clock st)) B t td" and "answered td" and "filters_wired B" and "pages_ok E B t"
    and "resp_get t"
  shows "\<exists>td' st'. respond E B td st = Inr (td', st') \<and> in_life (servable (clock st)) B t td' \<and> answered td' \<and> body_sent td'"
proof -
  let ?m = "transaction_muncher td" and ?P = "servable (clock st)"
  have k: "munched B t ?m" and a: "answer_ok ?P B (response_info td)" using assms(1,2) by (simp_all add: in_life_def answered_def)
  from a obtain rd where rd: "response_data (response_info td) = Some rd" by (auto simp: answer_ok_def)
  obtain m1 where m1: "set_status (lib_reasons E) TS_HTTP_STATUS_GATEWAY_TIMEOUT ?m = Inr m1" "munched B t m1"
    using set_status_munched [OF k assms(5)] by blast
  note m2 = munched_retrieve [OF m1(2)]
  obtain page rd1 st1 where g: "generate_response E B (cur_trans_parts m1) rd st = Inr (page, rd1, st1)"
    using page_for_answer [OF m1(2) assms(3,4) a rd] by blast
  obtain m3 where m3: "set_status (lib_reasons E) (response_code rd1) m1 = Inr m3" "munched B t m3"
    using set_status_munched [OF m1(2) assms(5)] by blast
  obtain m4 where m4: "append_headers ((if set_cookie_header rd1 \<noteq> [] then [(''Set-Cookie'', cstr (set_cookie_header rd1))] else []) @
      no_cache_headers) m3 = Inr m4" "munched B t m4"
    using append_headers_munched [OF m3(2) assms(5)] by blast
  let ?td1 = "td\<lparr>transaction_muncher := m4, response_info := (response_info td)\<lparr>response_data := Some rd1\<rparr>\<rparr>"
  have "respond E B td st = Inr (reenable HTTP_CONTINUE (set_error_body (if page = [] then ''Not authorized'' else page) ?td1), st1)"
    unfolding respond_def rd option.case m1(1) rbind_simps m2 g prod.case m3(1) m4(1) Let_def ..
  moreover have "answer_ok ?P B (response_info ?td1)"
    using a rd generate_response_keeps [OF g] by (simp add: answer_ok_def)
  ultimately show ?thesis using m4(2) assms(2) by (simp add: in_life_def answered_def)
qed

lemma response_served:
  assumes "in_life (servable (clock st)) B t td" and "filters_wired B" and "pages_ok E B t"
    and "resp_get t"
  shows "\<exists>td' st'. handle_response E B td st = Inr (td', st') \<and> in_life (servable (clock st)) B t td' \<and>
    (answered td' = answered td) \<and> (answered td \<longrightarrow> body_sent td')"
proof -
  have k: "munched B t (transaction_muncher td)" using assms(1) by (simp add: in_life_def)
  obtain status m1 m2 where m: "get_response_status (transaction_muncher td) = Inr (status, m1)"
    "retrieve_response_parts (all_filters_response_part B) m1 = Inr m2" and k2: "munched B t m2"
    using response_parts_munched [OF k assms(4)] by blast
  let ?td = "td\<lparr>transaction_muncher := m2\<rparr>"
  have l: "in_life (servable (clock st)) B t ?td" "answered ?td = answered td" using assms(1) k2 by (simp_all add: in_life_def answered_def)
  show ?thesis
  proof (cases "answered td")
    case True
    then have "handle_response E B td st = respond E B ?td st" using m by (simp add: handle_response_def answered_def Let_def)
    with respond_served [OF l(1) _ assms(2-4)] l(2) True show ?thesis by simp
  next
    case False
    then show ?thesis using m l by (auto simp: handle_response_def in_life_def answered_def Let_def)
  qed
qed

section \<open>The close\<close>

text \<open>What is documented of the lengths of AES-GCM: the update gives as many bytes as it gets, and the final step at
  most a block.\<close>

definition gcm_lengths :: "gcm_lib \<Rightarrow> bool" where
  "gcm_lengths G \<longleftrightarrow> (\<forall>key iv p c. evp_encrypt_update G key iv p = Some c \<longrightarrow> length c = length p) \<and>
     (\<forall>key iv p f. evp_encrypt_final G key iv p = Some f \<longrightarrow> length f \<le> c_cipher_block_size)"

lemma encrypted_frame_error:
  assumes "gcm_lengths G" and "encrypted_frame G n mess key = Inl e"
  shows "e = EncryptionError"
proof -
  let ?space = "length mess + c_cipher_block_size - 1 + c_gcm_tag_size"
  have enc: "e' = EncryptionError" if "gcm_encrypt G ?space mess key iv = Inl e'" for iv e'
  proof -
    have "length c + length f \<le> ?space" if "evp_encrypt_update G key iv mess = Some c" "evp_encrypt_final G key iv mess = Some f" for c f
    proof -
      have "length c = length mess" "length f \<le> c_cipher_block_size" using assms(1) that unfolding gcm_lengths_def by blast+
      then show ?thesis by (simp add: gcm_sizes)
    qed
    with that show ?thesis by (fastforce simp: gcm_encrypt_def split: option.splits if_splits)
  qed
  have len: "len = length mess" if "gcm_encrypt G ?space mess key iv = Inr (c, len, tag)" for iv c len tag
    using that assms(1) by (auto simp: gcm_encrypt_def gcm_lengths_def split: option.splits if_splits)
  show ?thesis
  proof (cases "rand_bytes G n")
    case (Some iv)
    show ?thesis
    proof (cases "gcm_encrypt G ?space mess key (take c_gcm_iv_size iv)")
      case (Inl e')
      with Some assms(2) enc [OF Inl] show ?thesis by (simp add: encrypted_frame_def Let_def)
    next
      case (Inr r)
      obtain c l tag where r: "r = (c, l, tag)" by (cases r)
      with Inr len have "l = length mess" by blast
      moreover have "\<not> length mess + c_cipher_block_size - 1 < length mess" by (simp add: gcm_sizes)
      ultimately show ?thesis using Some assms(2) Inr r by (auto simp: encrypted_frame_def Let_def split: if_splits)
    qed
  qed (use assms(2) in \<open>simp add: encrypted_frame_def\<close>)
qed

lemma valid_or_empty_error:
  assumes "muncher_inv m" and "host_settable m" and "k \<in> set (request_parts @ response_parts)"
    and "valid_or_empty (valid_parts m) (cur_trans_parts m) k = Inl e"
  shows "e = LengthError"
proof -
  have "valid_parts m AND k \<noteq> 0" using assms(4) by (auto simp: valid_or_empty_def split: if_splits)
  with assms(1-3) obtain v where "cur_trans_parts m k = Some v" by (auto simp: muncher_inv_def)
  with assms(4) show ?thesis by (auto simp: valid_or_empty_def part_at_def Encode_def split: if_splits)
qed

lemma sniffer_line_error:
  assumes "muncher_inv m" and "host_settable m" and "sniffer_line (cur_trans_parts m) (valid_parts m) tm = Inl e"
  shows "e = LengthError"
proof -
  have k: "{IP, URL_WITH_HOST, PROTOCOL, STATUS, CONTENT_LENGTH, UA} \<subseteq> set (request_parts @ response_parts)"
    by (auto simp: request_parts_def response_parts_def)
  have enc: "Encode s = Inl e' \<Longrightarrow> e' = LengthError" for s e' by (simp add: Encode_def split: if_splits)
  have "valid_or_empty (valid_parts m) (cur_trans_parts m) j = Inl e' \<Longrightarrow> e' = LengthError"
    if "j \<in> {IP, URL_WITH_HOST, PROTOCOL, STATUS, CONTENT_LENGTH, UA}" for j e'
    using valid_or_empty_error [OF assms(1,2)] k that by blast
  with assms(3) show ?thesis unfolding sniffer_line_def by (auto simp: rbind_eq_Inl_iff dest: enc)
qed

lemma close_error:
  assumes "gcm_lengths G" and "muncher_inv m" and "host_settable m" and "BotSniffer_on_http_close G (cur_trans_parts m) st = Inl e"
  shows "e \<in> {LengthError, EncryptionError}"
proof -
  have "cur_trans_parts m VALIDITY_STAT = Some (int_bytes 8 (uint (valid_parts m)))" using assms(2) by (simp add: muncher_inv_def)
  with assms(4) show ?thesis
    by (auto simp: BotSniffer_on_http_close_def part_at_def validity_marks_of_word send_zmq_encrypted_message_def rbind_eq_Inl_iff
        case_prod_beta Let_def dest: sniffer_line_error [OF assms(2,3)] encrypted_frame_error [OF assms(1)] split: if_splits)
qed

lemma close_filters_error:
  "gcm_lengths (lib_gcm E) \<Longrightarrow> muncher_inv m \<Longrightarrow> host_settable m \<Longrightarrow> close_filters E B fs (cur_trans_parts m) st = Inl e \<Longrightarrow>
   e \<in> {LengthError, EncryptionError}"
proof (induction fs arbitrary: st)
  case (Cons f fs)
  from Cons.prems(4) show ?case
    using close_error [OF Cons.prems(1-3)] Cons.IH [OF Cons.prems(1-3)]
    by (auto simp: rbind_eq_Inl_iff filter_on_http_close_def split: if_splits)
qed simp

section \<open>A transaction to its end\<close>

text \<open>What can happen to a transaction between its request and its close. Each handler finds the shared state as other
  transactions have left it, so that state is any state with the same clock.\<close>

inductive transaction_step :: "libs \<Rightarrow> filters \<Rightarrow> (nat \<Rightarrow> int \<times> int) \<Rightarrow> transaction_data \<Rightarrow> ts_hook \<Rightarrow> transaction_data \<Rightarrow> bool"
  for E B clk where
  step_event: "handle_transaction_change E B event td (st :: sniffer_state) = Inr (td', st') \<Longrightarrow> clock st = clk \<Longrightarrow>
     event \<in> {READ_CACHE_HDR, SEND_REQUEST_HDR, SEND_RESPONSE_HDR} \<Longrightarrow> transaction_step E B clk td event td'"

inductive_cases transaction_stepE: "transaction_step E B clk td e td'"

lemma miss_munched: "munched B t m \<Longrightarrow> munched B t (miss m)"
proof -
  assume m: "munched B t m"
  have "muncher_inv (miss m)" using m munch.inv_step [OF _ step_miss] by (simp add: munched_def)
  then show ?thesis
    by (rule munched_mono [OF m]) (auto simp: miss_def map_le_def restrict_map_def request_parts_def part_numbers)
qed

interpretation life: trace_invariant "transaction_step E B clk"
  "\<lambda>_ td. (filters_wired B \<and> pages_ok E B t \<and> resp_get t) \<and> in_life (servable clk) B t td \<and> answered td = a" for E B clk t a
proof unfold_locales
  fix es :: "ts_hook list" and td e td'
  assume inv: "(filters_wired B \<and> pages_ok E B t \<and> resp_get t) \<and> in_life (servable clk) B t td \<and> answered td = a"
    and step: "transaction_step E B clk td e td'"
  from step show "(filters_wired B \<and> pages_ok E B t \<and> resp_get t) \<and> in_life (servable clk) B t td' \<and> answered td' = a"
  proof (cases rule: transaction_step.cases)
    case (step_event st st')
    consider "e = READ_CACHE_HDR" | "e = SEND_REQUEST_HDR" | (response) "e = SEND_RESPONSE_HDR" using step_event(3) by blast
    then show ?thesis
    proof cases
      case response
      with step_event(1) have r: "handle_response E B td st = Inr (td', st')" by (simp add: handle_transaction_change_def)
      from inv step_event(2) have "in_life (servable (clock st)) B t td" by simp
      from response_served [OF this, of E] inv r step_event(2) show ?thesis by auto
    qed (use inv step_event(1) in \<open>auto simp: handle_transaction_change_def in_life_def answered_def intro: miss_munched\<close>)
  qed
qed

lemma banjax_filters_wired:
  assumes "new_banjax Y load E K fuel host dir b s1 s2 kc st = Some (Inr bx)"
  shows "filters_wired (bx_filters bx)"
  using new_banjax_wired [OF assms] banjax_requests [OF assms] by (simp add: filters_wired_def)

text \<open>C5: A transaction comes to its end. Take an accepted configuration and a request that was handled. Whatever the server
  calls for it afterwards, and whatever other transactions do to the tables in between: the handler of the response
  returns, and if a filter answered the request, it has set a body that is not empty; whether the request counts as
  answered does not change; and the close can only fail if OpenSSL fails or a part is too long to be encoded. With the challenger
  this is so for requests with a \<open>deflect\<close> cookie in base64 and an url of at most 177 characters, when random
  words fit the captcha's image and expiry dates can be printed.\<close>

theorem transactions_run_to_their_end:
  fixes st s :: sniffer_state
  assumes "new_banjax Y load_file E K fuel host dir b s1 s2 kc st0 = Some (Inr bx)"
    and "handle_request E (bx_filters bx) (new_transaction_data t store_ok set_ok) st = Inr (td0, st')"
    and "\<forall>C. challenger_filter (bx_filters bx) = Some C \<longrightarrow> all_challenges (servable clk) C st"
    and "\<forall>h. url_host_set t h" and "resp_get t" and "pages_ok E (bx_filters bx) t" and "gcm_lengths (lib_gcm E)"
    and "run (transaction_step E (bx_filters bx) clk) td0 es td" and "clock s = clk"
  shows "(\<exists>td' s'. handle_transaction_change E (bx_filters bx) SEND_RESPONSE_HDR td s = Inr (td', s') \<and> (answered td0 \<longrightarrow> body_sent td')) \<and>
    answered td = answered td0 \<and>
    (\<forall>e. handle_transaction_change E (bx_filters bx) TXN_CLOSE td s = Inl e \<longrightarrow> e \<in> {LengthError, EncryptionError})"
proof -
  let ?B = "bx_filters bx"
  note w = banjax_filters_wired [OF assms(1)]
  from assms(2) obtain m where
    run: "run_filters E ?B (task_queues ?B HTTP_REQUEST) ((new_transaction_data t store_ok set_ok)\<lparr>transaction_muncher := m\<rparr>) st = Inr (td0, st')"
    by (auto simp: handle_request_def rbind_eq_Inr_iff)
  have "munched ?B t (transaction_muncher td0)"
    by (rule request_munched [OF assms(2)]) (use w assms(4) in \<open>simp_all add: filters_wired_def\<close>)
  moreover have "answer_ok (servable clk) ?B (response_info td0)" if "answered td0"
    using run_filters_answer [OF run, of "servable clk"] that w assms(3) by (simp add: answered_def filters_wired_def new_transaction_data_def)
  ultimately have "in_life (servable clk) ?B t td0" by (simp add: in_life_def answered_def)
  with life.inv_run [OF assms(8), of t "answered td0"] w assms(5,6)
  have l: "in_life (servable (clock s)) ?B t td" and a: "answered td = answered td0" by (simp_all add: assms(9))
  have m: "munched ?B t (transaction_muncher td)" using l by (simp add: in_life_def)
  then have "muncher_inv (transaction_muncher td)" "host_settable (transaction_muncher td)"
    using assms(4) by (simp_all add: munched_def host_settable_def)
  from close_filters_error [OF assms(7) this]
  have "e \<in> {LengthError, EncryptionError}" if "handle_transaction_change E ?B TXN_CLOSE td s = Inl e" for e
    using that by (auto simp: handle_transaction_change_def handle_http_close_def munched_retrieve [OF m] rbind_eq_Inl_iff)
  with response_served [OF l w assms(6,5)] a show ?thesis by (auto simp: handle_transaction_change_def)
qed

text \<open>The request of the example, which has no cookie, under a configuration that asks for a captcha.\<close>

lemma sample_request_answered:
  assumes "challenger_filter B = Some C" and "captcha_only C" and "all_filters_requested_part B = Challenger_requested_info"
    and "task_queues B HTTP_REQUEST = [CHALLENGER_FILTER_ID]" and "global_ip_white_list B = empty_white_list"
  shows "\<exists>td st'. handle_request sample_libs B (new_transaction_data sample_txn True True) sample_sniffer = Inr (td, st') \<and> answered td"
proof -
  have "\<exists>m. retrieve_parts Challenger_requested_info (new_muncher sample_txn) = Inr m"
    by (rule retrieve_parts_total) (simp add: new_muncher_def update_validity_status_def sample_txn_def)
  then obtain m where m: "retrieve_parts Challenger_requested_info (new_muncher sample_txn) = Inr m" by blast
  let ?p = "cur_trans_parts m"
  have "?p k = part_ref sample_txn k" if "k \<in> {IP, HOST, URL_WITH_HOST, COOKIE}" for k
  proof -
    have k: "k \<in> set request_parts" "Challenger_requested_info AND k \<noteq> 0" "k \<noteq> VALIDITY_STAT"
      using that by (auto simp: Challenger_requested_info_def request_parts_def part_numbers)
    obtain v where "?p k = Some v" using parts_of_fresh_muncher [OF m k(1,2)] by (auto simp: sample_txn_def)
    with fresh_part_value [OF m this k(3)] show ?thesis by simp
  qed
  moreover have "host_ref sample_txn = ''example.org''"
    by (simp add: host_ref_def field_ref_def sample_txn_def) code_simp
  ultimately have p: "?p HOST = Some ''example.org''" "?p URL_WITH_HOST = Some ''http://example.org/x''" "?p COOKIE = Some []" "\<exists>ip. ?p IP = Some ip"
    by (auto simp: part_ref_eqs field_ref_def sample_txn_def TS_MIME_FIELD_HOST_def TS_MIME_FIELD_COOKIE_def)
  from assms(2) obtain ch where ch: "host_challenges_static C ''example.org'' = Some [ch]"
    "challenge_type ch = CHALLENGE_CAPTCHA" "white_listed_ips ch = []" "fail_tolerance_threshold ch = 0" unfolding captcha_only_def by auto
  let ?C = "C\<lparr>ch_white_list := Some empty_white_list\<rparr>"
  have "\<not> is_captcha_url ''http://example.org/x''" "\<not> is_captcha_answer ''http://example.org/x''"
    by (simp_all add: is_captcha_url_def is_captcha_answer_def starts_with_def)
  moreover have "parse_jar [] = []" by code_simp
  ultimately have "\<exists>resp st'. Challenger_on_http_request sample_lib ?C ?p sample_sniffer = Inr (resp, st') \<and> response_type resp = I_RESPOND"
    using p ch
    by (auto simp: Challenger_on_http_request_def part_at_def select_challenges_def is_globally_white_listed_def ip_white_listed_def
        empty_white_list_def check_cookie_def failure_response_def)
  then show ?thesis
    using assms m
    by (auto simp: handle_request_def new_transaction_data_def filter_on_http_request_def sample_libs_def answered_def Let_def)
qed

theorem transactions_run_to_their_end_witness:
  "\<exists>bx td st' td' s'. new_banjax sample_yaml captcha_loader sample_libs sample_kafka 1 ''edge'' ''d'' 0 None None None sample_sniffer = Some (Inr bx) \<and>
     handle_request sample_libs (bx_filters bx) (new_transaction_data sample_txn True True) sample_sniffer = Inr (td, st') \<and> answered td \<and>
     handle_transaction_change sample_libs (bx_filters bx) SEND_RESPONSE_HDR td sample_sniffer = Inr (td', s') \<and> body_sent td'"
proof -
  obtain bx C where bx: "new_banjax sample_yaml captcha_loader sample_libs sample_kafka 1 ''edge'' ''d'' 0 None None None sample_sniffer = Some (Inr bx)"
    "challenger_filter (bx_filters bx) = Some C" "captcha_only C" "all_filters_requested_part (bx_filters bx) = Challenger_requested_info"
    "task_queues (bx_filters bx) HTTP_REQUEST = [CHALLENGER_FILTER_ID]" "global_ip_white_list (bx_filters bx) = empty_white_list"
    using captcha_banjax by blast
  let ?B = "bx_filters bx"
  obtain td st' where td: "handle_request sample_libs ?B (new_transaction_data sample_txn True True) sample_sniffer = Inr (td, st')" "answered td"
    using sample_request_answered [OF bx(2-6)] by blast
  have s: "clock sample_sniffer n = (5, 0)" "dynamic_challenges sample_sniffer = ([], [])" for n
    by (simp_all add: sample_sniffer_def challenger_state.extend_def sample_state_def dynamic_challenges_def)
  have "format_validity_time_for_cookie 65 = Inr ''Thu, 01 Jan 1970 00:01:05 GMT''" by code_simp
  then have "all_challenges (servable (clock sample_sniffer)) C sample_sniffer"
    by (intro captcha_challenges [OF bx(3) s(2)]) (simp add: servable_def auth_ok_def s(1))
  then have ok: "\<forall>C. challenger_filter ?B = Some C \<longrightarrow> all_challenges (servable (clock sample_sniffer)) C sample_sniffer" using bx(2) by simp
  have "host_ref sample_txn = ''example.org''" by (simp add: host_ref_def field_ref_def sample_txn_def) code_simp
  then have "simple_request sample_txn"
    using sample_deflect_clean by (simp add: simple_request_def part_ref_eqs sample_txn_def)
  moreover have "lib_serves (lib_challenge sample_libs)"
    using sample_hmac_length sample_widths(1) by (simp add: lib_serves_def sample_libs_def sample_lib_def sample_random_ok sample_word)
  ultimately have pages: "pages_ok sample_libs ?B sample_txn" by (simp add: pages_ok_def)
  have "gcm_lengths (lib_gcm sample_libs)" by (simp add: gcm_lengths_def sample_libs_def sample_gcm_def)
  moreover have "\<forall>h. url_host_set sample_txn h" "resp_get sample_txn" by (simp_all add: sample_txn_def)
  ultimately show ?thesis
    using transactions_run_to_their_end [OF bx(1) td(1) ok _ _ pages _ run_nil refl] bx(1) td by blast
qed

end
