(* ===== verification/Handles.thy ===== *)
theory Handles
  imports Muncher
begin

text \<open>
  The handles of the server that a muncher takes and gives back (transaction_muncher.cpp): the buffers of the two
  headers, which the destructor releases, and the locations of the url and of header fields. Each operation of
  Muncher.thy has here, with the same branches, the list of what it does with handles. A location that
  \<open>TSHttpHdrUrlGet\<close> did not set is released all the same: \<open>Released_Unset\<close>.
\<close>

unbundle bit_operations_syntax

datatype handle = Request_Header | Response_Header | Url_Loc | Request_Field string | Response_Field string | New_Field

datatype handle_event = Acquired handle | Released handle | Released_Unset handle

section \<open>The operations\<close>

definition request_header_handles :: "muncher \<Rightarrow> handle_event list" where
  "request_header_handles m = (if \<not> request_header m \<and> req_get (trans_txnp m) then [Acquired Request_Header] else [])"

definition url_handles :: "muncher \<Rightarrow> handle_event list" where
  "url_handles m =
     (if \<not> url_get (trans_txnp m) then [Released_Unset Url_Loc]
      else case url_text m of
        None \<Rightarrow> [Acquired Url_Loc, Released Url_Loc]
      | Some url \<Rightarrow> [Acquired Url_Loc, Released Url_Loc])"

definition url_with_host_handles :: "muncher \<Rightarrow> handle_event list" where
  "url_with_host_handles m =
     (if \<not> url_get (trans_txnp m) then [Released_Unset Url_Loc]
      else
        let (host, parts) = part_index (cur_trans_parts m) HOST;
            (ok, m1) = TSUrlHostSet host (m\<lparr>cur_trans_parts := parts\<rparr>) in
        if \<not> ok then [Acquired Url_Loc, Released Url_Loc]
        else case url_text m1 of
          None \<Rightarrow> [Acquired Url_Loc, Released Url_Loc]
        | Some url \<Rightarrow> [Acquired Url_Loc, Released Url_Loc])"

definition field_handles :: "string \<Rightarrow> muncher \<Rightarrow> handle_event list" where
  "field_handles f m =
     (case req_field (trans_txnp m) f of
        None \<Rightarrow> []
      | Some None \<Rightarrow> [Acquired (Request_Field f), Released (Request_Field f)]
      | Some (Some v) \<Rightarrow> [Acquired (Request_Field f), Released (Request_Field f)])"

text \<open>\<open>retrieve_parts\<close>. The states in between are those of Muncher.thy; looking up the parts of the url and of the
  fields reads nothing that the steps before it change but the marks and the host of the url.\<close>

function retrieve_parts_handles :: "64 word \<Rightarrow> muncher \<Rightarrow> handle_event list" where
  "retrieve_parts_handles requested m =
     (let todo = NOT (valid_parts m) AND requested in
      if todo = 0 then []
      else request_header_handles m @
        (case retrieve_request_header m of
           Inl _ \<Rightarrow> []
         | Inr m0 \<Rightarrow>
             let m2 = retrieve_front todo m0 in
             (if todo AND URL \<noteq> 0 \<or> todo AND PROTOCOL \<noteq> 0 then url_handles m0 else []) @
             (if todo AND URL_WITH_HOST \<noteq> 0
              then retrieve_parts_handles (HOST OR URL) m2 @
                (case retrieve_parts (HOST OR URL) m2 of Inl _ \<Rightarrow> [] | Inr m3 \<Rightarrow> url_with_host_handles m3)
              else []) @
             (if todo AND HOST \<noteq> 0 then field_handles TS_MIME_FIELD_HOST m0 else []) @
             (if todo AND UA \<noteq> 0 then field_handles TS_MIME_FIELD_USER_AGENT m0 else []) @
             (if todo AND COOKIE \<noteq> 0 then field_handles TS_MIME_FIELD_COOKIE m0 else [])))"
  by pat_completeness auto
termination retrieve_parts_handles
proof (relation "measure (\<lambda>(requested, _). if requested AND URL_WITH_HOST = 0 then 0 else 1)")
qed (auto dest: and_not_zero simp: part_numbers)

declare retrieve_parts_handles.simps [simp del]

definition response_header_handles :: "muncher \<Rightarrow> handle_event list" where
  "response_header_handles m = (if \<not> response_header m \<and> resp_get (trans_txnp m) then [Acquired Response_Header] else [])"

text \<open>The location of the length field is not released.\<close>

definition retrieve_response_parts_handles :: "64 word \<Rightarrow> muncher \<Rightarrow> handle_event list" where
  "retrieve_response_parts_handles requested m =
     (let todo = NOT (valid_parts m) AND requested in
      if todo = 0 then []
      else response_header_handles m @
        (case need_response_header m of
           Inl _ \<Rightarrow> []
         | Inr m0 \<Rightarrow>
             if todo AND CONTENT_LENGTH \<noteq> 0 \<and> resp_field (trans_txnp m0) TS_MIME_FIELD_CONTENT_LENGTH \<noteq> None
             then [Acquired (Response_Field TS_MIME_FIELD_CONTENT_LENGTH)] else []))"

text \<open>Nor is that of a new field.\<close>

definition append_header_handles :: "muncher \<Rightarrow> handle_event list" where
  "append_header_handles m =
     response_header_handles m @
     (case need_response_header m of
        Inl _ \<Rightarrow> []
      | Inr m0 \<Rightarrow> if field_create (trans_txnp m0) (fields_created (trans_txnp m0)) then [Acquired New_Field] else [])"

definition set_url_host_handles :: "string option \<Rightarrow> muncher \<Rightarrow> handle_event list" where
  "set_url_host_handles hostname m =
     request_header_handles m @
     (case retrieve_request_header m of
        Inl _ \<Rightarrow> []
      | Inr m0 \<Rightarrow>
          (if hostname = None then retrieve_parts_handles HOST m0 else []) @
          (case wanted_host hostname m0 of
             Inl _ \<Rightarrow> []
           | Inr (h, m2) \<Rightarrow>
               if \<not> url_get (trans_txnp m2) then [Released_Unset Url_Loc]
               else [Acquired Url_Loc, Released Url_Loc]))"

text \<open>\<open>~TransactionMuncher\<close>\<close>

definition destructor_handles :: "muncher \<Rightarrow> handle_event list" where
  "destructor_handles m =
     (if request_header m then [Released Request_Header] else []) @
     (if response_header m then [Released Response_Header] else [])"

section \<open>Properties\<close>

text \<open>How many handles of a kind are held after a list of events.\<close>

definition held :: "handle \<Rightarrow> handle_event list \<Rightarrow> int" where
  "held h es = int (count_list es (Acquired h)) - int (count_list es (Released h))"

lemma held_simps [simp]:
  "held h [] = 0" "held h (xs @ ys) = held h xs + held h ys"
  "held h (Acquired g # es) = (if g = h then 1 else 0) + held h es"
  "held h (Released g # es) = (if g = h then - 1 else 0) + held h es"
  "held h (Released_Unset g # es) = held h es"
  by (simp_all add: held_def)

definition unset_released :: "handle_event list \<Rightarrow> bool" where
  "unset_released es \<longleftrightarrow> (\<exists>h. Released_Unset h \<in> set es)"

lemma unset_released_simps [simp]:
  "\<not> unset_released []" "unset_released (xs @ ys) \<longleftrightarrow> unset_released xs \<or> unset_released ys"
  "\<not> unset_released [Acquired h]" "\<not> unset_released [Acquired h, Released h]" "unset_released [Released_Unset h]"
  by (auto simp: unset_released_def)

text \<open>Locations of the url and of request fields are given back at once.\<close>

lemma location_handles [simp]:
  "held h (url_handles m) = 0" "held h (url_with_host_handles m) = 0" "held h (field_handles f m) = 0"
  "unset_released (url_handles m) \<longleftrightarrow> \<not> url_get (trans_txnp m)" "unset_released (url_with_host_handles m) \<longleftrightarrow> \<not> url_get (trans_txnp m)"
  "\<not> unset_released (field_handles f m)"
  by (auto simp: url_handles_def url_with_host_handles_def field_handles_def Let_def case_prod_beta split: option.split)

lemma header_handles [simp]:
  "held h (request_header_handles m) = (if h = Request_Header \<and> \<not> request_header m \<and> req_get (trans_txnp m) then 1 else 0)"
  "held h (response_header_handles m) = (if h = Response_Header \<and> \<not> response_header m \<and> resp_get (trans_txnp m) then 1 else 0)"
  "\<not> unset_released (request_header_handles m)" "\<not> unset_released (response_header_handles m)"
  by (simp_all add: request_header_handles_def response_header_handles_def)

text \<open>Which headers the muncher has.\<close>

definition headers :: "muncher \<Rightarrow> bool \<times> bool \<times> bool" where
  "headers m = (request_header m, response_header m, url_get (trans_txnp m))"

lemma headers_frame [simp]:
  "headers (retrieve_front todo m) = headers m" "headers (retrieve_back todo m) = headers m"
  "headers (retrieve_url_with_host m) = headers m" "headers (update_validity_status m) = headers m"
  "headers (m\<lparr>valid_parts := v\<rparr>) = headers m"
  by (auto simp: headers_def retrieve_front_def retrieve_back_def retrieve_ip_def retrieve_url_def retrieve_method_def retrieve_host_def
      retrieve_ua_def retrieve_cookie_def retrieve_url_with_host_def TSUrlHostSet_def update_validity_status_def case_prod_beta Let_def
      split: option.split)

lemma request_header_headers:
  "retrieve_request_header m = Inr m0 \<Longrightarrow> headers m0 = (True, response_header m, url_get (trans_txnp m)) \<and>
   (request_header m \<or> req_get (trans_txnp m))"
  by (auto simp: retrieve_request_header_def headers_def split: if_splits)

lemma retrieve_parts_handled:
  assumes "retrieve_parts r m = Inr m'"
  shows "response_header m' = response_header m \<and> url_get (trans_txnp m') = url_get (trans_txnp m) \<and> (request_header m \<longrightarrow> request_header m') \<and>
    held h (retrieve_parts_handles r m) = (if h = Request_Header \<and> request_header m' \<and> \<not> request_header m then 1 else 0) \<and>
    (unset_released (retrieve_parts_handles r m) \<longrightarrow> \<not> url_get (trans_txnp m))"
  using assms
proof (induction r m arbitrary: m' rule: retrieve_parts_handles.induct)
  case (1 r m)
  let ?todo = "NOT (valid_parts m) AND r"
  show ?case
  proof (cases "?todo = 0")
    case True
    then have "retrieve_parts_handles r m = []" "retrieve_parts r m = Inr m"
      by (simp_all add: retrieve_parts_unfold [of r m] retrieve_parts_handles.simps [of r m])
    with 1(2) show ?thesis by simp
  next
    case False
    with 1(2) obtain m0 where m0: "retrieve_request_header m = Inr m0" by (auto simp: retrieve_parts_unfold [of r m] rbind_eq_Inr_iff Let_def)
    note h0 = request_header_headers [OF m0]
    let ?m2 = "retrieve_front ?todo m0"
    have h2: "headers ?m2 = headers m0" by simp
    show ?thesis
    proof (cases "?todo AND URL_WITH_HOST = 0")
      case True
      with 1(2) False m0 have "headers m' = headers m0" by (auto simp: retrieve_parts_unfold [of r m] Let_def)
      with h0 m0 True False show ?thesis
        by (auto simp: retrieve_parts_handles.simps [of r m] headers_def Let_def split: if_splits)
    next
      case other: False
      with 1(2) False m0 obtain m3 where m3: "retrieve_parts (HOST OR URL) ?m2 = Inr m3" and "headers m' = headers m3"
        by (auto simp: retrieve_parts_unfold [of r m] Let_def rbind_eq_Inr_iff)
      moreover note 1(1) [OF refl False m0 refl other m3]
      ultimately show ?thesis using h0 h2 m0 m3 other False
        by (auto simp: retrieve_parts_handles.simps [of r m] headers_def Let_def split: if_splits)
    qed
  qed
qed

text \<open>The life of a muncher with what each call does to handles.\<close>

inductive handle_step :: "muncher \<Rightarrow> handle_event list \<Rightarrow> muncher \<Rightarrow> bool" where
  h_retrieve: "retrieve_parts r m = Inr m' \<Longrightarrow> handle_step m (retrieve_parts_handles r m) m'"
| h_response: "retrieve_response_parts r m = Inr m' \<Longrightarrow> handle_step m (retrieve_response_parts_handles r m) m'"
| h_get_status: "get_response_status m = Inr (s, m') \<Longrightarrow> handle_step m (response_header_handles m) m'"
| h_set_status: "set_status reason s m = Inr m' \<Longrightarrow> handle_step m (response_header_handles m) m'"
| h_append: "append_header n v m = Inr m' \<Longrightarrow> handle_step m (append_header_handles m) m'"
| h_url_host: "set_url_host host m = Inr m' \<Longrightarrow> handle_step m (set_url_host_handles host m) m'"
| h_miss: "handle_step m [] (miss m)"
| h_read: "handle_step m [] (m\<lparr>cur_trans_parts := parts\<rparr>)"

inductive_cases handle_stepE: "handle_step m es m'"

text \<open>What a step adds to the handles held, by kind.\<close>

definition step_adds :: "muncher \<Rightarrow> handle_event list \<Rightarrow> muncher \<Rightarrow> bool" where
  "step_adds m es m' \<longleftrightarrow>
     url_get (trans_txnp m') = url_get (trans_txnp m) \<and> (unset_released es \<longrightarrow> \<not> url_get (trans_txnp m)) \<and>
     held Request_Header es = of_bool (request_header m') - of_bool (request_header m) \<and>
     held Response_Header es = of_bool (response_header m') - of_bool (response_header m) \<and>
     held Url_Loc es = 0 \<and> (\<forall>f. held (Request_Field f) es = 0) \<and>
     held New_Field es = int (length (resp_appended (trans_txnp m'))) - int (length (resp_appended (trans_txnp m)))"

lemma step_adds_trans: "step_adds m es m1 \<Longrightarrow> step_adds m1 es' m' \<Longrightarrow> step_adds m (es @ es') m'"
  by (auto simp: step_adds_def)

lemma step_adds_frame:
  "headers m' = headers m \<Longrightarrow> resp_appended (trans_txnp m') = resp_appended (trans_txnp m) \<Longrightarrow> step_adds m [] m'"
  by (auto simp: step_adds_def headers_def)

lemma response_header_adds:
  "need_response_header m = Inr m' \<Longrightarrow> step_adds m (response_header_handles m) m'"
  by (auto simp: step_adds_def need_response_header_def retrieve_response_header_def split: if_splits)

lemma request_header_adds:
  "retrieve_request_header m = Inr m' \<Longrightarrow> step_adds m (request_header_handles m) m'"
  by (auto simp: step_adds_def retrieve_request_header_def split: if_splits)

lemma retrieve_parts_appended: "retrieve_parts r m = Inr m' \<Longrightarrow> resp_appended (trans_txnp m') = resp_appended (trans_txnp m)"
  using retrieve_parts_txn by fastforce

lemma retrieve_parts_adds: "retrieve_parts r m = Inr m' \<Longrightarrow> step_adds m (retrieve_parts_handles r m) m'"
  using retrieve_parts_handled [of r m m'] retrieve_parts_appended [of r m m'] by (auto simp: step_adds_def)

lemma response_parts_adds:
  assumes "retrieve_response_parts r m = Inr m'"
  shows "step_adds m (retrieve_response_parts_handles r m) m'"
proof (cases "NOT (valid_parts m) AND r = 0")
  case True
  then have "m' = m" "retrieve_response_parts_handles r m = []"
    using assms by (simp_all add: retrieve_response_parts_def retrieve_response_parts_handles_def)
  then show ?thesis by (simp add: step_adds_def)
next
  case False
  with assms obtain m0 where m0: "need_response_header m = Inr m0" by (auto simp: retrieve_response_parts_def rbind_eq_Inr_iff Let_def)
  let ?f = "if (NOT (valid_parts m) AND r) AND CONTENT_LENGTH \<noteq> 0 \<and> resp_field (trans_txnp m0) TS_MIME_FIELD_CONTENT_LENGTH \<noteq> None
    then [Acquired (Response_Field TS_MIME_FIELD_CONTENT_LENGTH)] else []"
  have "headers m' = headers m0" "trans_txnp m' = trans_txnp m0"
    using assms False m0
    by (cases "(NOT (valid_parts m) AND r) AND STATUS = 0"; cases "(NOT (valid_parts m) AND r) AND CONTENT_LENGTH = 0";
        force simp: retrieve_response_parts_def headers_def update_validity_status_def Let_def)+
  then have "step_adds m0 ?f m'" by (auto simp: step_adds_def headers_def)
  moreover have "retrieve_response_parts_handles r m = response_header_handles m @ ?f"
    using False m0 by (simp add: retrieve_response_parts_handles_def Let_def)
  ultimately show ?thesis using step_adds_trans [OF response_header_adds [OF m0]] by simp
qed

lemma append_header_adds:
  assumes "append_header n v m = Inr m'"
  shows "step_adds m (append_header_handles m) m'"
proof -
  from assms obtain m0 where m0: "need_response_header m = Inr m0" by (auto simp: append_header_def rbind_eq_Inr_iff)
  let ?f = "if field_create (trans_txnp m0) (fields_created (trans_txnp m0)) then [Acquired New_Field] else []"
  have "step_adds m0 ?f m'" using assms m0 by (auto simp: append_header_def step_adds_def Let_def)
  moreover have "append_header_handles m = response_header_handles m @ ?f" using m0 by (simp add: append_header_handles_def)
  ultimately show ?thesis using step_adds_trans [OF response_header_adds [OF m0]] by simp
qed

lemma wanted_host_adds:
  assumes "wanted_host host m = Inr (h, m')"
  shows "step_adds m (if host = None then retrieve_parts_handles HOST m else []) m'"
proof (cases host)
  case None
  with assms obtain m1 where m1: "retrieve_parts HOST m = Inr m1" and "headers m' = headers m1" "trans_txnp m' = trans_txnp m1"
    by (auto simp: wanted_host_def rbind_eq_Inr_iff headers_def case_prod_beta Let_def)
  then have "step_adds m1 [] m'" by (intro step_adds_frame) simp_all
  from step_adds_trans [OF retrieve_parts_adds [OF m1] this] None show ?thesis by simp
qed (use assms in \<open>simp add: wanted_host_def step_adds_def\<close>)

lemma set_url_host_adds:
  assumes "set_url_host host m = Inr m'"
  shows "step_adds m (set_url_host_handles host m) m'"
proof -
  from assms obtain m0 h m2 where m0: "retrieve_request_header m = Inr m0" and m2: "wanted_host host m0 = Inr (h, m2)"
    and g: "url_get (trans_txnp m2)" and "headers m' = headers m2" "resp_appended (trans_txnp m') = resp_appended (trans_txnp m2)"
    by (auto simp: set_url_host_def rbind_eq_Inr_iff TSUrlHostSet_def headers_def case_prod_beta Let_def split: if_splits option.splits)
  then have "step_adds m2 [Acquired Url_Loc, Released Url_Loc] m'" by (auto simp: step_adds_def headers_def)
  from step_adds_trans [OF request_header_adds [OF m0] step_adds_trans [OF wanted_host_adds [OF m2] this]] m0 m2 g show ?thesis
    by (simp add: set_url_host_handles_def)
qed

lemma handle_step_adds: "handle_step m es m' \<Longrightarrow> step_adds m es m'"
proof (induction rule: handle_step.induct)
  case (h_get_status m s m')
  then show ?case by (auto simp: get_response_status_def rbind_eq_Inr_iff intro: response_header_adds)
next
  case (h_set_status reason s m m')
  then obtain m0 where m0: "need_response_header m = Inr m0" and "headers m' = headers m0" "resp_appended (trans_txnp m') = resp_appended (trans_txnp m0)"
    by (auto simp: set_status_def rbind_eq_Inr_iff headers_def)
  then have "step_adds m0 [] m'" by (intro step_adds_frame)
  from step_adds_trans [OF response_header_adds [OF m0] this] show ?case by simp
qed (auto simp: miss_def headers_def intro: retrieve_parts_adds response_parts_adds append_header_adds set_url_host_adds step_adds_frame)

interpretation accounting: trace_invariant handle_step "\<lambda>es m. step_adds (new_muncher t) (concat es) m" for t
proof unfold_locales
  fix es m e m'
  assume "step_adds (new_muncher t) (concat es) m" and "handle_step m e m'"
  from step_adds_trans [OF this(1) handle_step_adds [OF this(2)]] show "step_adds (new_muncher t) (concat (es @ [e])) m'" by simp
qed

text \<open>C40: Handles are accounted for. In every life of a muncher that ends with its destructor, the buffers of both headers
  and the locations of the url and of the request's fields are given back as often as they were taken; each header
  field appended to the response keeps one location for ever; and a location that was never set is given back only if the server does
  not have the url of the request.\<close>

theorem handles_are_given_back:
  assumes "run handle_step (new_muncher t) es m"
  shows "(\<forall>h. h \<in> {Request_Header, Response_Header, Url_Loc} \<or> (\<exists>f. h = Request_Field f) \<longrightarrow>
      held h (concat es @ destructor_handles m) = 0) \<and>
    held New_Field (concat es @ destructor_handles m) =
      int (length (resp_appended (trans_txnp m))) - int (length (resp_appended t)) \<and>
    (unset_released (concat es @ destructor_handles m) \<longrightarrow> \<not> url_get t)"
proof -
  have n: "\<not> request_header (new_muncher t)" "\<not> response_header (new_muncher t)" "trans_txnp (new_muncher t) = t"
    by (simp_all add: new_muncher_def update_validity_status_def)
  have "step_adds (new_muncher t) (concat es) m"
    by (rule accounting.inv_run [OF assms]) (simp add: step_adds_def)
  with n show ?thesis by (auto simp: step_adds_def destructor_handles_def unset_released_def)
qed

text \<open>A life that fetches the url with its host and adds a header to the response.\<close>

theorem handles_are_given_back_witness:
  "\<exists>es m. run handle_step (new_muncher sample_txn) es m \<and> length es = 2 \<and> held Request_Header (concat es @ destructor_handles m) = 0 \<and>
     held Response_Header (concat es @ destructor_handles m) = 0 \<and> held New_Field (concat es @ destructor_handles m) = 1"
proof -
  have "\<exists>m. retrieve_parts URL_WITH_HOST (new_muncher sample_txn) = Inr m"
    by (rule retrieve_parts_total) (simp add: new_muncher_def update_validity_status_def sample_txn_def)
  then obtain m1 where m1: "retrieve_parts URL_WITH_HOST (new_muncher sample_txn) = Inr m1" by blast
  have "trans_txnp (new_muncher sample_txn) = sample_txn" by (simp add: new_muncher_def update_validity_status_def)
  with retrieve_parts_txn [OF m1] obtain h where t: "trans_txnp m1 = sample_txn\<lparr>url_host := h\<rparr>" by auto
  then obtain m2 where m2: "append_header ''n'' ''v'' m1 = Inr m2" "length (resp_appended (trans_txnp m2)) = 1"
    by (cases "response_header m1")
      (auto simp: append_header_def need_response_header_def retrieve_response_header_def sample_txn_def Let_def)
  have "run handle_step (new_muncher sample_txn) ([] @ [retrieve_parts_handles URL_WITH_HOST (new_muncher sample_txn)]) m1"
    by (rule run_snoc [OF run_nil]) (rule h_retrieve [OF m1])
  from run_snoc [OF this h_append [OF m2(1)]]
  have run: "run handle_step (new_muncher sample_txn) [retrieve_parts_handles URL_WITH_HOST (new_muncher sample_txn), append_header_handles m1] m2" by simp
  have "resp_appended sample_txn = []" by (simp add: sample_txn_def)
  with handles_are_given_back [OF run] run m2(2) show ?thesis by fastforce
qed

end
