(* ===== verification/Plugin.thy ===== *)
theory Plugin
  imports Banjax
begin

text \<open>
  The plugin in the server process (banjax.cpp): \<open>TSPluginInit\<close> with the test of the server's version
  (\<open>check_ts_version\<close> of util.cpp), the continuations that the server calls (\<open>handle_transaction_start\<close>,
  \<open>handle_management\<close>, the two timers) and the end of the process. A process holds the plugin, the timers that
  are scheduled, each with the Banjax that owns it, and for every running transaction the Banjax it refers to:
  a replaced Banjax lives, and its timers run, until its last transaction is closed.
\<close>

section \<open>The version of the server\<close>

text \<open>\<open>%d\<close> of \<open>sscanf\<close>: white space, an optional sign and digits; a value that is no \<open>int\<close> is undefined.\<close>

definition scan_int :: "string \<Rightarrow> (int \<times> string) option result" where
  "scan_int s =
     (let t = dropWhile isspace s;
          negative = (starts_with ''-'' t);
          u = (if negative \<or> starts_with ''+'' t then drop 1 t else t);
          (n, k, rest) = read_digits 10 0 0 u;
          v = (if negative then - n else n)
      in if k = 0 then Inr None
         else if v < - (2 ^ 31) \<or> 2 ^ 31 \<le> v then Inl IntegerOverflow
         else Inr (Some (v, rest)))"

text \<open>The conversions of a format \<open>%d.%d...\<close> that succeed.\<close>

fun scan_dotted :: "nat \<Rightarrow> string \<Rightarrow> int list result" where
  "scan_dotted 0 s = Inr []"
| "scan_dotted (Suc n) s =
     rbind (scan_int s) (\<lambda>r.
       case r of
         None \<Rightarrow> Inr []
       | Some (v, rest) \<Rightarrow>
           if n \<noteq> 0 \<and> starts_with ''.'' rest then rbind (scan_dotted n (drop 1 rest)) (\<lambda>vs. Inr (v # vs)) else Inr [v])"

definition check_ts_version :: "string option \<Rightarrow> int result" where
  "check_ts_version ts_version =
     (case ts_version of
        None \<Rightarrow> Inr 0
      | Some s \<Rightarrow>
          rbind (scan_dotted 3 (cstr s)) (\<lambda>vs.
          if length vs \<noteq> 3 then Inr 0
          else Inr (if vs ! 0 \<ge> 2 then 1 else 0)))"

section \<open>The process\<close>

datatype timer = REPORT_STATUS | REMOVE_EXPIRED_CHALLENGES

record process =
  g_banjax_plugin :: "banjax_plugin option"
  actions :: "(nat \<times> timer \<times> int) list"
  running :: "nat list"
  next_address :: nat

text \<open>The timers that the constructor of a Banjax starts; \<open>TSContScheduleEvery\<close> succeeds.\<close>

definition scheduled :: "banjax_obj \<Rightarrow> (nat \<times> timer \<times> int) list" where
  "scheduled bx =
     [(bx_id bx, REPORT_STATUS, report_status_action bx),
      (bx_id bx, REMOVE_EXPIRED_CHALLENGES, remove_expired_challenges_action bx)]"

text \<open>The destructor cancels them.\<close>

definition destroy_banjax :: "nat \<Rightarrow> (nat \<times> timer \<times> int) list \<Rightarrow> (nat \<times> timer \<times> int) list" where
  "destroy_banjax b acts = filter (\<lambda>a. fst a \<noteq> b) acts"

definition is_current :: "nat \<Rightarrow> process \<Rightarrow> bool" where
  "is_current b p = (case g_banjax_plugin p of None \<Rightarrow> False | Some g \<Rightarrow> bx_id (current_state g) = b)"

text \<open>A \<open>shared_ptr\<close> to the Banjax is gone: the last one destroys it.\<close>

definition drop_reference :: "nat \<Rightarrow> process \<Rightarrow> process" where
  "drop_reference b p =
     (if b \<in> set (running p) \<or> is_current b p then p else p\<lparr>actions := destroy_banjax b (actions p)\<rparr>)"

record ats =
  ts_version :: "string option"
  plugin_dir :: string
  argv :: "string list"
  stat_is_dir :: "string \<Rightarrow> bool option"
  register_ok :: bool

definition banjax_config_dir :: "ats \<Rightarrow> string" where
  "banjax_config_dir A = (if length (argv A) > 1 then argv A ! 1 else plugin_dir A)"

definition TSPluginInit :: "yaml_lib \<Rightarrow> loader \<Rightarrow> libs \<Rightarrow> kafka_lib \<Rightarrow> nat \<Rightarrow> string \<Rightarrow> ats \<Rightarrow> sniffer_state \<Rightarrow> process result option" where
  "TSPluginInit Y load_file E K fuel host A st =
     obind (Some (check_ts_version (ts_version A))) (\<lambda>ok.
     if ok = 0 then Some (Inl AbortTrafficServer)
     else if length (argv A) > 1 \<and> stat_is_dir A (banjax_config_dir A) = None then Some (Inl AbortTrafficServer)
     else if length (argv A) > 1 \<and> stat_is_dir A (banjax_config_dir A) = Some False then Some (Inl AbortTrafficServer)
     else if \<not> register_ok A then Some (Inl AbortTrafficServer)
     else
       obind (new_banjax_plugin Y load_file E K fuel host (banjax_config_dir A) st) (\<lambda>g.
       Some (Inr \<lparr>g_banjax_plugin = Some g, actions = scheduled (current_state g), running = [], next_address = 1\<rparr>)))"

text \<open>A transaction takes a reference to the current Banjax, and gives it back when it is closed.\<close>

definition start_transaction :: "bool \<Rightarrow> txn \<Rightarrow> bool \<Rightarrow> bool \<Rightarrow> process \<Rightarrow> (transaction_data option \<times> process) result" where
  "start_transaction is_txn_start t store_ok conf_ok p =
     (if \<not> is_txn_start then Inr (None, p)
      else case g_banjax_plugin p of
        None \<Rightarrow> Inl NullDereference
      | Some g \<Rightarrow>
          (case handle_transaction_start is_txn_start g t store_ok conf_ok of
             None \<Rightarrow> Inr (None, p)
           | Some (bx, td) \<Rightarrow> Inr (Some td, p\<lparr>running := bx_id bx # running p\<rparr>)))"

definition close_transaction :: "nat \<Rightarrow> process \<Rightarrow> process" where
  "close_transaction b p = drop_reference b (p\<lparr>running := remove1 b (running p)\<rparr>)"

definition handle_management :: "yaml_lib \<Rightarrow> loader \<Rightarrow> libs \<Rightarrow> kafka_lib \<Rightarrow> nat \<Rightarrow> string \<Rightarrow> bool \<Rightarrow> process \<Rightarrow> process result option" where
  "handle_management Y load_file E K fuel host is_mgmt_update p =
     (if \<not> is_mgmt_update then Some (Inl AbortTrafficServer)
      else case g_banjax_plugin p of
        None \<Rightarrow> Some (Inl NullDereference)
      | Some g \<Rightarrow>
          obind (reload_config Y load_file E K fuel host (next_address p) g) (\<lambda>(g', old).
          Some (Inr (drop_reference (bx_id old)
            (p\<lparr>g_banjax_plugin := Some g', actions := actions p @ scheduled (current_state g'),
               next_address := Suc (next_address p)\<rparr>)))))"

definition report_status_g :: "yaml_lib \<Rightarrow> (string \<Rightarrow> int option) \<Rightarrow> (string \<Rightarrow> 32 word option) \<Rightarrow> process \<Rightarrow> (int \<times> process) result" where
  "report_status_g Y mgmt_int mgmt_float p =
     (case g_banjax_plugin p of
        None \<Rightarrow> Inr (- 1, p)
      | Some g \<Rightarrow> rbind (plugin_report_status Y mgmt_int mgmt_float g) (\<lambda>(r, g'). Inr (r, p\<lparr>g_banjax_plugin := Some g'\<rparr>)))"

definition remove_expired_challenges_g :: "process \<Rightarrow> (int \<times> process) result" where
  "remove_expired_challenges_g p =
     (case g_banjax_plugin p of
        None \<Rightarrow> Inr (- 1, p)
      | Some g \<Rightarrow> rbind (plugin_remove_expired_challenges g) (\<lambda>(r, g'). Inr (r, p\<lparr>g_banjax_plugin := Some g'\<rparr>)))"

definition destroy_g_banjax_plugin :: "process \<Rightarrow> process" where
  "destroy_g_banjax_plugin p =
     (case g_banjax_plugin p of
        None \<Rightarrow> p
      | Some g \<Rightarrow> drop_reference (bx_id (current_state g)) (p\<lparr>g_banjax_plugin := None\<rparr>))"

section \<open>The life of a process\<close>

text \<open>What the server calls, in any order: a transaction starts, works on the tables of the current Banjax,
  or is closed; an operator changes the configuration and reloads it; a timer that is scheduled fires; the
  process exits. The files of the configuration, the metrics and the libraries' answers are arbitrary at
  every step.\<close>

inductive process_step :: "yaml_lib \<Rightarrow> libs \<Rightarrow> kafka_lib \<Rightarrow> string \<Rightarrow> process \<Rightarrow> process \<Rightarrow> bool"
  for Y E K host where
  started: "start_transaction True t store_ok conf_ok p = Inr (Some td, p') \<Longrightarrow> process_step Y E K host p p'"
| worked: "g_banjax_plugin p = Some g \<Longrightarrow>
    process_step Y E K host p (p\<lparr>g_banjax_plugin := Some (g\<lparr>current_state := (current_state g)\<lparr>bx_state := st\<rparr>\<rparr>)\<rparr>)"
| closed: "b \<in> set (running p) \<Longrightarrow> process_step Y E K host p (close_transaction b p)"
| reloaded: "handle_management Y load_file E K fuel host True p = Some (Inr p') \<Longrightarrow> process_step Y E K host p p'"
| reported: "(b, REPORT_STATUS, ms) \<in> set (actions p) \<Longrightarrow> report_status_g Y mgmt_int mgmt_float p = Inr (r, p') \<Longrightarrow>
    process_step Y E K host p p'"
| expired: "(b, REMOVE_EXPIRED_CHALLENGES, ms) \<in> set (actions p) \<Longrightarrow> remove_expired_challenges_g p = Inr (r, p') \<Longrightarrow>
    process_step Y E K host p p'"
| exited: "process_step Y E K host p (destroy_g_banjax_plugin p)"

text \<open>The timers of the Banjax in use are scheduled once each, at the periods of its configuration; any other
  timer belongs to a Banjax that a transaction still holds.\<close>

definition periods_ok :: "banjax_obj \<Rightarrow> bool" where
  "periods_ok bx \<longleftrightarrow>
     report_status_action bx = schedule_every (report_status_interval_seconds (bx_config bx)) 15 \<and>
     remove_expired_challenges_action bx = schedule_every (remove_expired_challenges_interval_seconds (bx_config bx)) 16"

definition process_inv :: "process \<Rightarrow> bool" where
  "process_inv p \<longleftrightarrow>
     (\<forall>a \<in> set (actions p). fst a < next_address p \<and> (fst a \<in> set (running p) \<or> is_current (fst a) p)) \<and>
     (\<forall>b \<in> set (running p). b < next_address p) \<and>
     (\<forall>g. g_banjax_plugin p = Some g \<longrightarrow>
        bx_id (current_state g) < next_address p \<and> periods_ok (current_state g) \<and>
        filter (\<lambda>a. fst a = bx_id (current_state g)) (actions p) = scheduled (current_state g))"

lemma is_current_Some [simp]: "g_banjax_plugin p = Some g \<Longrightarrow> is_current b p \<longleftrightarrow> bx_id (current_state g) = b"
  by (simp add: is_current_def)

lemma drop_reference_sel [simp]:
  "g_banjax_plugin (drop_reference b p) = g_banjax_plugin p" "running (drop_reference b p) = running p"
  "next_address (drop_reference b p) = next_address p" "is_current b' (drop_reference b p) = is_current b' p"
  by (simp_all add: drop_reference_def is_current_def)

lemma new_banjax_identity:
  assumes "new_banjax Y load_file E K fuel host dir b s1 s2 kc st = Some (Inr bx)"
  shows "bx_id bx = b" and "periods_ok bx"
  using assms
  by (auto simp: new_banjax_def read_configuration_def obind_eq_Some_Inr_iff rbind_eq_Inr_iff periods_ok_def)

lemma drop_reference_inv:
  assumes "\<forall>a \<in> set (actions p). fst a < next_address p \<and> (fst a \<in> set (running p) \<or> is_current (fst a) p \<or> fst a = b)"
    and "\<forall>b \<in> set (running p). b < next_address p"
    and "\<And>g. g_banjax_plugin p = Some g \<Longrightarrow>
        bx_id (current_state g) < next_address p \<and> periods_ok (current_state g) \<and>
        filter (\<lambda>a. fst a = bx_id (current_state g)) (actions p) = scheduled (current_state g)"
  shows "process_inv (drop_reference b p)"
proof (cases "b \<in> set (running p) \<or> is_current b p")
  case True
  with assms show ?thesis by (auto simp: process_inv_def drop_reference_def)
next
  case False
  have "filter (\<lambda>a. fst a = bx_id (current_state g)) (destroy_banjax b (actions p)) = scheduled (current_state g)"
    if "g_banjax_plugin p = Some g" for g
  proof -
    have "bx_id (current_state g) \<noteq> b" using False that by auto
    then have "filter (\<lambda>a. fst a = bx_id (current_state g)) (destroy_banjax b (actions p)) =
        filter (\<lambda>a. fst a = bx_id (current_state g)) (actions p)"
      by (auto simp: destroy_banjax_def intro: filter_cong)
    with assms(3) [OF that] show ?thesis by simp
  qed
  moreover have "actions (drop_reference b p) = destroy_banjax b (actions p)" using False by (simp add: drop_reference_def)
  moreover have "\<forall>a \<in> set (destroy_banjax b (actions p)).
      fst a < next_address p \<and> (fst a \<in> set (running p) \<or> is_current (fst a) p)"
    using assms(1) by (auto simp: destroy_banjax_def)
  ultimately show ?thesis using assms(2,3) unfolding process_inv_def drop_reference_sel by metis
qed

text \<open>What a timer or a transaction changes in the current Banjax leaves its address and its periods alone.\<close>

definition same_banjax :: "banjax_obj \<Rightarrow> banjax_obj \<Rightarrow> bool" where
  "same_banjax bx bx' \<longleftrightarrow> (\<exists>st. bx' = bx\<lparr>bx_state := st\<rparr>)"

lemma same_banjaxI: "bx' = bx \<or> (\<exists>st. bx' = bx\<lparr>bx_state := st\<rparr>) \<Longrightarrow> same_banjax bx bx'"
proof (erule disjE)
  have "bx = bx\<lparr>bx_state := bx_state bx\<rparr>" by simp
  then show "bx' = bx \<Longrightarrow> same_banjax bx bx'" unfolding same_banjax_def by blast
qed (simp add: same_banjax_def)

lemma same_banjax_keeps:
  "same_banjax bx bx' \<Longrightarrow> bx_id bx' = bx_id bx \<and> periods_ok bx' = periods_ok bx \<and> scheduled bx' = scheduled bx"
  by (auto simp: same_banjax_def periods_ok_def scheduled_def)

lemma same_banjax_inv:
  assumes "process_inv p" and "g_banjax_plugin p = Some g" and "same_banjax (current_state g) (current_state g')"
  shows "process_inv (p\<lparr>g_banjax_plugin := Some g'\<rparr>)"
  using assms same_banjax_keeps [OF assms(3)] by (simp add: process_inv_def is_current_def)

lemma plugin_report_status_same:
  "plugin_report_status Y mi mf g = Inr (r, g') \<Longrightarrow> same_banjax (current_state g) (current_state g')"
proof -
  assume "plugin_report_status Y mi mf g = Inr (r, g')"
  then obtain bx where bx: "Banjax_report_status Y mi mf (restart_time g) (reload_time g) (current_state g) = Inr (r, bx)"
    "g' = g\<lparr>current_state := bx\<rparr>"
    by (auto simp: plugin_report_status_def rbind_eq_Inr_iff)
  have "bx = current_state g \<or> (\<exists>st. bx = (current_state g)\<lparr>bx_state := st\<rparr>)"
    using bx(1) by (auto simp: Banjax_report_status_def Let_def case_prod_beta rbind_eq_Inr_iff split: if_splits option.splits)
  then have "same_banjax (current_state g) bx" by (rule same_banjaxI)
  with bx(2) show ?thesis by simp
qed

lemma plugin_remove_expired_challenges_same:
  "plugin_remove_expired_challenges g = Inr (r, g') \<Longrightarrow> same_banjax (current_state g) (current_state g')"
proof -
  assume "plugin_remove_expired_challenges g = Inr (r, g')"
  then obtain bx where bx: "Banjax_remove_expired_challenges (current_state g) = Inr (r, bx)" "g' = g\<lparr>current_state := bx\<rparr>"
    by (auto simp: plugin_remove_expired_challenges_def rbind_eq_Inr_iff)
  have "bx = current_state g \<or> (\<exists>st. bx = (current_state g)\<lparr>bx_state := st\<rparr>)"
    using bx(1) by (auto simp: Banjax_remove_expired_challenges_def rbind_eq_Inr_iff split: option.splits)
  then have "same_banjax (current_state g) bx" by (rule same_banjaxI)
  with bx(2) show ?thesis by simp
qed

lemma reload_config_identity:
  assumes "reload_config Y load_file E K fuel host b g = Some (Inr (g', old))"
  shows "bx_id (current_state g') = b" and "periods_ok (current_state g')" and "bx_id old = bx_id (current_state g)"
proof -
  have ids: "bx_id (snd (release_swabber_socket bx)) = bx_id bx" "bx_id (snd (release_botsniffer_socket bx)) = bx_id bx"
    "bx_id (snd (release_kafka_consumer bx)) = bx_id bx" for bx
    by (simp_all add: release_swabber_socket_def release_botsniffer_socket_def release_kafka_consumer_def case_prod_beta)
  from assms obtain dir s1 s2 kc st new where
    n: "new_banjax Y load_file E K fuel host dir b s1 s2 kc st = Some (Inr new)" and
    g': "current_state g' = new" "bx_id old = bx_id (current_state g)"
    by (auto simp: reload_config_def case_prod_beta Let_def obind_eq_Some_Inr_iff ids)
  from new_banjax_identity [OF n] g' show "bx_id (current_state g') = b" "periods_ok (current_state g')"
    "bx_id old = bx_id (current_state g)" by simp_all
qed

lemma reload_inv:
  assumes "process_inv p" and "handle_management Y load_file E K fuel host True p = Some (Inr p')"
  shows "process_inv p'"
proof -
  from assms(2) obtain g g' old where g: "g_banjax_plugin p = Some g"
    "reload_config Y load_file E K fuel host (next_address p) g = Some (Inr (g', old))"
    and p': "p' = drop_reference (bx_id old) (p\<lparr>g_banjax_plugin := Some g', actions := actions p @ scheduled (current_state g'),
               next_address := Suc (next_address p)\<rparr>)"
    by (auto simp: handle_management_def obind_eq_Some_Inr_iff split: option.splits)
  note new = reload_config_identity [OF g(2)]
  have old: "fst a < next_address p \<and> (fst a \<in> set (running p) \<or> fst a = bx_id old)" if "a \<in> set (actions p)" for a
    using assms(1) that g(1) new(3) by (auto simp: process_inv_def)
  then have "filter (\<lambda>a. fst a = next_address p) (actions p) = []" by (force simp: filter_empty_conv)
  moreover have "filter (\<lambda>a. fst a = next_address p) (scheduled (current_state g')) = scheduled (current_state g')"
    using new(1) by (simp add: scheduled_def)
  ultimately have mine: "filter (\<lambda>a. fst a = bx_id (current_state g')) (actions p @ scheduled (current_state g')) = scheduled (current_state g')"
    using new(1) by simp
  have own: "fst a = next_address p" if "a \<in> set (scheduled (current_state g'))" for a
    using that new(1) by (auto simp: scheduled_def)
  let ?q = "p\<lparr>g_banjax_plugin := Some g', actions := actions p @ scheduled (current_state g'), next_address := Suc (next_address p)\<rparr>"
  show ?thesis unfolding p'
  proof (rule drop_reference_inv)
    show "\<forall>a \<in> set (actions ?q). fst a < next_address ?q \<and> (fst a \<in> set (running ?q) \<or> is_current (fst a) ?q \<or> fst a = bx_id old)"
      using old own new(1) by (simp add: is_current_def ball_Un) (meson less_SucI)
  qed (use assms(1) mine new in \<open>auto simp: process_inv_def less_Suc_eq\<close>)
qed

lemma process_step_inv:
  assumes "process_step Y E K host p p'" and "process_inv p"
  shows "process_inv p'"
  using assms(1)
proof cases
  case (started t store_ok conf_ok td)
  then obtain g where "g_banjax_plugin p = Some g" "p' = p\<lparr>running := bx_id (current_state g) # running p\<rparr>"
    by (auto simp: start_transaction_def handle_transaction_start_def split: option.splits)
  with assms(2) show ?thesis by (auto simp: process_inv_def is_current_def)
next
  case (worked g st)
  have "same_banjax (current_state g) (current_state (g\<lparr>current_state := (current_state g)\<lparr>bx_state := st\<rparr>\<rparr>))"
    by (rule same_banjaxI) auto
  with same_banjax_inv [OF assms(2) worked(2)] worked(1) show ?thesis by simp
next
  case (closed b)
  have "set (remove1 b (running p)) \<subseteq> set (running p)" by (rule set_remove1_subset)
  moreover have "x \<in> set (remove1 b (running p)) \<or> x = b" if "x \<in> set (running p)" for x using that by (cases "x = b") auto
  ultimately show ?thesis
    unfolding closed(1) close_transaction_def using assms(2)
    by (intro drop_reference_inv) (auto simp: process_inv_def is_current_def)
next
  case (reloaded load_file fuel)
  with assms(2) reload_inv show ?thesis by blast
next
  case (reported b ms mi mf r)
  with assms(2) show ?thesis
    by (auto simp: report_status_g_def rbind_eq_Inr_iff split: option.splits intro: same_banjax_inv plugin_report_status_same)
next
  case (expired b ms r)
  with assms(2) show ?thesis
    by (auto simp: remove_expired_challenges_g_def rbind_eq_Inr_iff split: option.splits
        intro: same_banjax_inv plugin_remove_expired_challenges_same)
next
  case exited
  show ?thesis
  proof (cases "g_banjax_plugin p")
    case (Some g)
    have "process_inv (drop_reference (bx_id (current_state g)) (p\<lparr>g_banjax_plugin := None\<rparr>))"
      using assms(2) Some by (intro drop_reference_inv) (auto simp: process_inv_def)
    with exited Some show ?thesis by (simp add: destroy_g_banjax_plugin_def)
  qed (use exited assms(2) in \<open>simp add: destroy_g_banjax_plugin_def\<close>)
qed

lemma TSPluginInit_inv:
  assumes "TSPluginInit Y load_file E K fuel host A st = Some (Inr p)"
  shows "process_inv p"
proof -
  from assms obtain g where "new_banjax_plugin Y load_file E K fuel host (banjax_config_dir A) st = Some (Inr g)"
    and p: "p = \<lparr>g_banjax_plugin = Some g, actions = scheduled (current_state g), running = [], next_address = 1\<rparr>"
    by (auto simp: TSPluginInit_def obind_eq_Some_Inr_iff split: if_splits)
  then obtain bx st' where n: "new_banjax Y load_file E K fuel host (banjax_config_dir A) 0 None None None st = Some (Inr bx)"
    and g: "current_state g = bx\<lparr>bx_state := st'\<rparr>"
    by (auto simp: new_banjax_plugin_def obind_eq_Some_Inr_iff case_prod_beta Let_def)
  have "same_banjax bx (current_state g)" using g by (auto simp: same_banjax_def)
  from same_banjax_keeps [OF this] new_banjax_identity [OF n]
  have "bx_id (current_state g) = 0" "periods_ok (current_state g)" by simp_all
  then show ?thesis by (simp add: p process_inv_def scheduled_def is_current_def)
qed

lemma reachable_inv:
  assumes "TSPluginInit Y load_file E K fuel host A st = Some (Inr p0)" and "(process_step Y E K host)\<^sup>*\<^sup>* p0 p"
  shows "process_inv p"
  using assms(2)
proof (induction rule: rtranclp_induct)
  case base
  show ?case by (rule TSPluginInit_inv [OF assms(1)])
next
  case (step p1 p2)
  then show ?case using process_step_inv by blast
qed

section \<open>Starting the server\<close>

lemma scan_int_decimal:
  assumes "n < 2 ^ 31" and "no_digit rest"
  shows "scan_int (decimal_nat n @ rest) = Inr (Some (int n, rest))"
proof -
  obtain c t where ct: "decimal_nat n = c # t" by (meson decimal_nat_not_Nil neq_Nil_conv)
  then have dig: "isdigit c" using decimal_nat_digits [of c n] by simp
  have "dropWhile isspace (decimal_nat n @ rest) = decimal_nat n @ rest"
    "\<not> starts_with ''-'' (decimal_nat n @ rest)" "\<not> starts_with ''+'' (decimal_nat n @ rest)"
    using dig ct by (auto simp: isdigit_def isspace_def starts_with_def Let_def)
  moreover have "int n < 2 ^ 31" using assms(1) by simp
  ultimately show ?thesis
    by (simp add: scan_int_def Let_def read_digits_decimal [OF assms(2)] decimal_nat_not_Nil)
qed

lemma check_ts_version_decimal:
  assumes "a < 2 ^ 31" and "b < 2 ^ 31" and "c < 2 ^ 31" and "no_digit rest" and "NUL \<notin> set rest"
  shows "check_ts_version (Some (decimal_nat a @ ''.'' @ decimal_nat b @ ''.'' @ decimal_nat c @ rest)) = Inr (if 2 \<le> a then 1 else 0)"
proof -
  have "NUL \<notin> set (decimal_nat n)" for n using decimal_nat_digits [of NUL n] by (auto simp: isdigit_def)
  then have "cstr (decimal_nat a @ ''.'' @ decimal_nat b @ ''.'' @ decimal_nat c @ rest) =
      decimal_nat a @ ''.'' @ decimal_nat b @ ''.'' @ decimal_nat c @ rest"
    using assms(5) by (intro cstr_id) simp
  moreover have "no_digit (''.'' @ s)" for s by (simp add: no_digit_def isdigit_def)
  ultimately have "scan_dotted 3 (cstr (decimal_nat a @ ''.'' @ decimal_nat b @ ''.'' @ decimal_nat c @ rest)) = Inr [int a, int b, int c]"
    using scan_int_decimal [OF assms(1)] scan_int_decimal [OF assms(2)] scan_int_decimal [OF assms(3,4)]
    by (simp add: numeral_3_eq_3 starts_with_def)
  then show ?thesis by (simp add: check_ts_version_def)
qed

text \<open>The server does not run without banjax: \<open>TSPluginInit\<close> aborts it unless the major version is at least 2, the
  configuration directory exists if one is given, and the plugin can be registered.\<close>

lemma TSPluginInit_decides:
  assumes "a < 2 ^ 31" and "b < 2 ^ 31" and "c < 2 ^ 31" and "no_digit rest" and "NUL \<notin> set rest"
    and "ts_version A = Some (decimal_nat a @ ''.'' @ decimal_nat b @ ''.'' @ decimal_nat c @ rest)"
  shows "TSPluginInit Y load_file E K fuel host A st =
    (if 2 \<le> a \<and> (length (argv A) \<le> 1 \<or> stat_is_dir A (argv A ! 1) = Some True) \<and> register_ok A
     then obind (new_banjax_plugin Y load_file E K fuel host (if length (argv A) \<le> 1 then plugin_dir A else argv A ! 1) st) (\<lambda>g.
       Some (Inr \<lparr>g_banjax_plugin = Some g, actions = scheduled (current_state g), running = [], next_address = 1\<rparr>))
     else Some (Inl AbortTrafficServer))"
  using check_ts_version_decimal [OF assms(1-5)] assms(6)
  by (cases "stat_is_dir A (argv A ! 1)") (auto simp: TSPluginInit_def banjax_config_dir_def)

definition sample_ats :: ats where
  "sample_ats = \<lparr>ts_version = Some (decimal_nat 9 @ ''.'' @ decimal_nat 1 @ ''.'' @ decimal_nat 3 @ []), plugin_dir = ''p'',
     argv = [''banjax.so'', ''d''], stat_is_dir = (\<lambda>s. if s = ''d'' then Some True else None), register_ok = True\<rparr>"

lemma sample_new_plugin:
  "\<exists>g. new_banjax_plugin sample_yaml sample_banjax_loader sample_libs sample_kafka 1 ''edge'' ''d'' sample_sniffer = Some (Inr g)"
  unfolding new_banjax_plugin_def case_prod_beta Let_def
  by (rule obind_returns) (use sample_new_banjax in blast)

section \<open>The timers\<close>

text \<open>C17: The timers follow the configuration in force. Whatever transactions, reloads and timers come before, the
  current Banjax has exactly one status timer and one expiry timer, at the periods of its configuration (15 and 16
  seconds where it gives none). Any further timer belongs to a replaced Banjax that a transaction still holds,
  and is gone when the last of those is closed. But a reload during a transaction leaves the timers of the old
  Banjax running beside the new ones.\<close>

theorem timers_follow_the_configuration:
  assumes "TSPluginInit Y load_file E K fuel host A st = Some (Inr p0)" and "(process_step Y E K host)\<^sup>*\<^sup>* p0 p"
    and "g_banjax_plugin p = Some g"
  defines "b \<equiv> bx_id (current_state g)" and "c \<equiv> bx_config (current_state g)"
  shows "filter (\<lambda>a. fst a = b) (actions p) =
      [(b, REPORT_STATUS, schedule_every (report_status_interval_seconds c) 15),
       (b, REMOVE_EXPIRED_CHALLENGES, schedule_every (remove_expired_challenges_interval_seconds c) 16)] \<and>
    (\<forall>a \<in> set (actions p). fst a \<noteq> b \<longrightarrow> fst a \<in> set (running p)) \<and>
    (set (running p) \<subseteq> {b} \<longrightarrow> length (actions p) = 2) \<and>
    (\<forall>load_file' fuel' p'. b \<in> set (running p) \<longrightarrow> handle_management Y load_file' E K fuel' host True p = Some (Inr p') \<longrightarrow>
       length (actions p') = length (actions p) + 2)"
proof -
  have inv: "process_inv p" by (rule reachable_inv [OF assms(1,2)])
  then have own: "filter (\<lambda>a. fst a = b) (actions p) = scheduled (current_state g)" "periods_ok (current_state g)"
    and others: "\<forall>a \<in> set (actions p). fst a \<noteq> b \<longrightarrow> fst a \<in> set (running p)"
    using assms(3) by (auto simp: process_inv_def b_def)
  have "length (actions p) = 2" if "set (running p) \<subseteq> {b}"
  proof -
    have "\<forall>a \<in> set (actions p). fst a = b" using others that by auto
    then have "filter (\<lambda>a. fst a = b) (actions p) = actions p" by simp
    with own(1) show ?thesis by (simp add: scheduled_def)
  qed
  moreover have "length (actions p') = length (actions p) + 2"
    if "b \<in> set (running p)" "handle_management Y load_file' E K fuel' host True p = Some (Inr p')" for load_file' fuel' p'
  proof -
    from that(2) assms(3) obtain g' old where
      r: "reload_config Y load_file' E K fuel' host (next_address p) g = Some (Inr (g', old))" and
      p': "p' = drop_reference (bx_id old) (p\<lparr>g_banjax_plugin := Some g', actions := actions p @ scheduled (current_state g'),
        next_address := Suc (next_address p)\<rparr>)"
      by (auto simp: handle_management_def obind_eq_Some_Inr_iff)
    from reload_config_identity(3) [OF r] that(1) p' show ?thesis by (simp add: drop_reference_def scheduled_def b_def)
  qed
  ultimately show ?thesis using own others by (simp add: scheduled_def periods_ok_def b_def c_def)
qed

theorem timers_follow_the_configuration_witness:
  "\<exists>p g. TSPluginInit sample_yaml sample_banjax_loader sample_libs sample_kafka 1 ''edge'' sample_ats sample_sniffer = Some (Inr p) \<and>
     g_banjax_plugin p = Some g \<and> length (actions p) = 2"
proof -
  obtain g where g: "new_banjax_plugin sample_yaml sample_banjax_loader sample_libs sample_kafka 1 ''edge'' ''d'' sample_sniffer = Some (Inr g)"
    using sample_new_plugin by blast
  let ?p = "\<lparr>g_banjax_plugin = Some g, actions = scheduled (current_state g), running = [], next_address = 1\<rparr>"
  have "check_ts_version (ts_version sample_ats) = Inr 1"
    using check_ts_version_decimal [of 9 1 3 "[]"] by (simp add: sample_ats_def no_digit_def)
  with g have "TSPluginInit sample_yaml sample_banjax_loader sample_libs sample_kafka 1 ''edge'' sample_ats sample_sniffer = Some (Inr ?p)"
    by (simp add: TSPluginInit_def banjax_config_dir_def sample_ats_def)
  with timers_follow_the_configuration [OF this rtranclp.rtrancl_refl, of g] show ?thesis by auto
qed

end
