(* ===== verification/Spec2Isabelle.thy ===== *)
theory Spec2Isabelle
  imports CaptchaFlow FailureCounting BanFlow CommandFlow TransactionLife Handles Plugin
begin

text \<open>
  A verification development for Banjax, the plugin of Apache Traffic Server that keeps bots away from
  the sites behind a Deflect edge.

  \<^bold>\<open>The program.\<close> \<open>banjax.cpp\<close> reads the configuration, builds the filters in the order of their
  priorities and starts a \<open>TransactionData\<close> for every transaction of the server. On the events of the
  transaction \<open>transaction_data.cpp\<close> retrieves the parts of request and response that the filters asked
  for (\<open>transaction_muncher.cpp\<close>), runs the request through the chain of filters, replaces the response
  when a filter answers itself, and tells the bot sniffer about the closed transaction. The filters are:
  \<^item> \<open>white_lister.cpp\<close>, which serves listed addresses at once;
  \<^item> \<open>regex_manager.cpp\<close>, which bans an address whose requests match a rule too often;
  \<^item> \<open>challenger.cpp\<close>, which asks for a solved challenge (captcha, proof of work or password) before a
    page is served, counts failures and bans;
  \<^item> \<open>denialator.cpp\<close>, which denies flagged addresses during the grace period;
  \<^item> \<open>bot_sniffer.cpp\<close>, which publishes an encrypted line about every transaction.

  They share the ban interface \<open>swabber.cpp\<close> (a grace period, then a message on a ZeroMQ socket), three
  tables of states by address (\<open>ip_db.h\<close>) and the global white list. Reports go out and commands come in
  through Kafka (\<open>kafka.cpp\<close>). A reload builds a new Banjax that takes over sockets and consumer. The images of
  the captchas are drawn by \<open>libcaptcha.c\<close>.

  \<^bold>\<open>The model.\<close> Operations are functions on explicit states. A failure is a value of the type \<open>error\<close>:
  an exception, an abort of the server, or undefined behaviour such as a read past the end of a buffer,
  a null pointer or a shift by the word size, so that a theorem that an operation returns also says
  that it is free of these. What the program asks of its surroundings (whether a lock is free, what time
  it is, whether a socket can be bound) is answered by the record \<open>world\<close>, which every state extends; a
  theorem for all states is one for all schedules of the locks and all clocks. Machine integers that can
  wrap are words; the rates of the rate limiter are exact rationals rounded to single and double
  precision after every operation (theory Floating). Memory that several objects share is one component
  of the state: the white list that challenger and denialator point to is the one the white lister fills.

  \<^bold>\<open>Parameters.\<close> Code outside the repository is an argument: yaml-cpp's conversions and file loader,
  OpenSSL's SHA-256, HMAC and AES-GCM, RE2, the contents of the page files, the bytes of /dev/urandom, the
  answers of Traffic Server (records \<open>txn\<close> and \<open>ats\<close>), librdkafka and the JSON parser. Laws about them are
  hypotheses where a theorem needs one (for example \<open>gcm_correct\<close>, that decryption undoes encryption), and
  every theorem with hypotheses has a witness on a concrete instance.

  \<^bold>\<open>Theories and sources.\<close>
  \<^item> Prelude: failures, byte strings, the world, runs of a step relation and the locale
    \<open>trace_invariant\<close> for invariants of runs. GmTime: \<open>gmtime\<close> and the time formats.
  \<^item> Util, Base64, Cookie, CookieHash: \<open>util.cpp\<close>, \<open>base64.cpp\<close>, \<open>cookie.cpp\<close>, \<open>cookiehash.cpp\<close>. The
    encoder computes RFC 4648; round trips of encoding, cookie jar and issued cookies; authenticity of validated cookies; where decoding,
    validation and address ranges go wrong. Locale \<open>text_codec\<close>.
  \<^item> Yaml, BanjaxFilter: configuration trees and \<open>merge_nodes\<close>, the vocabulary of \<open>banjax_filter.h\<close> and
    \<open>filter_list.h\<close>.
  \<^item> IpDb, WhiteList, Socket: \<open>ip_db.h\<close>, \<open>global_white_list.h\<close>, \<open>socket.h\<close>. The table refines a map
    that ignores calls without the lock (locale \<open>state_table\<close>); the white list is a union of ranges (locale
    \<open>exemptions\<close>).
  \<^item> Swabber, Denialator, WhiteLister: bans come only after the grace period and do come; who is denied;
    who is exempt. BanFlow: bans across these components and the regex filter. The ban interface implements a ledger
    of flag times; a hit keeps the address out until its ban is sent.
  \<^item> Floating, RegexManager: the rate limiter; memory safety for every accepted rule set, and what the
    rounding does to the threshold.
  \<^item> CaptchaGlyphs, Libcaptcha, CaptchaGif: \<open>libcaptcha.c\<close>. An image is an array of bytes, a pointer an offset,
    and every access is checked. Which words are drawn and which read past an array; the file of an
    image, decoded by a GIF decoder, is the image.
  \<^item> Reports, ChallengeSpec, Challenger, CaptchaFlow, FailureCounting: the challenger. Challenges cannot
    be got around; a captcha can be solved; the token of an unsolved page passes for a solved captcha;
    failures are counted exactly.
  \<^item> Print: the texts of \<open>print.h\<close>, for the log and the error page; different values have different texts.
  \<^item> Muncher, TransactionData: the parts of a transaction and its events. What was asked for is there, with the
    values of a reference that looks at the transaction once;
    every event is passed back once; a protected page needs solved challenges through the whole chain; a
    request a filter answers gets a complete response. Handles: what the muncher takes from the server it gives
    back by its destructor, but for the locations of fields of the response.
  \<^item> BotSniffer: the encrypted log, which its receiver can read.
  \<^item> BanjaxConfig: the files of the configuration and the order of the filters (locale \<open>config_invariant\<close>).
  \<^item> Kafka: the consumer with its thread, which may be interleaved with reloads, and the commands. After a reload at most one
    fetch, under way when it came, uses the old subscription. CommandFlow: a challenge that a command asked for is in
    force until it expires, whatever requests, commands for others and clean-ups come in between.
  \<^item> Banjax: construction, reload, status report and clean-up; what a reload keeps.
  \<^item> RequestSafety: every request is decided under every accepted configuration, with the challenger for
    requests whose \<open>deflect\<close> cookie is base64. TransactionLife: a handled transaction comes to its end, and
    an answered one gets its page, whatever other transactions do in between (an invariant of a step relation).
  \<^item> Plugin: the server process, \<open>TSPluginInit\<close> and \<open>check_ts_version\<close>, transactions that hold a Banjax, reloads
    and timers as a step relation; the timers follow the configuration in force.

  \<^bold>\<open>Fuel.\<close> Only \<open>process_config\<close> has fuel, the depth of nested includes, since a file that includes itself
  is read for ever; a theorem shows that the depth of the includes is enough. All other loops are total.
  The loops of \<open>libcaptcha.c\<close> are \<open>for_loop\<close> with the bounds of the source; \<open>for_loop_total\<close> is the rule for them.

  \<^bold>\<open>Not modelled.\<close> The calls of \<open>print::debug\<close> and \<open>TSDebug\<close> are left out of the handlers: they only
  write a log. The test programs in \<open>cookiehash.cpp\<close> and
  \<open>libcaptcha.c\<close> are not part of the plugin. Two threads inside one handler are not interleaved: the handlers hold locks only
  through \<open>TSMutexLockTry\<close> and \<open>TSMutexLock\<close>, whose outcomes are inputs; races on unlocked data (the size of
  the tables in the status report, the flags of the consumer) are not part of the model.
\<close>

end
